(* ===== verification/Prelude.thy ===== *)
theory Prelude
  imports Main "HOL-Library.Word"
begin

text \<open>
  Shared vocabulary of the development: the collections the component proofs draw on, the names of
  the machine types, and the generic facts on association lists and on \<open>takeWhile\<close> that several
  components need.

  \<^item> \<open>frame\<close> collects the facts that an operation leaves a state component alone;
  \<^item> \<open>lib\<close> collects the rewriting facts on the C and C++ library model.
\<close>

named_theorems frame "state components that an operation leaves alone"

named_theorems lib "rewriting facts on the library model"

type_synonym u8 = "8 word"

type_synonym u32 = "32 word"

type_synonym bytes = "u8 list"

text \<open>A fallible operation returns an error or a value, and always the new state.\<close>

type_synonym ('e, 'a, 's) result = "('e + 'a) \<times> 's"

text \<open>The operation returned \<open>true\<close>.\<close>

abbreviation succeeds :: "'e + 'a \<Rightarrow> bool" where "succeeds r \<equiv> \<not> isl r"

abbreviation newline :: char where "newline \<equiv> CHR 0x0A"

abbreviation tab :: char where "tab \<equiv> CHR 0x09"

abbreviation nul :: char where "nul \<equiv> CHR 0x00"

subsection \<open>Association lists\<close>

lemma map_of_filter_key [lib]:
  "map_of (filter (\<lambda>p. fst p \<noteq> k) m) = (map_of m)(k := None)"
  by (induction m) (auto simp: fun_eq_iff)

lemma map_of_replace_present:
  "k \<in> fst ` set m \<Longrightarrow>
   map_of (map (\<lambda>p. if fst p = k then (k, v) else p) m) = (map_of m)(k \<mapsto> v)"
proof (induction m)
  case Nil
  then show ?case by simp
next
  case (Cons p m)
  obtain a b where p: "p = (a, b)" by (cases p)
  show ?case
  proof (cases "k \<in> fst ` set m")
    case True
    then show ?thesis using Cons.IH by (auto simp: p fun_eq_iff)
  next
    case False
    then have "map (\<lambda>p. if fst p = k then (k, v) else p) m = m"
      by (induction m) (auto simp: fst_eq_Domain)
    moreover have "a = k" using False Cons.prems by (auto simp: p)
    ultimately show ?thesis by (auto simp: p fun_eq_iff)
  qed
qed

lemma map_fst_replace [simp]:
  "map (fst \<circ> (\<lambda>p. if fst p = k then (k, v) else p)) m = map fst m"
  by (induction m) auto

lemma distinct_fst_filter [intro]:
  "distinct (map fst m) \<Longrightarrow> distinct (map fst (filter P m))"
  by (rule distinct_map_filter)

lemma map_of_eq_Some_iff_mem:
  "distinct (map fst m) \<Longrightarrow> map_of m k = Some v \<longleftrightarrow> (k, v) \<in> set m"
  by (rule map_of_eq_Some_iff)

lemma map_of_None_iff: "map_of m k = None \<longleftrightarrow> k \<notin> fst ` set m"
  by (simp add: map_of_eq_None_iff)

subsection \<open>Prefixes\<close>

lemma takeWhile_append_stop:
  "\<lbrakk>\<forall>x\<in>set xs. P x; \<not> P y\<rbrakk> \<Longrightarrow> takeWhile P (xs @ y # ys) = xs"
  by (induction xs) auto

lemma takeWhile_all_id: "\<forall>x\<in>set xs. P x \<Longrightarrow> takeWhile P xs = xs"
  by (induction xs) auto

end
