(* ===== verification/Std_Lib.thy ===== *)
theory Std_Lib
  imports Prelude
begin

text \<open>
  What the sources use of the C and C++ libraries, as functions: C strings, the \<open>ctype.h\<close>
  predicates of the C locale, decimal output and \<open>strtoll\<close>, line input, \<open>std::map\<close> and
  \<open>std::set\<close>. A byte is a \<^typ>\<open>char\<close>; \<open>long long\<close> and \<open>time_t\<close> values are integers
  whose 64-bit bounds are written out where the code tests them.
\<close>

subsection \<open>C strings and character classes\<close>

text \<open>\<open>s.c_str()\<close> read as a C string ends at the first NUL byte.\<close>

definition c_str :: "string \<Rightarrow> string" where
  "c_str s = takeWhile (\<lambda>c. c \<noteq> nul) s"

abbreviation byte :: "char \<Rightarrow> nat" where
  "byte c \<equiv> of_char c"

definition isspace :: "char \<Rightarrow> bool" where
  "isspace c \<longleftrightarrow> byte c = 32 \<or> (9 \<le> byte c \<and> byte c \<le> 13)"

definition isdigit :: "char \<Rightarrow> bool" where
  "isdigit c \<longleftrightarrow> 48 \<le> byte c \<and> byte c \<le> 57"

definition isupper :: "char \<Rightarrow> bool" where
  "isupper c \<longleftrightarrow> 65 \<le> byte c \<and> byte c \<le> 90"

definition islower :: "char \<Rightarrow> bool" where
  "islower c \<longleftrightarrow> 97 \<le> byte c \<and> byte c \<le> 122"

definition isalnum :: "char \<Rightarrow> bool" where
  "isalnum c \<longleftrightarrow> isdigit c \<or> isupper c \<or> islower c"

definition tolower :: "char \<Rightarrow> char" where
  "tolower c = (if isupper c then char_of (byte c + 32) else c)"

definition toupper :: "char \<Rightarrow> char" where
  "toupper c = (if islower c then char_of (byte c - 32) else c)"

lemma c_str_id [lib]: "nul \<notin> set s \<Longrightarrow> c_str s = s"
  unfolding c_str_def by (rule takeWhile_all_id) auto

lemma nul_notin_c_str [simp]: "nul \<notin> set (c_str s)"
  unfolding c_str_def by (auto dest: set_takeWhileD)

lemma c_str_idem [simp]: "c_str (c_str s) = c_str s"
  by (simp add: c_str_id)

lemma set_c_str_subset: "set (c_str s) \<subseteq> set s"
  unfolding c_str_def by (auto dest: set_takeWhileD)

lemma code_char_of: "n < 256 \<Longrightarrow> byte (char_of n) = n"
  by simp

lemma code_tolower: "byte (tolower c) = (if isupper c then byte c + 32 else byte c)"
  by (auto simp: tolower_def isupper_def)

lemma code_toupper: "byte (toupper c) = (if islower c then byte c - 32 else byte c)"
  by (auto simp: toupper_def islower_def)

lemma tolower_idem [simp]: "tolower (tolower c) = tolower c"
proof -
  have "\<not> isupper (tolower c)" by (auto simp: isupper_def code_tolower)
  then show ?thesis by (simp add: tolower_def)
qed

lemma not_isupper_tolower [simp]: "\<not> isupper (tolower c)"
  by (auto simp: isupper_def code_tolower)

lemma isalnum_tolower [simp]: "isalnum (tolower c) = isalnum c"
  by (auto simp: isalnum_def isupper_def islower_def isdigit_def code_tolower)

lemma char_eq_iff_code: "c = d \<longleftrightarrow> byte c = byte d"
  by simp

subsection \<open>Decimal output\<close>

text \<open>\<open>operator<<\<close> on integers and \<open>%d\<close>.\<close>

definition digit_char :: "nat \<Rightarrow> char" where
  "digit_char d = char_of (48 + d)"

fun show_nat :: "nat \<Rightarrow> string" where
  "show_nat n = (if n < 10 then [digit_char n] else show_nat (n div 10) @ [digit_char (n mod 10)])"

definition show_int :: "int \<Rightarrow> string" where
  "show_int i = (if i < 0 then CHR ''-'' # show_nat (nat (- i)) else show_nat (nat i))"

declare show_nat.simps [simp del]

lemma code_digit_char: "d < 10 \<Longrightarrow> byte (digit_char d) = 48 + d"
  by (simp add: digit_char_def)

lemma isdigit_digit_char [simp]: "d < 10 \<Longrightarrow> isdigit (digit_char d)"
  by (simp add: isdigit_def code_digit_char)

lemma show_nat_digits: "c \<in> set (show_nat n) \<Longrightarrow> isdigit c"
proof (induction n rule: show_nat.induct)
  case (1 n)
  show ?case
  proof (cases "n < 10")
    case True
    with "1.prems" show ?thesis by (simp add: show_nat.simps [of n])
  next
    case False
    with 1 show ?thesis by (auto simp: show_nat.simps [of n])
  qed
qed

lemma show_nat_not_Nil [simp]: "show_nat n \<noteq> []"
  by (subst show_nat.simps) simp

subsection \<open>Decimal input\<close>

text \<open>
  \<open>strtoll (s, &end, 10)\<close>: white space, an optional sign, the longest run of digits. The result
  says which of the three outcomes the callers tell apart through \<open>errno\<close> and \<open>end\<close> holds: no
  conversion (\<open>end == s\<close>), \<open>ERANGE\<close>, or a value and the text left at \<open>end\<close>.
\<close>

datatype strtoll_result = No_conversion | Range_error | Converted int string

fun read_digits :: "nat \<Rightarrow> string \<Rightarrow> nat \<times> string" where
  "read_digits acc [] = (acc, [])"
| "read_digits acc (c # cs) =
     (if isdigit c then read_digits (acc * 10 + (byte c - 48)) cs else (acc, c # cs))"

fun read_sign :: "string \<Rightarrow> bool \<times> string" where
  "read_sign [] = (False, [])"
| "read_sign (c # cs) =
     (if c = CHR ''-'' then (True, cs) else if c = CHR ''+'' then (False, cs) else (False, c # cs))"

definition long_long_max :: int where "long_long_max = 2 ^ 63 - 1"

definition long_long_min :: int where "long_long_min = - (2 ^ 63)"

definition strtoll :: "string \<Rightarrow> strtoll_result" where
  "strtoll s =
     (let (neg, u) = read_sign (dropWhile isspace (c_str s)) in
      case u of
        [] \<Rightarrow> No_conversion
      | c # _ \<Rightarrow>
          if \<not> isdigit c then No_conversion
          else let (n, rest) = read_digits 0 u; v = (if neg then - int n else int n) in
               if v < long_long_min \<or> long_long_max < v then Range_error else Converted v rest)"

text \<open>
  The test the callers apply to it: \<open>errno == 0 && end != value && *end == 0\<close>.
\<close>

definition strtoll_all :: "string \<Rightarrow> int option" where
  "strtoll_all s = (case strtoll s of Converted v [] \<Rightarrow> Some v | _ \<Rightarrow> None)"

lemma read_digits_append:
  "\<forall>c\<in>set ds. isdigit c \<Longrightarrow> read_digits acc (ds @ rest) = read_digits (fst (read_digits acc ds)) rest"
  by (induction ds arbitrary: acc) auto

lemma read_digits_show_nat: "read_digits 0 (show_nat n) = (n, [])"
proof (induction n rule: show_nat.induct)
  case (1 n)
  show ?case
  proof (cases "n < 10")
    case True
    then show ?thesis by (simp add: show_nat.simps [of n] code_digit_char)
  next
    case False
    with 1 have "read_digits 0 (show_nat (n div 10)) = (n div 10, [])" by simp
    with False show ?thesis
      by (simp add: show_nat.simps [of n] read_digits_append show_nat_digits code_digit_char)
  qed
qed

lemma isdigit_not_special:
  "isdigit c \<Longrightarrow> \<not> isspace c \<and> c \<noteq> CHR ''-'' \<and> c \<noteq> CHR ''+'' \<and> c \<noteq> nul \<and> c \<noteq> tab \<and> c \<noteq> newline"
  by (auto simp: isdigit_def isspace_def)

lemma show_nat_Cons: "\<exists>c cs. show_nat n = c # cs \<and> isdigit c"
  by (metis list.exhaust list.set_intros(1) show_nat_digits show_nat_not_Nil)

lemma dropWhile_show_nat: "dropWhile isspace (show_nat n) = show_nat n"
  using show_nat_Cons [of n] by (auto dest: isdigit_not_special)

lemma read_sign_show_nat: "read_sign (show_nat n) = (False, show_nat n)"
  using show_nat_Cons [of n] by (auto dest: isdigit_not_special)

lemma plain_show_int: "\<forall>c\<in>set (show_int n). c \<noteq> nul \<and> c \<noteq> tab \<and> c \<noteq> newline"
  by (auto simp: show_int_def dest: show_nat_digits isdigit_not_special)

lemma c_str_show_int: "c_str (show_int n) = show_int n"
  using plain_show_int [of n] by (intro c_str_id) blast

lemma strtoll_digits:
  assumes "read_sign (dropWhile isspace (c_str s)) = (neg, show_nat n)"
    and "v = (if neg then - int n else int n)"
    and "long_long_min \<le> v" and "v \<le> long_long_max"
  shows "strtoll_all s = Some v"
proof -
  obtain c cs where c: "show_nat n = c # cs" "isdigit c" using show_nat_Cons [of n] by blast
  have "read_digits 0 (c # cs) = (n, [])" using read_digits_show_nat [of n] c by simp
  with assms c show ?thesis by (auto simp: strtoll_all_def strtoll_def)
qed

text \<open>What \<open>operator<<\<close> wrote, \<open>strtoll\<close> reads back, for every \<open>long long\<close>.\<close>

lemma strtoll_show_int:
  assumes "long_long_min \<le> v" and "v \<le> long_long_max"
  shows "strtoll_all (show_int v) = Some v"
proof (cases "v < 0")
  case True
  then have "read_sign (dropWhile isspace (c_str (show_int v))) = (True, show_nat (nat (- v)))"
    unfolding c_str_show_int by (simp add: show_int_def isspace_def)
  then show ?thesis by (rule strtoll_digits) (use True assms in auto)
next
  case False
  then have "read_sign (dropWhile isspace (c_str (show_int v))) = (False, show_nat (nat v))"
    unfolding c_str_show_int by (simp add: show_int_def dropWhile_show_nat read_sign_show_nat)
  then show ?thesis by (rule strtoll_digits) (use False assms in auto)
qed

lemma strtoll_all_bounds:
  "strtoll_all s = Some v \<Longrightarrow> long_long_min \<le> v \<and> v \<le> long_long_max"
  by (auto simp: strtoll_all_def strtoll_def Let_def
      split: strtoll_result.splits list.splits prod.splits if_splits)

lemma strtoll_all_c_str: "strtoll_all (c_str s) = strtoll_all s"
  by (simp add: strtoll_all_def strtoll_def)

subsection \<open>Lines and fields\<close>

text \<open>
  \<open>std::getline\<close> over a stream holding \<open>s\<close>, until it fails: a newline ends a line, and the
  text after the last newline is a line only when it is not empty.
\<close>

fun getlines_from :: "string \<Rightarrow> string \<Rightarrow> string list" where
  "getlines_from acc [] = (if acc = [] then [] else [rev acc])"
| "getlines_from acc (c # cs) =
     (if c = newline then rev acc # getlines_from [] cs else getlines_from (c # acc) cs)"

definition getlines :: "string \<Rightarrow> string list" where
  "getlines s = getlines_from [] s"

text \<open>The \<open>find\<close>/\<open>substr\<close> loop that cuts a line at a separator, empty fields kept.\<close>

fun split_from :: "char \<Rightarrow> string \<Rightarrow> string \<Rightarrow> string list" where
  "split_from sep acc [] = [rev acc]"
| "split_from sep acc (c # cs) =
     (if c = sep then rev acc # split_from sep [] cs else split_from sep (c # acc) cs)"

definition split_fields :: "char \<Rightarrow> string \<Rightarrow> string list" where
  "split_fields sep s = split_from sep [] s"

lemma getlines_from_line:
  "newline \<notin> set l \<Longrightarrow> getlines_from acc (l @ newline # rest) = (rev acc @ l) # getlines_from [] rest"
  by (induction l arbitrary: acc) auto

lemma getlines_Nil [lib]: "getlines [] = []"
  by (simp add: getlines_def)

lemma getlines_line [lib]: "newline \<notin> set l \<Longrightarrow> getlines (l @ newline # rest) = l # getlines rest"
  by (simp add: getlines_def getlines_from_line)

lemma getlines_no_newline: "l \<in> set (getlines s) \<Longrightarrow> newline \<notin> set l"
proof -
  have "l \<in> set (getlines_from acc s) \<Longrightarrow> newline \<notin> set acc \<Longrightarrow> newline \<notin> set l" for acc
    by (induction s arbitrary: acc) (fastforce split: if_splits)+
  then show "l \<in> set (getlines s) \<Longrightarrow> newline \<notin> set l" by (simp add: getlines_def)
qed

lemma split_from_field:
  "sep \<notin> set f \<Longrightarrow> split_from sep acc (f @ sep # rest) = (rev acc @ f) # split_from sep [] rest"
  by (induction f arbitrary: acc) auto

lemma split_from_last: "sep \<notin> set f \<Longrightarrow> split_from sep acc f = [rev acc @ f]"
  by (induction f arbitrary: acc) auto

lemma split_fields_field [lib]:
  "sep \<notin> set f \<Longrightarrow> split_fields sep (f @ sep # rest) = f # split_fields sep rest"
  by (simp add: split_fields_def split_from_field)

lemma split_fields_last [lib]: "sep \<notin> set f \<Longrightarrow> split_fields sep f = [f]"
  by (simp add: split_fields_def split_from_last)

subsection \<open>Lists in one string\<close>

text \<open>\<open>acl::string::split2\<close> as documented: the non-empty runs of characters between
  separators. The handlers take it as a parameter; this is the instance the examples use.\<close>

fun tokens_from :: "string \<Rightarrow> string \<Rightarrow> string \<Rightarrow> string list" where
  "tokens_from seps acc [] = (if acc = [] then [] else [rev acc])"
| "tokens_from seps acc (c # cs) =
     (if c \<in> set seps then (if acc = [] then [] else [rev acc]) @ tokens_from seps [] cs
      else tokens_from seps (c # acc) cs)"

definition tokens :: "string \<Rightarrow> string \<Rightarrow> string list" where
  "tokens t seps = tokens_from seps [] t"

end
