(* ===== verification/Std_Map.thy ===== *)
theory Std_Map
  imports Std_Lib
begin

text \<open>
  \<open>std::map\<close> and \<open>std::set\<close> as the association lists and lists their iterators run over. The
  comparison of the key type is an argument \<open>lt\<close>: it decides where a new key goes and nothing else,
  so no fact below needs to know it. (\<open>acl::string\<close>, the key type of most maps, is not part of the
  repository.)

  The two locales are the interfaces the clients use: what a map promises (\<open>keyed_store\<close>) and what
  follows for a map of maps (\<open>nested_store\<close>, the shape of \<open>installed_routes\<close>). Both are interpreted
  on the operations of this theory.
\<close>

subsection \<open>Maps\<close>

definition map_find :: "('k \<times> 'v) list \<Rightarrow> 'k \<Rightarrow> 'v option" where
  "map_find m k = map_of m k"

fun map_insert_new :: "('k \<Rightarrow> 'k \<Rightarrow> bool) \<Rightarrow> 'k \<Rightarrow> 'v \<Rightarrow> ('k \<times> 'v) list \<Rightarrow> ('k \<times> 'v) list" where
  "map_insert_new lt k v [] = [(k, v)]"
| "map_insert_new lt k v (p # m) =
     (if lt k (fst p) then (k, v) # p # m else p # map_insert_new lt k v m)"

text \<open>\<open>m[k] = v\<close>\<close>

definition map_put :: "('k \<Rightarrow> 'k \<Rightarrow> bool) \<Rightarrow> 'k \<Rightarrow> 'v \<Rightarrow> ('k \<times> 'v) list \<Rightarrow> ('k \<times> 'v) list" where
  "map_put lt k v m =
     (case map_find m k of
        None \<Rightarrow> map_insert_new lt k v m
      | Some _ \<Rightarrow> map (\<lambda>p. if fst p = k then (k, v) else p) m)"

definition map_erase :: "'k \<Rightarrow> ('k \<times> 'v) list \<Rightarrow> ('k \<times> 'v) list" where
  "map_erase k m = filter (\<lambda>p. fst p \<noteq> k) m"

definition map_ok :: "('k \<times> 'v) list \<Rightarrow> bool" where
  "map_ok m \<longleftrightarrow> distinct (map fst m)"

lemma set_map_insert_new: "set (map_insert_new lt k v m) = insert (k, v) (set m)"
  by (induction m) auto

lemma map_of_insert_new: "k \<notin> fst ` set m \<Longrightarrow> map_of (map_insert_new lt k v m) = (map_of m)(k \<mapsto> v)"
  by (induction m) (auto simp: fun_eq_iff)

lemma distinct_insert_new:
  "distinct (map fst m) \<Longrightarrow> k \<notin> fst ` set m \<Longrightarrow> distinct (map fst (map_insert_new lt k v m))"
  by (induction m) (auto simp: set_map_insert_new)

lemma map_find_eq: "map_find m = map_of m"
  by (simp add: map_find_def fun_eq_iff)

lemma map_find_put [lib]: "map_find (map_put lt k v m) = (map_find m)(k \<mapsto> v)"
proof (cases "map_of m k")
  case None
  moreover from None have "k \<notin> fst ` set m" by (simp add: map_of_None_iff)
  ultimately show ?thesis by (simp add: map_put_def map_find_eq map_of_insert_new)
next
  case (Some w)
  then have "k \<in> fst ` set m" by (metis map_of_None_iff option.distinct(1))
  with Some show ?thesis by (simp add: map_put_def map_find_eq map_of_replace_present)
qed

lemma map_find_erase [lib]: "map_find (map_erase k m) = (map_find m)(k := None)"
  by (simp add: map_find_eq map_erase_def map_of_filter_key)

lemma map_ok_put [intro]: "map_ok m \<Longrightarrow> map_ok (map_put lt k v m)"
  unfolding map_ok_def map_put_def map_find_def
  by (auto split: option.splits simp: distinct_insert_new map_of_None_iff)

lemma map_ok_erase [intro]: "map_ok m \<Longrightarrow> map_ok (map_erase k m)"
  unfolding map_ok_def map_erase_def by (rule distinct_fst_filter)

lemma map_ok_Nil [simp]: "map_ok []"
  by (simp add: map_ok_def)

lemma map_find_Nil [lib]: "map_find [] k = None"
  by (simp add: map_find_def)

lemma map_find_mem: "map_find m k = Some v \<Longrightarrow> (k, v) \<in> set m"
  by (simp add: map_find_def map_of_SomeD)

lemma map_find_iff: "map_ok m \<Longrightarrow> map_find m k = Some v \<longleftrightarrow> (k, v) \<in> set m"
  by (simp add: map_find_def map_ok_def map_of_eq_Some_iff_mem)

lemma map_ok_tail: "map_ok (p # m) \<Longrightarrow> map_ok m"
  by (simp add: map_ok_def)

lemma map_put_mem: "(j, w) \<in> set (map_put lt k v m) \<Longrightarrow> (j, w) = (k, v) \<or> (j, w) \<in> set m"
  by (auto simp: map_put_def set_map_insert_new split: option.splits if_splits)

text \<open>A key larger than all present goes to the end: the order the codecs write is the one read.\<close>

lemma map_put_greatest:
  assumes "k \<notin> fst ` set m" and "\<forall>p\<in>set m. \<not> lt k (fst p)"
  shows "map_put lt k v m = m @ [(k, v)]"
proof -
  have "map_insert_new lt k v m = m @ [(k, v)]" using assms(2) by (induction m) auto
  moreover have "map_find m k = None" using assms(1) by (simp add: map_find_def map_of_None_iff)
  ultimately show ?thesis by (simp add: map_put_def)
qed

text \<open>A \<open>std::map\<close> keeps its keys sorted when the comparison is a strict total order.\<close>

definition strict_order :: "('k \<Rightarrow> 'k \<Rightarrow> bool) \<Rightarrow> bool" where
  "strict_order lt \<longleftrightarrow>
     (\<forall>x y. lt x y \<longrightarrow> \<not> lt y x) \<and> (\<forall>x y z. lt x y \<longrightarrow> lt y z \<longrightarrow> lt x z) \<and> (\<forall>x y. x \<noteq> y \<longrightarrow> lt x y \<or> lt y x)"

lemma strict_order_asym:
  assumes "strict_order lt" and "lt x y"
  shows "\<not> lt y x"
proof -
  have *: "\<forall>x y. lt x y \<longrightarrow> \<not> lt y x" 
    using assms(1) unfolding strict_order_def by (elim conjE)
  from * [rule_format, OF assms(2)] show ?thesis .
qed

lemma strict_order_trans:
  assumes "strict_order lt" and "lt x y" and "lt y z"
  shows "lt x z"
proof -
  have *: "\<forall>x y z. lt x y \<longrightarrow> lt y z \<longrightarrow> lt x z" 
    using assms(1) unfolding strict_order_def by (elim conjE)
  from * [rule_format, OF assms(2,3)] show ?thesis .
qed

lemma strict_order_total:
  assumes "strict_order lt" and "x \<noteq> y" and "\<not> lt x y"
  shows "lt y x"
proof -
  have *: "\<forall>x y. x \<noteq> y \<longrightarrow> lt x y \<or> lt y x" 
    using assms(1) unfolding strict_order_def by (elim conjE)
  from * [rule_format, OF assms(2)] assms(3) show ?thesis by simp
qed

definition map_sorted :: "('k \<Rightarrow> 'k \<Rightarrow> bool) \<Rightarrow> ('k \<times> 'v) list \<Rightarrow> bool" where
  "map_sorted lt m \<longleftrightarrow> sorted_wrt lt (map fst m)"

lemma sorted_insert_new:
  assumes "strict_order lt"
  shows "sorted_wrt lt (map fst m) \<Longrightarrow> k \<notin> fst ` set m \<Longrightarrow> sorted_wrt lt (map fst (map_insert_new lt k v m))"
proof (induction m)
  case Nil
  then show ?case by simp
next
  case (Cons p m)
  show ?case
  proof (cases "lt k (fst p)")
    case True
    have "lt k x" if "x \<in> fst ` set m" for x
    proof -
      have "lt (fst p) x" using that Cons.prems(1) by auto
      then show ?thesis by (rule strict_order_trans [OF assms True])
    qed
    with True Cons.prems(1) show ?thesis by simp
  next
    case False
    then have "lt (fst p) k" using Cons.prems(2) by (intro strict_order_total [OF assms]) auto
    with Cons False show ?thesis by (auto simp: set_map_insert_new)
  qed
qed

lemma map_sorted_put [intro]: "strict_order lt \<Longrightarrow> map_sorted lt m \<Longrightarrow> map_sorted lt (map_put lt k v m)"
  unfolding map_sorted_def map_put_def map_find_eq
  by (auto split: option.splits simp: sorted_insert_new map_of_None_iff)

lemma map_sorted_filter: "map_sorted lt m \<Longrightarrow> map_sorted lt (filter P m)"
  unfolding map_sorted_def by (induction m) auto

lemma map_sorted_erase [intro]: "map_sorted lt m \<Longrightarrow> map_sorted lt (map_erase k m)"
  unfolding map_erase_def by (rule map_sorted_filter)

lemma map_sorted_Nil [simp]: "map_sorted lt []"
  by (simp add: map_sorted_def)

subsection \<open>The interface of a map\<close>

locale keyed_store =
  fixes find :: "'m \<Rightarrow> 'k \<Rightarrow> 'v option"
    and put :: "'k \<Rightarrow> 'v \<Rightarrow> 'm \<Rightarrow> 'm"
    and erase :: "'k \<Rightarrow> 'm \<Rightarrow> 'm"
    and ok :: "'m \<Rightarrow> bool"
  assumes find_put: "find (put k v m) = (find m)(k \<mapsto> v)"
    and find_erase: "find (erase k m) = (find m)(k := None)"
    and ok_put: "ok m \<Longrightarrow> ok (put k v m)"
    and ok_erase: "ok m \<Longrightarrow> ok (erase k m)"
begin

lemma find_put_same: "find (put k v m) k = Some v"
  by (simp add: find_put)

lemma find_put_other: "j \<noteq> k \<Longrightarrow> find (put k v m) j = find m j"
  by (simp add: find_put)

lemma find_erase_same: "find (erase k m) k = None"
  by (simp add: find_erase)

lemma overwrite: "find (put k v (put k w m)) = find (put k v m)"
  by (simp add: find_put)

lemma all_put:
  "\<lbrakk>\<And>j w. find m j = Some w \<Longrightarrow> P j w; P k v\<rbrakk> \<Longrightarrow> find (put k v m) j = Some w \<Longrightarrow> P j w"
  by (auto simp: find_put split: if_splits)

end

locale nested_store =
  outer: keyed_store ofind oput oerase ook + inner: keyed_store ifind iput ierase iok
  for ofind :: "'m \<Rightarrow> 'k \<Rightarrow> 'g option"
    and oput :: "'k \<Rightarrow> 'g \<Rightarrow> 'm \<Rightarrow> 'm"
    and oerase :: "'k \<Rightarrow> 'm \<Rightarrow> 'm"
    and ook :: "'m \<Rightarrow> bool"
    and ifind :: "'g \<Rightarrow> 'd \<Rightarrow> 'v option"
    and iput :: "'d \<Rightarrow> 'v \<Rightarrow> 'g \<Rightarrow> 'g"
    and ierase :: "'d \<Rightarrow> 'g \<Rightarrow> 'g"
    and iok :: "'g \<Rightarrow> bool" +
  fixes none :: 'g
  assumes ifind_none: "ifind none d = None"
    and iok_none: "iok none"
begin

lemma nested_put:
  "Option.bind (ofind (oput k (iput d v (case ofind m k of None \<Rightarrow> none | Some g \<Rightarrow> g)) m) k')
     (\<lambda>g. ifind g d') =
   (if k' = k \<and> d' = d then Some v else Option.bind (ofind m k') (\<lambda>g. ifind g d'))"
  by (simp add: outer.find_put inner.find_put ifind_none split: option.splits)

lemma nested_put_ok:
  assumes "ook m" and "\<And>j g. ofind m j = Some g \<Longrightarrow> iok g"
  shows "ook (oput k (iput d v (case ofind m k of None \<Rightarrow> none | Some g \<Rightarrow> g)) m)"
    and "ofind (oput k (iput d v (case ofind m k of None \<Rightarrow> none | Some g \<Rightarrow> g)) m) j = Some g
         \<Longrightarrow> iok g"
  using assms
  by (auto simp: outer.ok_put outer.find_put inner.ok_put iok_none split: option.splits if_splits)

end

interpretation std_map: keyed_store map_find "map_put lt" map_erase map_ok
  by unfold_locales (auto simp: map_find_put map_find_erase)

interpretation std_map2: nested_store
  map_find "map_put lt" map_erase map_ok map_find "map_put lt'" map_erase map_ok "[]"
  by unfold_locales (auto simp: lib)

subsection \<open>Sets\<close>

text \<open>\<open>std::set<std::string>\<close> iterates in the byte-wise lexicographic order.\<close>

fun string_less :: "string \<Rightarrow> string \<Rightarrow> bool" where
  "string_less [] [] = False"
| "string_less [] (d # ds) = True"
| "string_less (c # cs) [] = False"
| "string_less (c # cs) (d # ds) = (byte c < byte d \<or> (c = d \<and> string_less cs ds))"

fun set_insert :: "string \<Rightarrow> string list \<Rightarrow> string list" where
  "set_insert x [] = [x]"
| "set_insert x (y # ys) =
     (if x = y then y # ys else if string_less x y then x # y # ys else y # set_insert x ys)"

lemma set_set_insert [simp]: "set (set_insert x xs) = insert x (set xs)"
  by (induction xs) auto

lemma distinct_set_insert: "x \<notin> set xs \<Longrightarrow> distinct xs \<Longrightarrow> distinct (set_insert x xs)"
  by (induction xs) auto

text \<open>
  The insertion \<open>unique.insert(x).second\<close> with which several handlers drop repeated items while
  keeping the order of first occurrence.
\<close>

fun unique_from :: "'a list \<Rightarrow> 'a list \<Rightarrow> 'a list" where
  "unique_from seen [] = []"
| "unique_from seen (x # xs) =
     (if x \<in> set seen then unique_from seen xs else x # unique_from (x # seen) xs)"

lemma set_unique_from: "set (unique_from seen xs) = set xs - set seen"
  by (induction xs arbitrary: seen) auto

lemma distinct_unique_from: "distinct (unique_from seen xs)"
  by (induction xs arbitrary: seen) (auto simp: set_unique_from)

lemma length_unique_from: "length (unique_from seen xs) \<le> length xs"
  by (induction xs arbitrary: seen) (auto intro: le_SucI)

end
