(* ===== verification/Environment.thy ===== *)
theory Environment
  imports Std_Map "HOL-Library.AList"
begin

text \<open>
  What surrounds the program. The state of the process it shares with the operating system is the
  record \<open>os\<close>: the files, the clock, the state of the kernel's routing socket (opaque), the number
  of open descriptors, and the \<open>script\<close>, the outcomes of the library calls still to come. Each
  fallible call takes the next outcome; an exhausted script means success, so a theorem about every
  state covers every pattern of failures.

  Code that is not in the repository is the record \<open>env\<close>, a parameter of every definition that
  uses it: the ACL library, the address conversions, and what the kernel answers to a request.
\<close>

subsection \<open>State shared with the operating system\<close>

text \<open>
  What a path names. A \<open>Special\<close> node is anything \<open>lstat\<close> does not call a regular file or a
  directory (a symbolic link, say), with the bytes that reading through it gives.
\<close>

datatype fnode = Regular string | Directory | Special string

text \<open>
  Success, or failure with a number: the \<open>errno\<close> of the call, or, for a transfer of data, the
  number of bytes that went through before it stopped.
\<close>

datatype io = Done | Fault nat

record 'k os =
  files :: "(string \<times> fnode) list"
  script :: "io list"
  clock :: int
  kernel :: 'k
  open_fds :: nat

definition next_io :: "('k, 'z) os_scheme \<Rightarrow> io \<times> ('k, 'z) os_scheme" where
  "next_io s = (case script s of [] \<Rightarrow> (Done, s) | x # xs \<Rightarrow> (x, s\<lparr>script := xs\<rparr>))"

abbreviation (input) ENOENT :: nat where "ENOENT \<equiv> 2"

abbreviation (input) EIO :: nat where "EIO \<equiv> 5"

abbreviation (input) EAGAIN :: nat where "EAGAIN \<equiv> 11"

abbreviation (input) EINTR :: nat where "EINTR \<equiv> 4"

abbreviation (input) ENOTDIR :: nat where "ENOTDIR \<equiv> 20"

abbreviation (input) EEXIST :: nat where "EEXIST \<equiv> 17"

abbreviation (input) EISDIR :: nat where "EISDIR \<equiv> 21"

definition file_at :: "('k, 'z) os_scheme \<Rightarrow> string \<Rightarrow> fnode option" where
  "file_at s path = map_of (files s) path"

definition set_file :: "string \<Rightarrow> fnode \<Rightarrow> ('k, 'z) os_scheme \<Rightarrow> ('k, 'z) os_scheme" where
  "set_file path node s = s\<lparr>files := AList.update path node (files s)\<rparr>"

definition del_file :: "string \<Rightarrow> ('k, 'z) os_scheme \<Rightarrow> ('k, 'z) os_scheme" where
  "del_file path s = s\<lparr>files := AList.delete path (files s)\<rparr>"

lemma file_at_set_file [lib]: "file_at (set_file p n s) q = (if q = p then Some n else file_at s q)"
  by (simp add: file_at_def set_file_def update_conv)

lemma file_at_del_file [lib]: "file_at (del_file p s) q = (if q = p then None else file_at s q)"
  by (simp add: file_at_def del_file_def delete_conv)

lemma file_at_script [lib]: "file_at (s\<lparr>script := x\<rparr>) q = file_at s q"
  by (simp add: file_at_def)

subsection \<open>File operations\<close>

text \<open>\<open>std::ofstream (path, out | binary | trunc)\<close>: the file exists and is empty from here on.\<close>

definition open_out :: "string \<Rightarrow> ('k, 'z) os_scheme \<Rightarrow> (nat, unit, ('k, 'z) os_scheme) result" where
  "open_out path s =
     (case next_io s of
        (Fault e, s1) \<Rightarrow> (Inl e, s1)
      | (Done, s1) \<Rightarrow>
          if file_at s1 path = Some Directory then (Inl EISDIR, s1)
          else (Inr (), set_file path (Regular []) s1))"

text \<open>The output statements up to \<open>flush\<close>, and whether the stream is then \<open>good\<close>.\<close>

definition write_out :: "string \<Rightarrow> string \<Rightarrow> ('k, 'z) os_scheme \<Rightarrow> bool \<times> ('k, 'z) os_scheme" where
  "write_out path text s =
     (case next_io s of
        (Fault n, s1) \<Rightarrow> (False, set_file path (Regular (take n text)) s1)
      | (Done, s1) \<Rightarrow> (True, set_file path (Regular text) s1))"

definition rename_file ::
  "string \<Rightarrow> string \<Rightarrow> ('k, 'z) os_scheme \<Rightarrow> (nat, unit, ('k, 'z) os_scheme) result" where
  "rename_file old new s =
     (case next_io s of
        (Fault e, s1) \<Rightarrow> (Inl e, s1)
      | (Done, s1) \<Rightarrow>
          (case file_at s1 old of
             None \<Rightarrow> (Inl ENOENT, s1)
           | Some node \<Rightarrow>
               if file_at s1 new = Some Directory then (Inl EISDIR, s1)
               else (Inr (), set_file new node (del_file old s1))))"

definition unlink_file :: "string \<Rightarrow> ('k, 'z) os_scheme \<Rightarrow> (nat, unit, ('k, 'z) os_scheme) result" where
  "unlink_file path s =
     (case next_io s of
        (Fault e, s1) \<Rightarrow> (Inl e, s1)
      | (Done, s1) \<Rightarrow>
          (case file_at s1 path of
             None \<Rightarrow> (Inl ENOENT, s1)
           | Some Directory \<Rightarrow> (Inl EISDIR, s1)
           | Some _ \<Rightarrow> (Inr (), del_file path s1)))"

text \<open>\<open>std::ifstream\<close>: opening succeeds on whatever exists; reading a directory fails at once.\<close>

definition open_in :: "string \<Rightarrow> ('k, 'z) os_scheme \<Rightarrow> (nat, unit, ('k, 'z) os_scheme) result" where
  "open_in path s =
     (case next_io s of
        (Fault e, s1) \<Rightarrow> (Inl e, s1)
      | (Done, s1) \<Rightarrow> (if file_at s1 path = None then Inl ENOENT else Inr (), s1))"

fun node_text :: "fnode option \<Rightarrow> string option" where
  "node_text (Some (Regular t)) = Some t"
| "node_text (Some (Special t)) = Some t"
| "node_text _ = None"

text \<open>
  Reading the stream to its end with \<open>std::getline\<close>: the lines obtained, and whether the end of
  the file was reached (\<open>eof\<close>) rather than an input error. The line being read when an input error
  strikes is lost.
\<close>

fun terminated_from :: "string \<Rightarrow> string \<Rightarrow> string list" where
  "terminated_from acc [] = []"
| "terminated_from acc (c # cs) =
     (if c = newline then rev acc # terminated_from [] cs else terminated_from (c # acc) cs)"

definition read_lines :: "string \<Rightarrow> ('k, 'z) os_scheme \<Rightarrow> (string list \<times> bool) \<times> ('k, 'z) os_scheme" where
  "read_lines path s =
     (case next_io s of
        (Fault n, s1) \<Rightarrow>
          (case node_text (file_at s1 path) of
             None \<Rightarrow> (([], False), s1)
           | Some t \<Rightarrow> ((terminated_from [] (take n t), False), s1))
      | (Done, s1) \<Rightarrow>
          (case node_text (file_at s1 path) of
             None \<Rightarrow> (([], False), s1)
           | Some t \<Rightarrow> ((getlines t, True), s1)))"

text \<open>Reading the stream buffer to its end: an input error ends it, as the end of the file does.\<close>

definition read_all :: "string \<Rightarrow> ('k, 'z) os_scheme \<Rightarrow> string \<times> ('k, 'z) os_scheme" where
  "read_all path s =
     (case next_io s of
        (x, s1) \<Rightarrow>
          (case node_text (file_at s1 path) of
             None \<Rightarrow> ([], s1)
           | Some t \<Rightarrow> ((case x of Done \<Rightarrow> t | Fault n \<Rightarrow> take n t), s1)))"

subsection \<open>Code outside the repository\<close>

datatype platform = Linux | BSD | Other

text \<open>
  The message written to a \<open>PF_ROUTE\<close> socket, field by field: its layout is the system header's.
\<close>

record pf_message =
  pf_type :: nat
  pf_flags :: nat
  pf_addrs :: nat
  pf_seq :: u32
  pf_dst :: bytes
  pf_gateway :: bytes

text \<open>What the client code of the ACL library makes of a request to another HTTP server.\<close>

datatype upstream = Unreachable string | Response int "string option"

text \<open>
  \<^item> \<open>acl_lower\<close>, \<open>acl_split2\<close>, \<open>acl_url_encode\<close>: methods of \<open>acl::string\<close>; \<open>acl_get\<close>: a \<open>GET\<close> of an
    address, with a timeout, for a URL;
  \<^item> \<open>is_apple\<close>: whether \<open>__APPLE__\<close> is defined; \<open>run_status\<close>: the wait status of a program run with
    these arguments;
  \<^item> \<open>acl_inet_pton\<close>, \<open>inet_pton\<close>, \<open>inet_ntop\<close>: address text to bytes in network order and back;
  \<^item> \<open>acl_less\<close>: the order of \<open>acl::string\<close>, by which its maps iterate;
  \<^item> \<open>nl_serve\<close>: the datagrams the kernel queues as the answer to one \<open>NETLINK_ROUTE\<close> request;
  \<^item> \<open>pf_write\<close>: the errno of a \<open>PF_ROUTE\<close> write, or the bytes written; \<open>pf_size\<close>: the size of the
    message; \<open>pf_dump\<close>: the table \<open>sysctl\<close> copies out; \<open>pf_hdr_rest\<close>: what \<open>struct rt_msghdr\<close> holds
    after its first 16 bytes; \<open>pf_align\<close>: the alignment of the addresses in a dump;
  \<^item> \<open>stray_ack\<close>, \<open>stray_dump\<close>: what a scan makes of memory past the bytes received, should it get
    there (indeterminate in C++, so any value here).
\<close>

record 'k env =
  acl_inet_pton :: "string \<Rightarrow> int"
  inet_pton :: "string \<Rightarrow> bytes option"
  inet_ntop :: "bytes \<Rightarrow> string option"
  acl_less :: "string \<Rightarrow> string \<Rightarrow> bool"
  strerror :: "int \<Rightarrow> string"
  if_indextoname :: "nat \<Rightarrow> string"
  platform_of :: platform
  is_apple :: bool
  acl_lower :: "string \<Rightarrow> string"
  acl_split2 :: "string \<Rightarrow> string \<Rightarrow> string list"
  acl_url_encode :: "string \<Rightarrow> string"
  acl_get :: "string \<Rightarrow> int \<Rightarrow> string \<Rightarrow> 'k \<Rightarrow> upstream"
  run_status :: "string list \<Rightarrow> nat"
  nl_serve :: "bytes \<Rightarrow> 'k \<Rightarrow> bytes list \<times> 'k"
  stray_ack :: "bytes \<Rightarrow> string + unit"
  stray_dump :: "bytes \<Rightarrow> string + (string \<times> string \<times> string) list"
  pf_write :: "pf_message \<Rightarrow> 'k \<Rightarrow> (nat + nat) \<times> 'k"
  pf_size :: nat
  pf_dump :: "'k \<Rightarrow> bytes"
  pf_hdr_rest :: nat
  pf_align :: nat

text \<open>\<open>set_error (error, operation, code)\<close>, the same in both managers.\<close>

definition set_error :: "'k env \<Rightarrow> string \<Rightarrow> int \<Rightarrow> string" where
  "set_error E operation code =
     operation @ '' failed: '' @ strerror E code @ '' (errno='' @ show_int code @ '')''"

subsection \<open>What the operations leave alone\<close>

text \<open>
  A file operation writes \<open>script\<close> and \<open>files\<close> only. The statement is an equation between states,
  so it covers every field, those of the records that extend \<open>os\<close> included.
\<close>

definition file_frame :: "('k, 'z) os_scheme \<Rightarrow> ('k, 'z) os_scheme \<Rightarrow> bool" where
  "file_frame s s' \<longleftrightarrow> s' = s\<lparr>script := script s', files := files s'\<rparr>"

lemma file_frame_refl [frame]: "file_frame s s"
  by (simp add: file_frame_def)

lemma file_frame_trans: "file_frame s t \<Longrightarrow> file_frame t u \<Longrightarrow> file_frame s u"
  unfolding file_frame_def
  by (metis (no_types, lifting) os.ext_inject os.surjective os.update_convs(1) os.update_convs(2))

lemma next_io_cases:
  obtains (plain) "next_io s = (Done, s)" | (taken) x sc where "next_io s = (x, s\<lparr>script := sc\<rparr>)"
  by (cases "script s") (auto simp: next_io_def)

lemma next_io_frame [frame]: "next_io s = (x, s') \<Longrightarrow> file_frame s s'"
  by (rule next_io_cases [of s]) (auto simp: file_frame_def)

lemma next_io_files [frame]: "next_io s = (x, s') \<Longrightarrow> file_at s' p = file_at s p"
  by (rule next_io_cases [of s]) (auto simp: file_at_def)

lemma set_file_frame [frame]: "file_frame s (set_file p n s)" "file_frame s (del_file p s)"
  by (simp_all add: file_frame_def set_file_def del_file_def)

lemma open_out_frame [frame]: "open_out p s = (r, s') \<Longrightarrow> file_frame s s'"
  by (auto simp: open_out_def split: prod.splits io.splits if_splits
      intro: next_io_frame file_frame_trans [OF next_io_frame set_file_frame(1)])

lemma write_out_frame [frame]: "write_out p t s = (r, s') \<Longrightarrow> file_frame s s'"
  by (auto simp: write_out_def split: prod.splits io.splits
      intro: file_frame_trans [OF next_io_frame set_file_frame(1)])

lemma rename_file_frame [frame]: "rename_file p q s = (r, s') \<Longrightarrow> file_frame s s'"
  by (auto simp: rename_file_def split: prod.splits io.splits option.splits if_splits
      intro: next_io_frame file_frame_trans [OF file_frame_trans [OF next_io_frame set_file_frame(2)]
        set_file_frame(1)])

lemma unlink_file_frame [frame]: "unlink_file p s = (r, s') \<Longrightarrow> file_frame s s'"
  by (auto simp: unlink_file_def split: prod.splits io.splits option.splits fnode.splits
      intro: next_io_frame file_frame_trans [OF next_io_frame set_file_frame(2)])

lemma open_in_frame [frame]: "open_in p s = (r, s') \<Longrightarrow> file_frame s s' \<and> files s' = files s"
  by (rule next_io_cases [of s])
    (auto simp: open_in_def file_frame_def split: io.splits if_splits)

lemma read_lines_frame [frame]: "read_lines p s = (r, s') \<Longrightarrow> file_frame s s' \<and> files s' = files s"
  by (rule next_io_cases [of s])
    (auto simp: read_lines_def file_frame_def split: io.splits option.splits)

text \<open>The form in which the frame is used: the later state is the earlier one with new values there.\<close>

lemma file_frameE [elim]:
  assumes "file_frame s s'"
  obtains sc fs where "s' = s\<lparr>script := sc, files := fs\<rparr>"
  using assms unfolding file_frame_def by blast

subsection \<open>Calls that succeed\<close>

lemma next_io_not_fault:
  assumes "next_io s = (x, s')" and "Fault e \<notin> set (script s)"
  shows "x \<noteq> Fault e \<and> Fault e \<notin> set (script s')"
  using assms by (cases "script s") (auto simp: next_io_def)

lemma open_in_present:
  assumes "open_in p s = (r, s')" and "Fault ENOENT \<notin> set (script s)" and "file_at s p \<noteq> None"
  shows "r \<noteq> Inl ENOENT"
  using assms by (auto simp: open_in_def next_io_files dest!: next_io_not_fault split: prod.splits io.splits if_splits)

lemma read_lines_complete:
  assumes "read_lines p s = ((ls, True), s')" and "file_at s p = Some (Regular t)"
  shows "ls = getlines t"
  using assms by (auto simp: read_lines_def next_io_files split: prod.splits io.splits option.splits)

subsection \<open>Replacing a file\<close>

text \<open>
  Both managers replace a file through a temporary one, and what the readers of the file rely on is
  the same: nothing but the temporary file changes until the rename, and the rename puts the whole
  new text there.
\<close>

definition replaces ::
  "string \<Rightarrow> string \<Rightarrow> string \<Rightarrow> bool \<Rightarrow> ('k, 'z) os_scheme \<Rightarrow> ('k, 'z) os_scheme \<Rightarrow> bool" where
  "replaces tmp path contents success s s' \<longleftrightarrow>
     file_frame s s' \<and>
     (\<forall>p. p \<noteq> tmp \<and> p \<noteq> path \<longrightarrow> file_at s' p = file_at s p) \<and>
     (if success then file_at s' path = Some (Regular contents) else file_at s' path = file_at s path)"

lemma open_out_result:
  assumes "open_out p s = (r, s')"
  shows "\<forall>q. q \<noteq> p \<longrightarrow> file_at s' q = file_at s q"
    and "r = Inr u \<Longrightarrow> file_at s' p = Some (Regular [])"
  using assms
  by (auto simp: open_out_def file_at_set_file next_io_files split: prod.splits io.splits if_splits)

lemma write_out_result:
  assumes "write_out p t s = (r, s')"
  shows "\<forall>q. q \<noteq> p \<longrightarrow> file_at s' q = file_at s q"
    and "r \<Longrightarrow> file_at s' p = Some (Regular t)"
  using assms
  by (auto simp: write_out_def file_at_set_file next_io_files split: prod.splits io.splits)

lemma rename_file_result:
  assumes "rename_file p q s = (r, s')"
  shows "r = Inl e \<Longrightarrow> file_at s' x = file_at s x"
    and "r = Inr u \<Longrightarrow> x \<noteq> p \<Longrightarrow> file_at s' x = (if x = q then file_at s p else file_at s x)"
    and "r = Inr u \<Longrightarrow> file_at s' q = file_at s p"
  using assms
  by (auto simp: rename_file_def file_at_set_file file_at_del_file next_io_files
      split: prod.splits io.splits option.splits if_splits)

lemma unlink_file_result: "q \<noteq> p \<Longrightarrow> file_at (snd (unlink_file p s)) q = file_at s q"
  by (rule next_io_cases [of s])
    (auto simp: unlink_file_def file_at_del_file file_at_script split: io.splits option.splits fnode.splits)

lemma unlink_file_done:
  "unlink_file p s = (Inr u, s') \<Longrightarrow> file_at s' q = (if q = p then None else file_at s q)"
  by (rule next_io_cases [of s])
    (auto simp: unlink_file_def file_at_del_file file_at_script split: io.splits option.splits fnode.splits)

lemma unlink_file_failed: "unlink_file p s = (r, s') \<Longrightarrow> \<not> succeeds r \<Longrightarrow> files s' = files s"
  by (rule next_io_cases [of s])
    (auto simp: unlink_file_def split: io.splits option.splits fnode.splits)

end
