(* ===== verification/Netlink.thy ===== *)
theory Netlink
  imports Environment
begin

text \<open>
  The Linux half of the system route operations (\<open>route_manager.cpp\<close>, the \<open>__linux__\<close> branch):
  the request built byte by byte with \<open>add_attribute\<close>, the acknowledgement scan of
  \<open>change_route\<close>, and the dump parser of \<open>list_system_routes\<close> with its attribute loop. Multi-byte
  header fields are little-endian (the byte order of the machines the packages are built for); an
  \<open>in_addr\<close> is four bytes in network order.

  A read past the bytes received has no value in C++. The scans return \<open>Overrun\<close> there, and
  \<open>change_route\<close> and \<open>list_system_routes\<close> take their result from the environment in that case.
\<close>

subsection \<open>Fields in a buffer\<close>

fun put_le :: "nat \<Rightarrow> nat \<Rightarrow> bytes" where
  "put_le 0 v = []"
| "put_le (Suc n) v = word_of_nat v # put_le n (v div 256)"

fun le_value :: "bytes \<Rightarrow> nat" where
  "le_value [] = 0"
| "le_value (b # bs) = unat b + 256 * le_value bs"

definition put_bytes :: "nat \<Rightarrow> bytes \<Rightarrow> bytes \<Rightarrow> bytes" where
  "put_bytes off bs buf = take off buf @ bs @ drop (off + length bs) buf"

definition get_bytes :: "bytes \<Rightarrow> nat \<Rightarrow> nat \<Rightarrow> bytes option" where
  "get_bytes buf off n = (if off + n \<le> length buf then Some (take n (drop off buf)) else None)"

definition get_field :: "bytes \<Rightarrow> nat \<Rightarrow> nat \<Rightarrow> nat option" where
  "get_field buf off n = map_option le_value (get_bytes buf off n)"

text \<open>The sign of a 32-bit field, as \<open>nlmsgerr.error\<close> is read.\<close>

definition signed32 :: "nat \<Rightarrow> int" where
  "signed32 n = (if n < 2 ^ 31 then int n else int n - 2 ^ 32)"

lemma length_put_le [simp]: "length (put_le n v) = n"
  by (induction n arbitrary: v) auto

lemma le_value_put_le [lib]: "le_value (put_le n v) = v mod 256 ^ n"
proof (induction n arbitrary: v)
  case 0
  then show ?case by simp
next
  case (Suc n)
  have "v mod 256 ^ Suc n = v mod 256 + 256 * (v div 256 mod 256 ^ n)"
    by (metis mod_mult2_eq mult.commute power_Suc add.commute)
  then show ?case by (simp add: Suc unat_of_nat)
qed

lemma le_value_bound: "le_value bs < 256 ^ length bs"
proof (induction bs)
  case Nil
  then show ?case by simp
next
  case (Cons b bs)
  have "unat b < 2 ^ LENGTH(8)" by (rule unsigned_less)
  moreover have "256 * le_value bs + 256 \<le> 256 * 256 ^ length bs" using Cons by simp
  ultimately show ?case by simp
qed

lemma length_put_bytes: "off + length bs \<le> length buf \<Longrightarrow> length (put_bytes off bs buf) = length buf"
  by (simp add: put_bytes_def)

lemma get_put_bytes_same:
  "off + length bs \<le> length buf \<Longrightarrow> get_bytes (put_bytes off bs buf) off (length bs) = Some bs"
  by (simp add: get_bytes_def put_bytes_def)

lemma take_drop_put_bytes:
  assumes "off + length bs \<le> length buf" and "i + n \<le> off \<or> off + length bs \<le> i"
  shows "take n (drop i (put_bytes off bs buf)) = take n (drop i buf)"
  using assms by (intro nth_equalityI) (auto simp: put_bytes_def nth_append)

lemma get_put_bytes_other:
  assumes "off + length bs \<le> length buf" and "i + n \<le> off \<or> off + length bs \<le> i"
  shows "get_bytes (put_bytes off bs buf) i n = get_bytes buf i n"
  using assms take_drop_put_bytes [OF assms] by (simp add: get_bytes_def length_put_bytes)

subsection \<open>Building a request\<close>

abbreviation (input) RTM_NEWROUTE :: nat where "RTM_NEWROUTE \<equiv> 24"

abbreviation (input) RTM_DELROUTE :: nat where "RTM_DELROUTE \<equiv> 25"

abbreviation (input) RTM_GETROUTE :: nat where "RTM_GETROUTE \<equiv> 26"

abbreviation (input) NLMSG_ERROR :: nat where "NLMSG_ERROR \<equiv> 2"

abbreviation (input) NLMSG_DONE :: nat where "NLMSG_DONE \<equiv> 3"

abbreviation (input) RTA_DST :: nat where "RTA_DST \<equiv> 1"

abbreviation (input) RTA_OIF :: nat where "RTA_OIF \<equiv> 4"

abbreviation (input) RTA_GATEWAY :: nat where "RTA_GATEWAY \<equiv> 5"

abbreviation (input) RTA_TABLE :: nat where "RTA_TABLE \<equiv> 15"

abbreviation (input) AF_INET :: nat where "AF_INET \<equiv> 2"

abbreviation (input) RT_TABLE_MAIN :: nat where "RT_TABLE_MAIN \<equiv> 254"

abbreviation (input) RTPROT_STATIC :: nat where "RTPROT_STATIC \<equiv> 4"

abbreviation (input) RTN_UNICAST :: nat where "RTN_UNICAST \<equiv> 1"

text \<open>\<open>NLMSG_ALIGN\<close> and \<open>RTA_ALIGN\<close>: up to a multiple of four.\<close>

definition align4 :: "nat \<Rightarrow> nat" where
  "align4 n = (n + 3) div 4 * 4"

text \<open>\<open>sizeof (struct nlmsghdr)\<close>, \<open>NLMSG_LENGTH (sizeof (struct rtmsg))\<close>, \<open>sizeof (request)\<close>\<close>

abbreviation (input) NLMSG_HDRLEN :: nat where "NLMSG_HDRLEN \<equiv> 16"

abbreviation (input) ROUTE_LENGTH :: nat where "ROUTE_LENGTH \<equiv> 28"

abbreviation (input) REQUEST_SIZE :: nat where "REQUEST_SIZE \<equiv> 156"

definition nlmsg_len :: "bytes \<Rightarrow> nat" where
  "nlmsg_len buf = le_value (take 4 buf)"

definition add_attribute :: "bytes \<Rightarrow> nat \<Rightarrow> nat \<Rightarrow> bytes \<Rightarrow> bytes option" where
  "add_attribute buf capacity ty data =
     (let attribute_length = 4 + length data;
          message_length = align4 (nlmsg_len buf) in
      if message_length + align4 attribute_length > capacity then None
      else
        let buf1 = put_bytes (message_length + 2) (put_le 2 ty) buf;
            buf2 = put_bytes message_length (put_le 2 attribute_length) buf1;
            buf3 = put_bytes (message_length + 4) data buf2
        in Some (put_bytes 0 (put_le 4 (message_length + align4 attribute_length)) buf3))"

text \<open>The header and \<open>rtmsg\<close> of \<open>change_route\<close>'s request, in a zeroed buffer.\<close>

definition change_request :: "nat \<Rightarrow> u32 \<Rightarrow> bytes" where
  "change_request command sequence =
     (put_le 4 ROUTE_LENGTH @ put_le 2 command
        @ put_le 2 (if command = RTM_NEWROUTE then 1 + 4 + 1024 + 256 else 1 + 4)
        @ put_le 4 (unat sequence) @ put_le 4 0
        @ [word_of_nat AF_INET, 32, 0, 0, word_of_nat RT_TABLE_MAIN, word_of_nat RTPROT_STATIC, 0,
           word_of_nat RTN_UNICAST, 0, 0, 0, 0])
      @ replicate 128 0"

text \<open>Both attributes; the bytes passed to \<open>sendto\<close> are the first \<open>nlmsg_len\<close> of the buffer.\<close>

definition route_message :: "nat \<Rightarrow> u32 \<Rightarrow> bytes \<Rightarrow> bytes \<Rightarrow> bytes option" where
  "route_message command sequence dst gw =
     (case add_attribute (change_request command sequence) REQUEST_SIZE RTA_DST dst of
        None \<Rightarrow> None
      | Some buf \<Rightarrow>
          (case add_attribute buf REQUEST_SIZE RTA_GATEWAY gw of
             None \<Rightarrow> None
           | Some buf' \<Rightarrow> Some (take (nlmsg_len buf') buf')))"

subsection \<open>The acknowledgement scan\<close>

datatype ack = Ack int | No_ack | Ack_overrun

text \<open>
  The loop over the response. \<open>len\<close> is the \<open>ssize_t\<close> the loop decrements; \<open>NLMSG_OK\<close> sees it
  converted to \<open>unsigned int\<close>, as the call casts it.
\<close>

function ack_scan :: "nat \<Rightarrow> bytes \<Rightarrow> nat \<Rightarrow> int \<Rightarrow> ack" where
  "ack_scan sequence buf off len =
     (let ulen = nat (len mod 2 ^ 32) in
      if ulen < NLMSG_HDRLEN then No_ack
      else case get_field buf off 4 of
        None \<Rightarrow> Ack_overrun
      | Some n \<Rightarrow>
          if n < NLMSG_HDRLEN \<or> ulen < n then No_ack
          else case (get_field buf (off + 8) 4, get_field buf (off + 4) 2) of
            (Some sq, Some ty) \<Rightarrow>
              if sq \<noteq> sequence \<or> ty \<noteq> NLMSG_ERROR
              then ack_scan sequence buf (off + align4 n) (len - int (align4 n))
              else (case get_field buf (off + 16) 4 of
                      None \<Rightarrow> Ack_overrun
                    | Some e \<Rightarrow> Ack (signed32 e))
          | _ \<Rightarrow> Ack_overrun)"
  by pat_completeness auto
termination
proof (relation "measure (\<lambda>(sequence, buf, off, len). length buf - off)", goal_cases)
  case 1
  then show ?case by simp
next
  case (2 sequence buf off len ulen n p sq ty)
  then have "off < length buf" and "0 < align4 n"
    by (auto simp: get_field_def get_bytes_def align4_def split: if_splits)
  then show ?case by simp
qed

declare ack_scan.simps [simp del]

subsection \<open>Changing a route\<close>

text \<open>The route manager's request counter extends the state.\<close>

record 'k net = "'k os" +
  route_sequence :: u32

type_synonym ('k, 'z) net_s = "('k, 'z) net_scheme"

definition next_sequence :: "('k, 'z) net_s \<Rightarrow> u32 \<times> ('k, 'z) net_s" where
  "next_sequence s = (route_sequence s + 1, s\<lparr>route_sequence := route_sequence s + 1\<rparr>)"

definition open_fd :: "('k, 'z) os_scheme \<Rightarrow> (nat, unit, ('k, 'z) os_scheme) result" where
  "open_fd s =
     (case next_io s of
        (Fault e, s1) \<Rightarrow> (Inl e, s1)
      | (Done, s1) \<Rightarrow> (Inr (), s1\<lparr>open_fds := open_fds s1 + 1\<rparr>))"

definition close_fd :: "('k, 'z) os_scheme \<Rightarrow> ('k, 'z) os_scheme" where
  "close_fd s = s\<lparr>open_fds := open_fds s - 1\<rparr>"

text \<open>
  \<open>socket\<close> and \<open>bind\<close>, the same in both operations; the name that goes into the error is that of
  the call. On failure of \<open>bind\<close> the descriptor is closed.
\<close>

definition nl_open :: "'k env \<Rightarrow> ('k, 'z) os_scheme \<Rightarrow> (string, unit, ('k, 'z) os_scheme) result" where
  "nl_open E s =
     (case open_fd s of
        (Inl e, s1) \<Rightarrow> (Inl (set_error E ''open NETLINK_ROUTE socket'' (int e)), s1)
      | (Inr _, s1) \<Rightarrow>
          (case next_io s1 of
             (Fault e, s2) \<Rightarrow> (Inl (set_error E ''bind NETLINK_ROUTE socket'' (int e)), close_fd s2)
           | (Done, s2) \<Rightarrow> (Inr (), s2)))"

text \<open>\<open>sendto\<close>: the kernel serves the request; its answer is the list of datagrams to receive.\<close>

definition nl_send :: "'k env \<Rightarrow> bytes \<Rightarrow> ('k, 'z) os_scheme \<Rightarrow> (nat, bytes list, ('k, 'z) os_scheme) result" where
  "nl_send E msg s =
     (case next_io s of
        (Fault e, s1) \<Rightarrow> (Inl e, s1)
      | (Done, s1) \<Rightarrow>
          (let (replies, k) = nl_serve E msg (kernel s1) in (Inr replies, s1\<lparr>kernel := k\<rparr>)))"

text \<open>
  \<open>recv\<close> into a buffer of the given size. With nothing queued the call ends in \<open>EAGAIN\<close>, as the
  comment at the \<open>PF_ROUTE\<close> write says of a socket under ACL's fibers.
\<close>

definition nl_recv ::
  "nat \<Rightarrow> bytes list \<Rightarrow> ('k, 'z) os_scheme \<Rightarrow> (nat, bytes \<times> bytes list, ('k, 'z) os_scheme) result" where
  "nl_recv capacity replies s =
     (case next_io s of
        (Fault e, s1) \<Rightarrow> (Inl e, s1)
      | (Done, s1) \<Rightarrow>
          (case replies of
             [] \<Rightarrow> (Inl EAGAIN, s1)
           | d # ds \<Rightarrow> (Inr (take capacity d, ds), s1)))"

definition ack_result :: "'k env \<Rightarrow> bytes \<Rightarrow> ack \<Rightarrow> string + unit" where
  "ack_result E buf a =
     (case a of
        Ack e \<Rightarrow> if e = 0 then Inr () else Inl (set_error E ''change route'' (- e))
      | No_ack \<Rightarrow> Inl ''NETLINK_ROUTE returned no acknowledgement''
      | Ack_overrun \<Rightarrow> stray_ack E buf)"

definition change_route_linux ::
  "'k env \<Rightarrow> nat \<Rightarrow> string \<Rightarrow> string \<Rightarrow> ('k, 'z) net_s \<Rightarrow> (string, unit, ('k, 'z) net_s) result" where
  "change_route_linux E command destination gateway s =
     (let (sequence, s0) = next_sequence s in
      case (inet_pton E destination, inet_pton E gateway) of
        (Some dst, Some gw) \<Rightarrow>
          (case nl_open E s0 of
             (Inl e, s1) \<Rightarrow> (Inl e, s1)
           | (Inr _, s1) \<Rightarrow>
               (case route_message command sequence dst gw of
                  None \<Rightarrow> (Inl ''route message is too large'', close_fd s1)
                | Some msg \<Rightarrow>
                    (case nl_send E msg s1 of
                       (Inl e, s2) \<Rightarrow> (Inl (set_error E ''send route request'' (int e)), close_fd s2)
                     | (Inr replies, s2) \<Rightarrow>
                         (case nl_recv 4096 replies s2 of
                            (Inl e, s3) \<Rightarrow>
                              (Inl (set_error E ''receive route response'' (int e)), close_fd s3)
                          | (Inr (response, _), s3) \<Rightarrow>
                              (ack_result E response
                                 (ack_scan (unat sequence) response 0 (int (length response))),
                               close_fd s3)))))
      | _ \<Rightarrow> (Inl ''invalid IPv4 address'', s0))"

subsection \<open>Dumping the route table\<close>

record system_route_entry =
  sr_ip :: string
  sr_gateway :: string
  sr_interface :: string

text \<open>The variables the attribute loop fills.\<close>

record attributes =
  at_dst :: "bytes option"
  at_gateway :: "bytes option"
  at_oif :: nat
  at_table :: nat

text \<open>One turn of the \<open>switch\<close>; \<open>data\<close> is the payload of the attribute.\<close>

definition take_attribute :: "nat \<Rightarrow> bytes \<Rightarrow> attributes \<Rightarrow> attributes" where
  "take_attribute ty data a =
     (if length data < 4 then a
      else if ty = RTA_DST then a\<lparr>at_dst := Some (take 4 data)\<rparr>
      else if ty = RTA_GATEWAY then a\<lparr>at_gateway := Some (take 4 data)\<rparr>
      else if ty = RTA_OIF then a\<lparr>at_oif := le_value (take 4 data)\<rparr>
      else if ty = RTA_TABLE then a\<lparr>at_table := le_value (take 4 data)\<rparr>
      else a)"

text \<open>The loop over \<open>RTA_OK\<close>/\<open>RTA_NEXT\<close>; \<open>None\<close> is a read past the buffer.\<close>

function attribute_loop :: "bytes \<Rightarrow> nat \<Rightarrow> int \<Rightarrow> attributes \<Rightarrow> attributes option" where
  "attribute_loop buf off len a =
     (if len < 4 then Some a
      else case (get_field buf off 2, get_field buf (off + 2) 2) of
        (Some n, Some ty) \<Rightarrow>
          if n < 4 \<or> len < int n then Some a
          else (case get_bytes buf (off + 4) (n - 4) of
                  None \<Rightarrow> None
                | Some data \<Rightarrow>
                    attribute_loop buf (off + align4 n) (len - int (align4 n)) (take_attribute ty data a))
      | _ \<Rightarrow> None)"
  by pat_completeness auto
termination
proof (relation "measure (\<lambda>(buf, off, len, a). length buf - off)", goal_cases)
  case 1
  then show ?case by simp
qed (auto simp: get_field_def get_bytes_def align4_def split: if_splits)

declare attribute_loop.simps [simp del]

datatype dump_step =
  Dump_more "system_route_entry list"
| Dump_done "system_route_entry list"
| Dump_error int
| Dump_overrun

text \<open>
  What one \<open>RTM_NEWROUTE\<close> message at \<open>off\<close> of length \<open>n\<close> adds to the list. The payload length is
  \<open>RTM_PAYLOAD\<close> read as an \<open>int\<close>.
\<close>

definition dump_message :: "'k env \<Rightarrow> bytes \<Rightarrow> nat \<Rightarrow> nat \<Rightarrow> system_route_entry list option" where
  "dump_message E buf off n =
     (case get_bytes buf (off + 16) 12 of
        None \<Rightarrow> None
      | Some route \<Rightarrow>
          if unat (route ! 0) \<noteq> AF_INET \<or> unat (route ! 1) \<noteq> 32
             \<or> unat (route ! 5) \<noteq> RTPROT_STATIC \<or> unat (route ! 7) \<noteq> RTN_UNICAST
          then Some []
          else
            (case attribute_loop buf (off + ROUTE_LENGTH) (int n - int ROUTE_LENGTH)
                    \<lparr>at_dst = None, at_gateway = None, at_oif = 0, at_table = unat (route ! 4)\<rparr> of
               None \<Rightarrow> None
             | Some a \<Rightarrow>
                 (case (at_dst a, at_gateway a) of
                    (Some dst, Some gw) \<Rightarrow>
                      if at_table a \<noteq> RT_TABLE_MAIN then Some []
                      else (case (inet_ntop E dst, inet_ntop E gw) of
                              (Some d, Some g) \<Rightarrow>
                                Some [\<lparr>sr_ip = d, sr_gateway = g,
                                       sr_interface =
                                         (if at_oif a > 0 then if_indextoname E (at_oif a) else [])\<rparr>]
                            | _ \<Rightarrow> Some [])
                  | _ \<Rightarrow> Some [])))"

text \<open>The loop over one received datagram; here \<open>NLMSG_OK\<close> sees the signed \<open>remaining\<close>.\<close>

function dump_scan ::
  "'k env \<Rightarrow> nat \<Rightarrow> bytes \<Rightarrow> nat \<Rightarrow> int \<Rightarrow> system_route_entry list \<Rightarrow> dump_step" where
  "dump_scan E sequence buf off remaining routes =
     (if remaining < int NLMSG_HDRLEN then Dump_more routes
      else case (get_field buf off 4, get_field buf (off + 4) 2, get_field buf (off + 8) 4) of
        (Some n, Some ty, Some sq) \<Rightarrow>
          if n < NLMSG_HDRLEN \<or> remaining < int n then Dump_more routes
          else if sq \<noteq> sequence
          then dump_scan E sequence buf (off + align4 n) (remaining - int (align4 n)) routes
          else if ty = NLMSG_DONE then Dump_done routes
          else if ty = NLMSG_ERROR then
            (case get_field buf (off + 16) 4 of
               None \<Rightarrow> Dump_overrun
             | Some e \<Rightarrow> Dump_error (if signed32 e = 0 then int EIO else - signed32 e))
          else if ty \<noteq> RTM_NEWROUTE
          then dump_scan E sequence buf (off + align4 n) (remaining - int (align4 n)) routes
          else
            (case dump_message E buf off n of
               None \<Rightarrow> Dump_overrun
             | Some new \<Rightarrow>
                 dump_scan E sequence buf (off + align4 n) (remaining - int (align4 n)) (routes @ new))
      | _ \<Rightarrow> Dump_overrun)"
  by pat_completeness auto
termination
proof (relation "measure (\<lambda>(E, sequence, buf, off, remaining, routes). length buf - off)", goal_cases)
  case 1
  then show ?case by simp
qed (auto simp: get_field_def get_bytes_def align4_def split: if_splits)

declare dump_scan.simps [simp del]

text \<open>
  The \<open>while (!done)\<close> loop over the queued datagrams. On an empty queue \<open>nl_recv\<close> never returns a
  datagram, so the last branch of the first equation is not taken.
\<close>

fun dump_receive ::
  "'k env \<Rightarrow> nat \<Rightarrow> bytes list \<Rightarrow> system_route_entry list \<Rightarrow> ('k, 'z) os_scheme
     \<Rightarrow> (string, system_route_entry list, ('k, 'z) os_scheme) result" where
  "dump_receive E sequence [] routes s =
     (case nl_recv 16384 [] s of
        (Inl e, s1) \<Rightarrow> (Inl (set_error E ''receive system route dump'' (int e)), s1)
      | (Inr _, s1) \<Rightarrow> (Inr routes, s1))"
| "dump_receive E sequence (d # ds) routes s =
     (case nl_recv 16384 (d # ds) s of
        (Inl e, s1) \<Rightarrow> (Inl (set_error E ''receive system route dump'' (int e)), s1)
      | (Inr (response, _), s1) \<Rightarrow>
          (case dump_scan E sequence response 0 (int (length response)) routes of
             Dump_more found \<Rightarrow> dump_receive E sequence ds found s1
           | Dump_done all_routes \<Rightarrow> (Inr all_routes, s1)
           | Dump_error e \<Rightarrow> (Inl (set_error E ''dump system routes'' e), s1)
           | Dump_overrun \<Rightarrow>
               (map_sum id (map (\<lambda>(i, g, d). \<lparr>sr_ip = i, sr_gateway = g, sr_interface = d\<rparr>))
                  (stray_dump E response), s1)))"

definition dump_request :: "u32 \<Rightarrow> bytes" where
  "dump_request sequence =
     put_le 4 ROUTE_LENGTH @ put_le 2 RTM_GETROUTE @ put_le 2 (1 + 768)
       @ put_le 4 (unat sequence) @ put_le 4 0 @ word_of_nat AF_INET # replicate 11 0"

definition list_system_routes_linux ::
  "'k env \<Rightarrow> ('k, 'z) net_s \<Rightarrow> (string, system_route_entry list, ('k, 'z) net_s) result" where
  "list_system_routes_linux E s =
     (let (sequence, s0) = next_sequence s in
      case nl_open E s0 of
        (Inl e, s1) \<Rightarrow> (Inl e, s1)
      | (Inr _, s1) \<Rightarrow>
          (case nl_send E (dump_request sequence) s1 of
             (Inl e, s2) \<Rightarrow> (Inl (set_error E ''request system route dump'' (int e)), close_fd s2)
           | (Inr replies, s2) \<Rightarrow>
               (case dump_receive E (unat sequence) replies [] s2 of
                  (r, s3) \<Rightarrow> (r, close_fd s3))))"

subsection \<open>What the operations leave alone\<close>

text \<open>
  A route operation writes \<open>script\<close>, \<open>kernel\<close> and the request counter: no file, no clock, and the
  number of open descriptors is back to what it was on every path.
\<close>

definition net_frame :: "('k, 'z) net_s \<Rightarrow> ('k, 'z) net_s \<Rightarrow> bool" where
  "net_frame s s' \<longleftrightarrow>
     s' = s\<lparr>script := script s', kernel := kernel s', route_sequence := route_sequence s'\<rparr>"

definition fd_frame :: "nat \<Rightarrow> ('k, 'z) net_s \<Rightarrow> ('k, 'z) net_s \<Rightarrow> bool" where
  "fd_frame d s s' \<longleftrightarrow>
     s' = s\<lparr>script := script s', kernel := kernel s', route_sequence := route_sequence s',
           open_fds := open_fds s + d\<rparr>"

lemma next_io_fd_frame: "next_io s = (x, s') \<Longrightarrow> fd_frame 0 s s'"
  by (rule next_io_cases [of s]) (auto simp: fd_frame_def)

lemma fd_frame_refl: "fd_frame 0 s s"
  by (simp add: fd_frame_def)

lemma fd_frame_trans:
  assumes "fd_frame d s t" and "fd_frame e t u"
  shows "fd_frame (d + e) s u"
proof -
  obtain sc k q where t: "t = s\<lparr>script := sc, kernel := k, route_sequence := q, open_fds := open_fds s + d\<rparr>"
    using assms(1) unfolding fd_frame_def by blast
  have "u = t\<lparr>script := script u, kernel := kernel u, route_sequence := route_sequence u,
              open_fds := open_fds t + e\<rparr>"
    using assms(2) unfolding fd_frame_def .
  then have "u = s\<lparr>script := script u, kernel := kernel u, route_sequence := route_sequence u,
              open_fds := open_fds s + d + e\<rparr>"
    unfolding t by simp
  then show ?thesis unfolding fd_frame_def by (simp add: add.assoc)
qed

lemma fd_frame_step: "fd_frame d s t \<Longrightarrow> fd_frame 0 t u \<Longrightarrow> fd_frame d s u"
  using fd_frame_trans [of d s t 0 u] by simp

lemma fd_frame_pre: "fd_frame 0 s t \<Longrightarrow> fd_frame d t u \<Longrightarrow> fd_frame d s u"
  using fd_frame_trans [of 0 s t d u] by simp

lemma fd_frame_close: "fd_frame (Suc 0) s t \<Longrightarrow> fd_frame 0 s (close_fd t)"
proof -
  assume "fd_frame (Suc 0) s t"
  then obtain sc k q where t: "t = s\<lparr>script := sc, kernel := k, route_sequence := q, open_fds := open_fds s + Suc 0\<rparr>"
    unfolding fd_frame_def by blast
  show ?thesis unfolding fd_frame_def close_fd_def t by simp
qed

lemma open_fd_frame: "open_fd s = (r, s') \<Longrightarrow> fd_frame (case r of Inl _ \<Rightarrow> 0 | Inr _ \<Rightarrow> 1) s s'"
  by (rule next_io_cases [of s]) (auto simp: open_fd_def fd_frame_def split: io.splits)

lemma nl_open_frame: "nl_open E s = (r, s') \<Longrightarrow> fd_frame (case r of Inl _ \<Rightarrow> 0 | Inr _ \<Rightarrow> 1) s s'"
  by (auto simp: nl_open_def split: prod.splits io.splits sum.splits
      dest!: open_fd_frame next_io_fd_frame
      intro: fd_frame_step fd_frame_close [OF fd_frame_step])

lemma nl_send_frame: "nl_send E m s = (r, s') \<Longrightarrow> fd_frame 0 s s'"
  by (rule next_io_cases [of s]) (auto simp: nl_send_def fd_frame_def split: io.splits prod.splits)

lemma nl_recv_frame: "nl_recv n ds s = (r, s') \<Longrightarrow> fd_frame 0 s s'"
  by (rule next_io_cases [of s]) (auto simp: nl_recv_def fd_frame_def split: io.splits list.splits)

lemma next_sequence_frame: "next_sequence s = (q, s') \<Longrightarrow> fd_frame 0 s s'"
  by (auto simp: next_sequence_def fd_frame_def)

lemma dump_receive_frame: "dump_receive E q ds rs s = (r, s') \<Longrightarrow> fd_frame 0 s s'"
proof (induction E q ds rs s arbitrary: r s' rule: dump_receive.induct)
  case (1 E q rs s)
  then show ?case by (auto split: prod.splits sum.splits dest: nl_recv_frame)
next
  case (2 E q d ds rs s)
  obtain x s1 where x: "nl_recv 16384 (d # ds) s = (x, s1)" by fastforce
  then have step: "fd_frame 0 s s1" by (rule nl_recv_frame)
  show ?case
  proof (cases x)
    case (Inl e)
    with 2 x step show ?thesis by auto
  next
    case (Inr y)
    obtain resp ds' where y: "y = (resp, ds')" by fastforce
    show ?thesis
      using 2 x step fd_frame_trans [of 0 s s1 0]
      by (auto simp: Inr y split: dump_step.splits)
  qed
qed

lemma net_frame_iff: "net_frame s s' \<longleftrightarrow> fd_frame 0 s s'"
proof
  assume "net_frame s s'"
  then obtain sc k q where "s' = s\<lparr>script := sc, kernel := k, route_sequence := q\<rparr>"
    unfolding net_frame_def by blast
  then show "fd_frame 0 s s'" by (simp add: fd_frame_def)
next
  assume "fd_frame 0 s s'"
  then obtain sc k q where "s' = s\<lparr>script := sc, kernel := k, route_sequence := q, open_fds := open_fds s\<rparr>"
    unfolding fd_frame_def by auto
  then show "net_frame s s'" by (simp add: net_frame_def)
qed

lemma net_frame_refl [frame]: "net_frame s s"
  by (simp add: net_frame_def)

lemma net_frame_trans: "net_frame s t \<Longrightarrow> net_frame t u \<Longrightarrow> net_frame s u"
  unfolding net_frame_iff by (rule fd_frame_step)

lemma change_route_linux_frame [frame]:
  assumes "change_route_linux E c d g s = (r, s')"
  shows "net_frame s s'"
proof -
  obtain q s0 where q: "next_sequence s = (q, s0)" by fastforce
  then have s0: "fd_frame 0 s s0" by (rule next_sequence_frame)
  show ?thesis
    using assms q s0 unfolding net_frame_iff change_route_linux_def
    by (auto split: prod.splits option.splits sum.splits
        dest!: nl_open_frame nl_send_frame nl_recv_frame
        intro: fd_frame_pre fd_frame_close [OF fd_frame_step [OF fd_frame_pre]]
          fd_frame_close [OF fd_frame_step [OF fd_frame_step [OF fd_frame_pre]]]
          fd_frame_close [OF fd_frame_pre])
qed

lemma list_system_routes_linux_frame [frame]:
  assumes "list_system_routes_linux E s = (r, s')"
  shows "net_frame s s'"
proof -
  obtain q s0 where q: "next_sequence s = (q, s0)" by fastforce
  then have s0: "fd_frame 0 s s0" by (rule next_sequence_frame)
  show ?thesis
    using assms q s0 unfolding net_frame_iff list_system_routes_linux_def
    by (auto split: prod.splits option.splits sum.splits
        dest!: nl_open_frame nl_send_frame dump_receive_frame
        intro: fd_frame_pre fd_frame_close [OF fd_frame_step [OF fd_frame_pre]]
          fd_frame_close [OF fd_frame_step [OF fd_frame_step [OF fd_frame_pre]]]
          fd_frame_close [OF fd_frame_pre])
qed

end
