(* ===== verification/System_Routes.thy ===== *)
theory System_Routes
  imports Netlink
begin

text \<open>
  The \<open>PF_ROUTE\<close> half of the system route operations (the \<open>__APPLE__\<close>/\<open>__FreeBSD__\<close> branch of
  \<open>route_manager.cpp\<close>), the branch for other systems, and the two entry points
  \<open>add_system_route\<close> and \<open>delete_system_route\<close> that pick the command of the platform.
\<close>

subsection \<open>Changing a route over \<open>PF_ROUTE\<close>\<close>

abbreviation (input) PF_RTM_ADD :: nat where "PF_RTM_ADD \<equiv> 1"

abbreviation (input) PF_RTM_DELETE :: nat where "PF_RTM_DELETE \<equiv> 2"

abbreviation (input) PF_RTM_CHANGE :: nat where "PF_RTM_CHANGE \<equiv> 3"

text \<open>\<open>RTF_UP | RTF_GATEWAY | RTF_HOST | RTF_STATIC\<close> and \<open>RTA_DST | RTA_GATEWAY\<close>\<close>

definition pf_request :: "nat \<Rightarrow> u32 \<Rightarrow> bytes \<Rightarrow> bytes \<Rightarrow> pf_message" where
  "pf_request command sequence dst gw =
     \<lparr>pf_type = command, pf_flags = 1 + 2 + 4 + 2048, pf_addrs = 1 + 2, pf_seq = sequence,
      pf_dst = dst, pf_gateway = gw\<rparr>"

text \<open>\<open>write\<close>: the outcome is the kernel's, or a failure of the call itself.\<close>

definition pf_send :: "'k env \<Rightarrow> pf_message \<Rightarrow> ('k, 'z) os_scheme \<Rightarrow> (nat, nat, ('k, 'z) os_scheme) result" where
  "pf_send E msg s =
     (case next_io s of
        (Fault e, s1) \<Rightarrow> (Inl e, s1)
      | (Done, s1) \<Rightarrow> (let (r, k) = pf_write E msg (kernel s1) in (r, s1\<lparr>kernel := k\<rparr>)))"

function change_route_bsd ::
  "'k env \<Rightarrow> nat \<Rightarrow> string \<Rightarrow> string \<Rightarrow> ('k, 'z) net_s \<Rightarrow> (string, unit, ('k, 'z) net_s) result" where
  "change_route_bsd E command destination gateway s =
     (let (sequence, s0) = next_sequence s in
      case (inet_pton E destination, inet_pton E gateway) of
        (Some dst, Some gw) \<Rightarrow>
          (case open_fd s0 of
             (Inl e, s1) \<Rightarrow> (Inl (set_error E ''open PF_ROUTE socket'' (int e)), s1)
           | (Inr _, s1) \<Rightarrow>
               (case pf_send E (pf_request command sequence dst gw) s1 of
                  (Inl e, s2) \<Rightarrow>
                    if command = PF_RTM_ADD \<and> e = EEXIST
                    then change_route_bsd E PF_RTM_CHANGE destination gateway (close_fd s2)
                    else (Inl (set_error E ''write PF_ROUTE request'' (int e)), close_fd s2)
                | (Inr written, s2) \<Rightarrow>
                    if written \<noteq> pf_size E
                    then (Inl (''write PF_ROUTE request failed: wrote '' @ show_nat written
                                 @ '' of '' @ show_nat (pf_size E) @ '' bytes''), close_fd s2)
                    else (Inr (), close_fd s2)))
      | _ \<Rightarrow> (Inl ''invalid IPv4 address'', s0))"
  by pat_completeness auto
termination
  by (relation "measure (\<lambda>(E, command, destination, gateway, s). if command = 1 then 1 else 0)") auto

declare change_route_bsd.simps [simp del]

subsection \<open>Dumping the route table through \<open>sysctl\<close>\<close>

definition route_address_size :: "'k env \<Rightarrow> nat \<Rightarrow> nat" where
  "route_address_size E sa_len =
     (if sa_len = 0 then pf_align E else (sa_len + pf_align E - 1) div pf_align E * pf_align E)"

text \<open>Offsets of the socket addresses found in a message.\<close>

record pf_found =
  pf_found_dst :: "nat option"
  pf_found_gateway :: "nat option"
  pf_found_mask :: "nat option"

text \<open>
  The loop over the bits of \<open>rtm_addrs\<close>. \<open>cur\<close> is \<open>address_cursor\<close>, \<open>fin\<close> is \<open>message_end\<close>;
  \<open>None\<close> is a read past the dump.
\<close>

fun address_loop ::
  "'k env \<Rightarrow> bytes \<Rightarrow> nat \<Rightarrow> nat \<Rightarrow> nat list \<Rightarrow> nat \<Rightarrow> pf_found \<Rightarrow> pf_found option" where
  "address_loop E buf addrs fin [] cur f = Some f"
| "address_loop E buf addrs fin (b # bs) cur f =
     (if fin \<le> cur then Some f
      else if \<not> bit addrs b then address_loop E buf addrs fin bs cur f
      else case get_field buf cur 1 of
        None \<Rightarrow> None
      | Some sa_len \<Rightarrow>
          (let n = route_address_size E sa_len in
           if fin < cur + n then Some f
           else case get_field buf (cur + 1) 1 of
             None \<Rightarrow> None
           | Some family \<Rightarrow>
               (let f1 = (if family = AF_INET \<and> b = 0 then f\<lparr>pf_found_dst := Some cur\<rparr>
                          else if family = AF_INET \<and> b = 1 then f\<lparr>pf_found_gateway := Some cur\<rparr>
                          else f);
                    f2 = (if b = 2 then f1\<lparr>pf_found_mask := Some cur\<rparr> else f1)
                in address_loop E buf addrs fin bs (cur + n) f2)))"

text \<open>\<open>sin_addr\<close> is at offset 4 of a \<open>sockaddr_in\<close>.\<close>

definition is_ipv4_host_mask :: "bytes \<Rightarrow> nat option \<Rightarrow> bool option" where
  "is_ipv4_host_mask buf address =
     (case address of
        None \<Rightarrow> Some False
      | Some a \<Rightarrow>
          (case get_field buf a 1 of
             None \<Rightarrow> None
           | Some sa_len \<Rightarrow>
               if sa_len < 8 then Some False
               else map_option (\<lambda>m. m = [255, 255, 255, 255]) (get_bytes buf (a + 4) 4)))"

definition pf_route_entry ::
  "'k env \<Rightarrow> bytes \<Rightarrow> nat \<Rightarrow> nat \<Rightarrow> nat \<Rightarrow> pf_found \<Rightarrow> system_route_entry list option" where
  "pf_route_entry E buf flags index_field off f =
     (case (pf_found_dst f, pf_found_gateway f) of
        (Some d, Some g) \<Rightarrow>
          (case (if bit flags 2 then Some True else is_ipv4_host_mask buf (pf_found_mask f)) of
             None \<Rightarrow> None
           | Some False \<Rightarrow> Some []
           | Some True \<Rightarrow>
               (case (get_bytes buf (d + 4) 4, get_bytes buf (g + 4) 4) of
                  (Some db, Some gb) \<Rightarrow>
                    (case (inet_ntop E db, inet_ntop E gb) of
                       (Some dt, Some gt) \<Rightarrow>
                         Some [\<lparr>sr_ip = dt, sr_gateway = gt,
                                sr_interface = (if index_field > 0 then if_indextoname E index_field else [])\<rparr>]
                     | _ \<Rightarrow> Some [])
                | _ \<Rightarrow> None))
      | _ \<Rightarrow> Some [])"

datatype pf_step = Pf_list "system_route_entry list" | Pf_invalid | Pf_overrun

function pf_scan :: "'k env \<Rightarrow> bytes \<Rightarrow> nat \<Rightarrow> system_route_entry list \<Rightarrow> pf_step" where
  "pf_scan E buf off routes =
     (let hdr = 16 + pf_hdr_rest E in
      if length buf < off + hdr then Pf_list routes
      else case (get_field buf off 2, get_field buf (off + 4) 2,
                 get_field buf (off + 8) 4, get_field buf (off + 12) 4) of
        (Some n, Some ix, Some flags, Some addrs) \<Rightarrow>
          if n < hdr \<or> length buf < off + n then Pf_invalid
          else if \<not> (bit flags 0 \<and> bit flags 1 \<and> bit flags 11)
          then pf_scan E buf (off + n) routes
          else
            (case address_loop E buf addrs (off + n) [0..<32] (off + hdr)
                    \<lparr>pf_found_dst = None, pf_found_gateway = None, pf_found_mask = None\<rparr> of
               None \<Rightarrow> Pf_overrun
             | Some f \<Rightarrow>
                 (case pf_route_entry E buf flags ix off f of
                    None \<Rightarrow> Pf_overrun
                  | Some new \<Rightarrow> pf_scan E buf (off + n) (routes @ new)))
      | _ \<Rightarrow> Pf_overrun)"
  by pat_completeness auto
termination
  by (relation "measure (\<lambda>(E, buf, off, routes). length buf - off)") auto

declare pf_scan.simps [simp del]

definition list_system_routes_bsd ::
  "'k env \<Rightarrow> ('k, 'z) net_s \<Rightarrow> (string, system_route_entry list, ('k, 'z) net_s) result" where
  "list_system_routes_bsd E s =
     (case next_io s of
        (Fault e, s1) \<Rightarrow> (Inl (set_error E ''get system route dump size'' (int e)), s1)
      | (Done, s1) \<Rightarrow>
          (let buf = pf_dump E (kernel s1) in
           if buf = [] then (Inr [], s1)
           else case next_io s1 of
             (Fault e, s2) \<Rightarrow> (Inl (set_error E ''read system route dump'' (int e)), s2)
           | (Done, s2) \<Rightarrow>
               (case pf_scan E buf 0 [] of
                  Pf_list routes \<Rightarrow> (Inr routes, s2)
                | Pf_invalid \<Rightarrow> (Inl ''system route dump contains an invalid message'', s2)
                | Pf_overrun \<Rightarrow>
                    (map_sum id (map (\<lambda>(i, g, d). \<lparr>sr_ip = i, sr_gateway = g, sr_interface = d\<rparr>))
                       (stray_dump E buf), s2))))"

subsection \<open>The platform's operations\<close>

definition change_route_other :: "('k, 'z) net_s \<Rightarrow> (string, unit, ('k, 'z) net_s) result" where
  "change_route_other s = (Inl ''route management is unsupported on this operating system'', s)"

definition list_system_routes_other ::
  "('k, 'z) net_s \<Rightarrow> (string, system_route_entry list, ('k, 'z) net_s) result" where
  "list_system_routes_other s =
     (Inl ''system route listing is unsupported on this operating system'', s)"

definition delete_system_route ::
  "'k env \<Rightarrow> string \<Rightarrow> string \<Rightarrow> ('k, 'z) net_s \<Rightarrow> (string, unit, ('k, 'z) net_s) result" where
  "delete_system_route E destination gateway s =
     (case platform_of E of
        Linux \<Rightarrow> change_route_linux E RTM_DELROUTE destination gateway s
      | BSD \<Rightarrow> change_route_bsd E PF_RTM_DELETE destination gateway s
      | Other \<Rightarrow> change_route_other s)"

definition add_system_route ::
  "'k env \<Rightarrow> string \<Rightarrow> string \<Rightarrow> ('k, 'z) net_s \<Rightarrow> (string, unit, ('k, 'z) net_s) result" where
  "add_system_route E destination gateway s =
     (case platform_of E of
        Linux \<Rightarrow> change_route_linux E RTM_NEWROUTE destination gateway s
      | BSD \<Rightarrow> change_route_bsd E PF_RTM_ADD destination gateway s
      | Other \<Rightarrow> change_route_other s)"

definition list_system_routes ::
  "'k env \<Rightarrow> ('k, 'z) net_s \<Rightarrow> (string, system_route_entry list, ('k, 'z) net_s) result" where
  "list_system_routes E s =
     (case platform_of E of
        Linux \<Rightarrow> list_system_routes_linux E s
      | BSD \<Rightarrow> list_system_routes_bsd E s
      | Other \<Rightarrow> list_system_routes_other s)"

lemma pf_send_frame: "pf_send E m s = (r, s') \<Longrightarrow> fd_frame 0 s s'"
  by (rule next_io_cases [of s]) (auto simp: pf_send_def fd_frame_def split: io.splits prod.splits)

lemma change_route_bsd_frame [frame]:
  "change_route_bsd E c d g s = (r, s') \<Longrightarrow> net_frame s s'"
proof (induction E c d g s arbitrary: r s' rule: change_route_bsd.induct)
  case (1 E c d g s)
  obtain q s0 where q: "next_sequence s = (q, s0)" by fastforce
  then have s0: "fd_frame 0 s s0" by (rule next_sequence_frame)
  show ?case
    using "1.prems" q s0 "1.IH" [of "(q, s0)" q s0]
    unfolding net_frame_iff change_route_bsd.simps [of E c d g s]
    by (auto split: option.splits prod.splits sum.splits if_splits
        dest!: open_fd_frame pf_send_frame
        intro: fd_frame_pre fd_frame_step [OF fd_frame_close [OF fd_frame_step [OF fd_frame_pre]]]
          fd_frame_close [OF fd_frame_step [OF fd_frame_pre]])
qed

lemma list_system_routes_bsd_frame [frame]:
  "list_system_routes_bsd E s = (r, s') \<Longrightarrow> net_frame s s'"
  unfolding net_frame_iff list_system_routes_bsd_def
  by (auto simp: Let_def split: prod.splits io.splits if_splits pf_step.splits dest!: next_io_fd_frame
      intro: fd_frame_step)

lemma add_system_route_frame [frame]: "add_system_route E d g s = (r, s') \<Longrightarrow> net_frame s s'"
  by (cases "platform_of E") (auto simp: add_system_route_def change_route_other_def intro: frame)

lemma delete_system_route_frame [frame]: "delete_system_route E d g s = (r, s') \<Longrightarrow> net_frame s s'"
  by (cases "platform_of E") (auto simp: delete_system_route_def change_route_other_def intro: frame)

lemma list_system_routes_frame [frame]: "list_system_routes E s = (r, s') \<Longrightarrow> net_frame s s'"
  by (cases "platform_of E") (auto simp: list_system_routes_def list_system_routes_other_def intro: frame)

end
