(* ===== verification/Route_Table.thy ===== *)
theory Route_Table
  imports System_Routes
begin

text \<open>
  The route manager's memory: \<open>route_metadata\<close>, the two-level map \<open>installed_routes\<close>
  (KEY to destination IP to metadata) and the pure steps the operations make on it. The facts on
  lookups come from the interfaces \<open>keyed_store\<close> and \<open>nested_store\<close> of \<open>Std_Map\<close>.
\<close>

subsection \<open>Data\<close>

record route_metadata =
  md_gateway :: string
  md_ttl :: int
  md_expires_at :: int
  md_last_attempt :: int

definition new_metadata :: "string \<Rightarrow> int \<Rightarrow> int \<Rightarrow> route_metadata" where
  "new_metadata next_hop configured_ttl expiration_time =
     \<lparr>md_gateway = next_hop, md_ttl = configured_ttl, md_expires_at = expiration_time,
      md_last_attempt = 0\<rparr>"

lemma new_metadata_sel [simp]:
  "md_gateway (new_metadata g t x) = g"
  "md_ttl (new_metadata g t x) = t"
  "md_expires_at (new_metadata g t x) = x"
  "md_last_attempt (new_metadata g t x) = 0"
  by (simp_all add: new_metadata_def)

type_synonym key_routes = "(string \<times> route_metadata) list"

type_synonym routes = "(string \<times> key_routes) list"

definition find_route :: "routes \<Rightarrow> string \<Rightarrow> string \<Rightarrow> route_metadata option" where
  "find_route m key destination = Option.bind (map_find m key) (\<lambda>g. map_find g destination)"

text \<open>\<open>installed_routes[key][destination] = metadata\<close>\<close>

definition put_route ::
  "(string \<Rightarrow> string \<Rightarrow> bool) \<Rightarrow> string \<Rightarrow> string \<Rightarrow> route_metadata \<Rightarrow> routes \<Rightarrow> routes" where
  "put_route lt key destination md m =
     map_put lt key
       (map_put lt destination md (case map_find m key of None \<Rightarrow> [] | Some g \<Rightarrow> g)) m"

text \<open>The first group, in iteration order, that holds the destination, with its entry.\<close>

fun first_reference :: "routes \<Rightarrow> string \<Rightarrow> (string \<times> route_metadata) option" where
  "first_reference [] destination = None"
| "first_reference ((k, g) # m) destination =
     (case map_find g destination of
        Some md \<Rightarrow> Some (k, md)
      | None \<Rightarrow> first_reference m destination)"

text \<open>
  The loop of \<open>remove\<close> and \<open>remove_system\<close>: every group loses the destination if it holds it with
  this gateway, and empty groups go.
\<close>

definition drop_reference :: "string \<Rightarrow> string \<Rightarrow> key_routes \<Rightarrow> key_routes" where
  "drop_reference destination gateway g =
     (case map_find g destination of
        None \<Rightarrow> g
      | Some md \<Rightarrow> if md_gateway md = gateway then map_erase destination g else g)"

fun purge_route :: "string \<Rightarrow> string \<Rightarrow> routes \<Rightarrow> routes" where
  "purge_route destination gateway [] = []"
| "purge_route destination gateway ((k, g) # m) =
     (if drop_reference destination gateway g = [] then purge_route destination gateway m
      else (k, drop_reference destination gateway g) # purge_route destination gateway m)"

subsection \<open>Well-formed tables\<close>

definition table_ok :: "routes \<Rightarrow> bool" where
  "table_ok m \<longleftrightarrow> map_ok m \<and> (\<forall>p\<in>set m. map_ok (snd p) \<and> snd p \<noteq> [])"

text \<open>All references to one destination, whatever their keys, use one gateway.\<close>

definition gateways_agree :: "routes \<Rightarrow> bool" where
  "gateways_agree m \<longleftrightarrow>
     (\<forall>k k' d a b. find_route m k d = Some a \<longrightarrow> find_route m k' d = Some b \<longrightarrow> md_gateway a = md_gateway b)"

definition referenced :: "routes \<Rightarrow> string \<Rightarrow> bool" where
  "referenced m destination \<longleftrightarrow> (\<exists>k. find_route m k destination \<noteq> None)"

lemma table_ok_Nil [simp]: "table_ok []"
  by (simp add: table_ok_def)

lemma gateways_agree_Nil [simp]: "gateways_agree []"
  by (simp add: gateways_agree_def find_route_def map_find_Nil)

lemma find_route_Nil [lib]: "find_route [] k d = None"
  by (simp add: find_route_def map_find_Nil)

lemma find_route_group: "map_find m k = Some g \<Longrightarrow> find_route m k d = map_find g d"
  by (simp add: find_route_def)

lemma find_route_put [lib]:
  "find_route (put_route lt k d md m) k' d' =
     (if k' = k \<and> d' = d then Some md else find_route m k' d')"
  unfolding find_route_def put_route_def by (rule std_map2.nested_put)

lemma map_put_not_Nil [simp]: "map_put lt k v m \<noteq> []"
  by (metis map_find_Nil map_find_put fun_upd_same option.distinct(1))

lemma table_ok_groups: "table_ok m \<Longrightarrow> map_find m k = Some g \<Longrightarrow> map_ok g \<and> g \<noteq> []"
  by (fastforce simp: table_ok_def dest: map_find_mem)

lemma table_ok_put [intro]:
  assumes "table_ok m"
  shows "table_ok (put_route lt k d md m)"
proof -
  let ?g = "map_put lt d md (case map_find m k of None \<Rightarrow> [] | Some g \<Rightarrow> g)"
  have g: "map_ok ?g"
    using table_ok_groups [OF assms] by (auto split: option.splits)
  have "map_ok (put_route lt k d md m)"
    using assms by (auto simp: table_ok_def put_route_def)
  moreover have "map_ok (snd p) \<and> snd p \<noteq> []" if "p \<in> set (put_route lt k d md m)" for p
  proof -
    have "p = (k, ?g) \<or> p \<in> set m"
      using that map_put_mem [of "fst p" "snd p" lt k ?g m] by (simp add: put_route_def)
    then show ?thesis using g assms by (auto simp: table_ok_def)
  qed
  ultimately show ?thesis by (simp add: table_ok_def)
qed

lemma find_drop_reference:
  "map_find (drop_reference d gw g) d' =
     (case map_find g d' of
        None \<Rightarrow> None
      | Some md \<Rightarrow> if d' = d \<and> md_gateway md = gw then None else Some md)"
  by (auto simp: drop_reference_def map_find_erase split: option.splits)

lemma map_ok_drop_reference [intro]: "map_ok g \<Longrightarrow> map_ok (drop_reference d gw g)"
  by (auto simp: drop_reference_def split: option.splits)

lemma fst_purge_route: "fst ` set (purge_route d gw m) \<subseteq> fst ` set m"
  by (induction m rule: purge_route.induct) auto

lemma map_ok_Cons: "map_ok ((k, g) # m) \<longleftrightarrow> k \<notin> fst ` set m \<and> map_ok m"
  by (auto simp: map_ok_def)

lemma map_find_Cons: "map_find ((k, g) # m) j = (if j = k then Some g else map_find m j)"
  by (simp add: map_find_def)

lemma map_find_notin: "k \<notin> fst ` set m \<Longrightarrow> map_find m k = None"
  by (simp add: map_find_def map_of_None_iff)

lemma find_route_Cons:
  "find_route ((k, g) # m) j d = (if j = k then map_find g d else find_route m j d)"
  by (simp add: find_route_def map_find_Cons)

lemma find_route_purge [lib]:
  assumes "map_ok m"
  shows "find_route (purge_route d gw m) k d' =
     (case find_route m k d' of
        None \<Rightarrow> None
      | Some md \<Rightarrow> if d' = d \<and> md_gateway md = gw then None else Some md)"
  using assms
proof (induction d gw m rule: purge_route.induct)
  case (1 d gw)
  then show ?case by (simp add: find_route_Nil)
next
  case (2 d gw j g m)
  then have j: "j \<notin> fst ` set m" and m: "map_ok m" by (simp_all add: map_ok_Cons)
  show ?case
  proof (cases "k = j")
    case True
    have none: "find_route (purge_route d gw m) j d' = None"
    proof -
      have "j \<notin> fst ` set (purge_route d gw m)" using j fst_purge_route [of d gw m] by blast
      then show ?thesis by (simp add: find_route_def map_find_notin)
    qed
    have "drop_reference d gw g = [] \<Longrightarrow> map_find (drop_reference d gw g) d' = None"
      by (simp add: map_find_Nil)
    with True none find_drop_reference [of d gw g d'] show ?thesis
      by (auto simp: find_route_Cons)
  next
    case False
    with 2 m show ?thesis by (simp add: find_route_Cons)
  qed
qed

lemma table_ok_purge [intro]: "table_ok m \<Longrightarrow> table_ok (purge_route d gw m)"
proof (induction d gw m rule: purge_route.induct)
  case (1 d gw)
  then show ?case by simp
next
  case (2 d gw k g m)
  then have k: "k \<notin> fst ` set m" and m: "table_ok m" and g: "map_ok g"
    by (auto simp: table_ok_def map_ok_Cons)
  have "k \<notin> fst ` set (purge_route d gw m)" using k fst_purge_route [of d gw m] by auto
  moreover have "table_ok (purge_route d gw m)" using 2 m by (cases "drop_reference d gw g = []") auto
  ultimately show ?case using g by (auto simp: table_ok_def map_ok_Cons)
qed

lemma gateways_agree_subset:
  assumes "gateways_agree m"
    and "\<And>k d md. find_route m' k d = Some md \<Longrightarrow> \<exists>md0. find_route m k d = Some md0 \<and> md_gateway md0 = md_gateway md"
  shows "gateways_agree m'"
  using assms unfolding gateways_agree_def by metis

lemma gateways_agree_purge [intro]:
  assumes "table_ok m" and "gateways_agree m"
  shows "gateways_agree (purge_route d gw m)"
proof (rule gateways_agree_subset [OF assms(2)])
  fix k d' md
  assume "find_route (purge_route d gw m) k d' = Some md"
  then show "\<exists>md0. find_route m k d' = Some md0 \<and> md_gateway md0 = md_gateway md"
    using assms(1) by (auto simp: find_route_purge table_ok_def split: option.splits if_splits)
qed

lemma gateways_agree_put [intro]:
  assumes "gateways_agree m"
    and "\<And>k' md'. find_route m k' d = Some md' \<Longrightarrow> md_gateway md' = md_gateway md"
  shows "gateways_agree (put_route lt k d md m)"
  using assms unfolding gateways_agree_def find_route_put by (metis option.inject)

lemma first_reference_None:
  "map_ok m \<Longrightarrow> first_reference m d = None \<longleftrightarrow> \<not> referenced m d"
proof (induction m d rule: first_reference.induct)
  case (1 d)
  then show ?case by (simp add: referenced_def find_route_Nil)
next
  case (2 k g m d)
  then have IH: "first_reference m d = None \<longleftrightarrow> \<not> referenced m d" if "map_find g d = None"
    using that by (auto simp: map_ok_Cons)
  have k: "find_route m k d = None"
    using "2.prems" by (simp add: map_ok_Cons find_route_def map_find_notin)
  show ?case
  proof (cases "map_find g d")
    case None
    then have "find_route ((k, g) # m) j d = find_route m j d" for j
      using k by (cases "j = k") (simp_all add: find_route_Cons)
    then have "referenced ((k, g) # m) d \<longleftrightarrow> referenced m d" by (simp add: referenced_def)
    with None IH show ?thesis by simp
  next
    case (Some md)
    then have "referenced ((k, g) # m) d" by (auto simp: referenced_def find_route_Cons)
    with Some show ?thesis by simp
  qed
qed

lemma first_reference_Some:
  "map_ok m \<Longrightarrow> first_reference m d = Some (k, md) \<Longrightarrow> find_route m k d = Some md"
proof (induction m d rule: first_reference.induct)
  case (1 d)
  then show ?case by simp
next
  case (2 j g m d)
  show ?case
  proof (cases "map_find g d")
    case None
    with 2 have "find_route m k d = Some md" and "j \<notin> fst ` set m" by (auto simp: map_ok_Cons)
    moreover from this have "k \<noteq> j" by (auto simp: find_route_def map_find_notin)
    ultimately show ?thesis by (simp add: find_route_Cons)
  next
    case (Some x)
    with 2 show ?thesis by (simp add: find_route_Cons)
  qed
qed

subsection \<open>Order and the sequence of entries\<close>

text \<open>Both levels sorted, as \<open>std::map\<close> keeps them.\<close>

definition table_sorted :: "(string \<Rightarrow> string \<Rightarrow> bool) \<Rightarrow> routes \<Rightarrow> bool" where
  "table_sorted lt m \<longleftrightarrow> map_sorted lt m \<and> (\<forall>p\<in>set m. map_sorted lt (snd p))"

text \<open>The entries in iteration order.\<close>

definition entries :: "routes \<Rightarrow> (string \<times> string \<times> route_metadata) list" where
  "entries m = concat (map (\<lambda>(k, g). map (\<lambda>(d, md). (k, d, md)) g) m)"

lemma entries_simps [simp]:
  "entries [] = []"
  "entries ((k, g) # m) = map (\<lambda>(d, md). (k, d, md)) g @ entries m"
  by (simp_all add: entries_def)

lemma mem_entries: "(k, d, md) \<in> set (entries m) \<longleftrightarrow> (\<exists>g. (k, g) \<in> set m \<and> (d, md) \<in> set g)"
  by (force simp: entries_def)

lemma mem_entries_find:
  "table_ok m \<Longrightarrow> (k, d, md) \<in> set (entries m) \<longleftrightarrow> find_route m k d = Some md"
proof -
  assume ok: "table_ok m"
  have g: "map_find g d = Some md \<longleftrightarrow> (d, md) \<in> set g" if "(k, g) \<in> set m" for g
    using ok that by (intro map_find_iff) (auto simp: table_ok_def)
  have "map_find m k = Some g \<longleftrightarrow> (k, g) \<in> set m" for g
    using ok by (intro map_find_iff) (auto simp: table_ok_def)
  with g show ?thesis unfolding mem_entries find_route_def bind_eq_Some_conv by blast
qed

lemma table_sorted_Nil [simp]: "table_sorted lt []"
  by (simp add: table_sorted_def)

lemma table_sorted_put [intro]:
  assumes "strict_order lt" and "table_sorted lt m"
  shows "table_sorted lt (put_route lt k d md m)"
proof -
  define g0 where "g0 = (case map_find m k of None \<Rightarrow> [] | Some g \<Rightarrow> g)"
  define g where "g = map_put lt d md g0"
  have put: "put_route lt k d md m = map_put lt k g m" by (simp add: put_route_def g_def g0_def)
  have "map_sorted lt g0"
    using assms(2) by (auto simp: table_sorted_def g0_def dest!: map_find_mem split: option.splits)
  then have g: "map_sorted lt g" unfolding g_def by (rule map_sorted_put [OF assms(1)])
  have "map_sorted lt (snd p)" if "p \<in> set (put_route lt k d md m)" for p
  proof -
    have "p = (k, g) \<or> p \<in> set m"
      using that map_put_mem [of "fst p" "snd p" lt k g m] by (simp add: put)
    then show ?thesis using g assms(2) by (auto simp: table_sorted_def)
  qed
  moreover have "map_sorted lt (put_route lt k d md m)"
    unfolding put by (rule map_sorted_put) (use assms in \<open>simp_all add: table_sorted_def\<close>)
  ultimately show ?thesis by (simp add: table_sorted_def)
qed

lemma map_sorted_drop_reference: "map_sorted lt g \<Longrightarrow> map_sorted lt (drop_reference d gw g)"
  by (auto simp: drop_reference_def split: option.splits)

lemma table_sorted_purge [intro]: "table_sorted lt m \<Longrightarrow> table_sorted lt (purge_route d gw m)"
proof (induction d gw m rule: purge_route.induct)
  case (1 d gw)
  then show ?case by simp
next
  case (2 d gw k g m)
  then have m: "table_sorted lt m" and g: "map_sorted lt g" and k: "\<forall>x\<in>fst ` set m. lt k x"
    by (auto simp: table_sorted_def map_sorted_def)
  have "\<forall>x\<in>fst ` set (purge_route d gw m). lt k x" using k fst_purge_route [of d gw m] by blast
  moreover have "table_sorted lt (purge_route d gw m)" using 2 m by (cases "drop_reference d gw g = []") auto
  ultimately show ?case
    using map_sorted_drop_reference [OF g] by (auto simp: table_sorted_def map_sorted_def)
qed

text \<open>Putting the entries back one by one, in order, rebuilds the table.\<close>

definition put_entries ::
  "(string \<Rightarrow> string \<Rightarrow> bool) \<Rightarrow> (string \<times> string \<times> route_metadata) list \<Rightarrow> routes \<Rightarrow> routes" where
  "put_entries lt es m = fold (\<lambda>(k, d, md). put_route lt k d md) es m"

lemma put_entries_append: "put_entries lt (es @ fs) m = put_entries lt fs (put_entries lt es m)"
  by (simp add: put_entries_def)

lemma put_route_last_group:
  assumes "k \<notin> fst ` set m" and "d \<notin> fst ` set g" and "\<forall>p\<in>set g. \<not> lt d (fst p)"
  shows "put_route lt k d md (m @ [(k, g)]) = m @ [(k, g @ [(d, md)])]"
proof -
  have f: "map_find (m @ [(k, g)]) k = Some g"
    using assms(1) map_of_None_iff [of m k] by (simp add: map_find_eq map_add_def)
  have id: "map (\<lambda>p. if fst p = k then (k, v) else p) m = m" for v
    using assms(1) by (induction m) auto
  show ?thesis
    using f id map_put_greatest [where lt = lt and k = d and m = g and v = md, OF assms(2,3)]
    by (simp add: put_route_def map_put_def [of lt k])
qed

lemma put_entries_group:
  assumes "k \<notin> fst ` set m" and "strict_order lt"
  shows "map_sorted lt (g0 @ g) \<Longrightarrow>
    put_entries lt (map (\<lambda>(d, md). (k, d, md)) g) (m @ [(k, g0)]) = m @ [(k, g0 @ g)]"
proof (induction g arbitrary: g0)
  case Nil
  then show ?case by (simp add: put_entries_def)
next
  case (Cons e g)
  obtain d md where e: "e = (d, md)" by (cases e)
  from Cons.prems have before: "\<forall>p\<in>set g0. lt (fst p) d"
    by (auto simp: map_sorted_def sorted_wrt_append e)
  then have nlt: "\<forall>p\<in>set g0. \<not> lt d (fst p)" and "d \<notin> fst ` set g0"
    by (auto dest: strict_order_asym [OF assms(2)])
  then have "put_route lt k d md (m @ [(k, g0)]) = m @ [(k, g0 @ [(d, md)])]"
    using put_route_last_group [OF assms(1)] by blast
  with Cons.IH [of "g0 @ [(d, md)]"] Cons.prems show ?case
    by (simp add: put_entries_def e)
qed

lemma put_entries_rebuild:
  assumes "strict_order lt"
  shows "map_sorted lt (m0 @ m) \<Longrightarrow> (\<forall>p\<in>set m. map_sorted lt (snd p) \<and> snd p \<noteq> []) \<Longrightarrow>
    put_entries lt (entries m) m0 = m0 @ m"
proof (induction m arbitrary: m0)
  case Nil
  then show ?case by (simp add: put_entries_def)
next
  case (Cons p m)
  obtain k g where p: "p = (k, g)" by (cases p)
  obtain d md g' where g: "g = (d, md) # g'" using Cons.prems(2) p by (cases g) auto
  have "\<forall>q\<in>set m0. lt (fst q) k"
    using Cons.prems(1) by (auto simp: map_sorted_def sorted_wrt_append p)
  then have nlt: "\<forall>q\<in>set m0. \<not> lt k (fst q)" and k: "k \<notin> fst ` set m0"
    by (auto dest: strict_order_asym [OF assms])
  have "map_find m0 k = None" using k by (rule map_find_notin)
  then have "put_route lt k d md m0 = m0 @ [(k, [(d, md)])]"
    using map_put_greatest [where lt = lt and k = k and m = m0, OF k nlt] by (simp add: put_route_def map_put_def map_find_Nil)
  moreover have "put_entries lt (map (\<lambda>(d, md). (k, d, md)) g') (m0 @ [(k, [(d, md)])]) = m0 @ [(k, [(d, md)] @ g')]"
    by (rule put_entries_group [OF k assms]) (use Cons.prems(2) in \<open>simp add: p g\<close>)
  ultimately have "put_entries lt (map (\<lambda>(d, md). (k, d, md)) g) m0 = m0 @ [p]"
    by (simp add: put_entries_def p g)
  with Cons.IH [of "m0 @ [p]"] Cons.prems show ?case
    by (simp add: p put_entries_append)
qed

end
