(* ===== verification/Route_Store.thy ===== *)
theory Route_Store
  imports Route_Table
begin

text \<open>
  Persistence (\<open>route_manager.cpp\<close>): the route manager's state record, the two text files, and the
  functions that write and read them. Saving goes through a temporary file and a rename. The
  interface \<open>line_codec\<close> says what a line format needs so that a written file reads back; the route
  database and the global settings file are its two interpretations.
\<close>

subsection \<open>The route manager's globals\<close>

record 'k rm = "'k net" +
  worker_started :: bool
  worker_stopping :: bool
  routes_file :: string
  global_route_file :: string
  global_gateway :: string
  force_global_gateway :: bool
  installed_routes :: routes

type_synonym ('k, 'z) rm_s = "('k, 'z) rm_scheme"

text \<open>\<open>valid_ipv4 (value)\<close>; a null pointer is \<open>None\<close>.\<close>

definition valid_ipv4 :: "'k env \<Rightarrow> string option \<Rightarrow> bool" where
  "valid_ipv4 E v =
     (case v of
        None \<Rightarrow> False
      | Some t \<Rightarrow> if c_str t = [] then False else acl_inet_pton E (c_str t) > 0)"

subsection \<open>Replacing a file through a temporary one\<close>

text \<open>
  The common part of \<open>save_routes_locked\<close> and \<open>save_global_route_locked\<close>, with the three names that
  go into the errors.
\<close>

definition replace_file ::
  "'k env \<Rightarrow> string \<Rightarrow> string \<Rightarrow> string \<Rightarrow> string \<Rightarrow> string \<Rightarrow> ('k, 'z) os_scheme
     \<Rightarrow> (string, unit, ('k, 'z) os_scheme) result" where
  "replace_file E path text open_name write_error rename_name s =
     (case open_out (path @ ''.tmp'') s of
        (Inl e, s1) \<Rightarrow> (Inl (set_error E open_name (int e)), s1)
      | (Inr _, s1) \<Rightarrow>
          (case write_out (path @ ''.tmp'') text s1 of
             (False, s2) \<Rightarrow> (Inl write_error, s2)
           | (True, s2) \<Rightarrow>
               (case rename_file (path @ ''.tmp'') path s2 of
                  (Inl e, s3) \<Rightarrow> (Inl (set_error E rename_name (int e)), s3)
                | (Inr _, s3) \<Rightarrow> (Inr (), s3))))"

subsection \<open>The global settings file\<close>

definition global_header :: string where
  "global_header = ''# ip-router global route v1''"

definition global_text :: "string \<Rightarrow> bool \<Rightarrow> string" where
  "global_text gateway force =
     global_header @ [newline]
       @ (if gateway = [] then []
          else c_str gateway @ [tab] @ (if force then ''1'' else ''0'') @ [newline])"

definition save_global_route_locked :: "'k env \<Rightarrow> ('k, 'z) rm_s \<Rightarrow> (string, unit, ('k, 'z) rm_s) result" where
  "save_global_route_locked E s =
     replace_file E (global_route_file s) (global_text (global_gateway s) (force_global_gateway s))
       ''open temporary global route settings'' ''write temporary global route settings failed''
       ''replace global route settings'' s"

text \<open>The record after the header: gateway and flag, or an error.\<close>

definition parse_global_record :: "'k env \<Rightarrow> string \<Rightarrow> string + string \<times> bool" where
  "parse_global_record E l =
     (case split_fields tab l of
        [gateway, force] \<Rightarrow>
          if \<not> valid_ipv4 E (Some gateway) \<or> (force \<noteq> ''0'' \<and> force \<noteq> ''1'')
          then Inl ''invalid global route settings values''
          else Inr (c_str gateway, force = ''1'')
      | _ \<Rightarrow> Inl ''invalid global route settings record'')"

definition load_global_route_locked :: "'k env \<Rightarrow> ('k, 'z) rm_s \<Rightarrow> (string, unit, ('k, 'z) rm_s) result" where
  "load_global_route_locked E s =
     (case open_in (global_route_file s) s of
        (Inl e, s1) \<Rightarrow>
          if e = ENOENT then (Inr (), s1)
          else (Inl (set_error E ''open global route settings'' (int e)), s1)
      | (Inr _, s1) \<Rightarrow>
          (case read_lines (global_route_file s1) s1 of
             ((ls, _), s2) \<Rightarrow>
               (case ls of
                  [] \<Rightarrow> (Inl ''invalid global route settings header'', s2)
                | h # rest \<Rightarrow>
                    if h \<noteq> global_header then (Inl ''invalid global route settings header'', s2)
                    else case rest of
                      [] \<Rightarrow> (Inr (), s2\<lparr>global_gateway := [], force_global_gateway := False\<rparr>)
                    | l # _ \<Rightarrow>
                        if l = [] then (Inr (), s2\<lparr>global_gateway := [], force_global_gateway := False\<rparr>)
                        else (case parse_global_record E l of
                                Inl e \<Rightarrow> (Inl e, s2)
                              | Inr (g, f) \<Rightarrow>
                                  (Inr (), s2\<lparr>global_gateway := g, force_global_gateway := f\<rparr>)))))"

subsection \<open>The route database\<close>

definition routes_header :: string where
  "routes_header = ''# ip-router routes v1''"

definition route_line :: "string \<Rightarrow> string \<Rightarrow> route_metadata \<Rightarrow> string" where
  "route_line key destination md =
     c_str key @ [tab] @ c_str destination @ [tab] @ c_str (md_gateway md) @ [tab]
       @ show_int (md_ttl md) @ [tab] @ show_int (md_expires_at md)"

definition routes_text :: "routes \<Rightarrow> string" where
  "routes_text m =
     routes_header @ [newline]
       @ concat (map (\<lambda>(k, g). concat (map (\<lambda>(d, md). route_line k d md @ [newline]) g)) m)"

definition save_routes_locked :: "'k env \<Rightarrow> ('k, 'z) rm_s \<Rightarrow> (string, unit, ('k, 'z) rm_s) result" where
  "save_routes_locked E s =
     replace_file E (routes_file s) (routes_text (installed_routes s))
       ''open temporary route database'' ''write temporary route database failed''
       ''replace route database'' s"

definition valid_saved_key :: "string \<Rightarrow> bool" where
  "valid_saved_key key \<longleftrightarrow>
     key \<noteq> [] \<and> length key \<le> 256 \<and> (\<forall>c\<in>set key. \<not> (byte c < 32 \<or> byte c = 127))"

definition parse_saved_number :: "string \<Rightarrow> int option" where
  "parse_saved_number value = strtoll_all value"

record saved_route =
  sv_key :: string
  sv_ip :: string
  sv_gateway :: string
  sv_ttl :: int
  sv_expires_at :: int

text \<open>One line of the database; \<open>None\<close> is the record that is logged and ignored.\<close>

definition parse_saved_route :: "'k env \<Rightarrow> string \<Rightarrow> saved_route option" where
  "parse_saved_route E l =
     (case split_fields tab l of
        [key, ip, gateway, ttl_field, expires_field] \<Rightarrow>
          if \<not> valid_saved_key key \<or> \<not> valid_ipv4 E (Some ip) \<or> \<not> valid_ipv4 E (Some gateway) then None
          else (case (parse_saved_number ttl_field, parse_saved_number expires_field) of
                  (Some t, Some x) \<Rightarrow>
                    if t < 0 \<or> x < 0 then None
                    else Some \<lparr>sv_key = key, sv_ip = ip, sv_gateway = gateway, sv_ttl = t, sv_expires_at = x\<rparr>
                | _ \<Rightarrow> None)
      | _ \<Rightarrow> None)"

text \<open>The reading loop: the header on the first line and empty lines are passed over.\<close>

fun parse_lines :: "'k env \<Rightarrow> bool \<Rightarrow> string list \<Rightarrow> saved_route list" where
  "parse_lines E first [] = []"
| "parse_lines E first (l # ls) =
     (if first \<and> l = routes_header then parse_lines E False ls
      else if l = [] then parse_lines E False ls
      else case parse_saved_route E l of
        None \<Rightarrow> parse_lines E False ls
      | Some r \<Rightarrow> r # parse_lines E False ls)"

text \<open>The local variables of the restore loop.\<close>

record restore =
  rs_active :: "(string \<times> string) list"
  rs_expired :: "string list"
  rs_failed :: bool

definition restored_metadata :: "saved_route \<Rightarrow> route_metadata" where
  "restored_metadata r = new_metadata (c_str (sv_gateway r)) (sv_ttl r) (sv_expires_at r)"

definition install_saved :: "'k env \<Rightarrow> saved_route \<Rightarrow> ('k, 'z) rm_s \<Rightarrow> ('k, 'z) rm_s" where
  "install_saved E r s =
     s\<lparr>installed_routes :=
         put_route (acl_less E) (c_str (sv_key r)) (c_str (sv_ip r)) (restored_metadata r) (installed_routes s)\<rparr>"

definition is_expired :: "int \<Rightarrow> saved_route \<Rightarrow> bool" where
  "is_expired now r \<longleftrightarrow> sv_expires_at r > 0 \<and> sv_expires_at r \<le> now"

definition restore_one ::
  "'k env \<Rightarrow> int \<Rightarrow> saved_route \<Rightarrow> restore \<Rightarrow> ('k, 'z) rm_s \<Rightarrow> restore \<times> ('k, 'z) rm_s" where
  "restore_one E now r l s =
     (if is_expired now r
      then (l\<lparr>rs_expired := set_insert (sv_ip r @ newline # sv_gateway r) (rs_expired l)\<rparr>, s)
      else case map_find (rs_active l) (sv_ip r) of
        Some gw \<Rightarrow> if gw \<noteq> sv_gateway r then (l, s) else (l, install_saved E r s)
      | None \<Rightarrow>
          (case add_system_route E (c_str (sv_ip r)) (c_str (sv_gateway r)) s of
             (Inl _, s1) \<Rightarrow> (l\<lparr>rs_failed := True\<rparr>, s1)
           | (Inr _, s1) \<Rightarrow>
               (l\<lparr>rs_active := map_put string_less (sv_ip r) (sv_gateway r) (rs_active l)\<rparr>,
                install_saved E r s1)))"

fun restore_routes ::
  "'k env \<Rightarrow> int \<Rightarrow> saved_route list \<Rightarrow> restore \<Rightarrow> ('k, 'z) rm_s \<Rightarrow> restore \<times> ('k, 'z) rm_s" where
  "restore_routes E now [] l s = (l, s)"
| "restore_routes E now (r # rs) l s =
     (case restore_one E now r l s of (l1, s1) \<Rightarrow> restore_routes E now rs l1 s1)"

text \<open>The cleanup of expired system routes that no restored record uses; failures are only logged.\<close>

fun clean_expired ::
  "'k env \<Rightarrow> (string \<times> string) list \<Rightarrow> string list \<Rightarrow> ('k, 'z) rm_s \<Rightarrow> ('k, 'z) rm_s" where
  "clean_expired E active [] s = s"
| "clean_expired E active (i # ids) s =
     (let destination = takeWhile (\<lambda>c. c \<noteq> newline) i;
          gateway = drop (length destination + 1) i in
      if map_find active destination \<noteq> None then clean_expired E active ids s
      else clean_expired E active ids (snd (delete_system_route E (c_str destination) (c_str gateway) s)))"

definition load_routes_locked :: "'k env \<Rightarrow> ('k, 'z) rm_s \<Rightarrow> (string, unit, ('k, 'z) rm_s) result" where
  "load_routes_locked E s =
     (case open_in (routes_file s) s of
        (Inl e, s1) \<Rightarrow>
          if e = ENOENT then (Inr (), s1)
          else (Inl (set_error E ''open route database'' (int e)), s1)
      | (Inr _, s1) \<Rightarrow>
          (case read_lines (routes_file s1) s1 of
             ((ls, complete), s2) \<Rightarrow>
               if \<not> complete then (Inl ''read route database failed'', s2)
               else
                 (case restore_routes E (clock s2) (parse_lines E True ls)
                         \<lparr>rs_active = [], rs_expired = [], rs_failed = False\<rparr> s2 of
                    (l, s3) \<Rightarrow>
                      (let s4 = clean_expired E (rs_active l) (rs_expired l) s3 in
                       if rs_failed l
                       then (Inl ''one or more persisted routes could not be restored'', s4)
                       else save_routes_locked E s4))))"

subsection \<open>What saving does to the files\<close>

lemma replace_file_replaces:
  assumes "replace_file E path t a b c s = (r, s')"
  shows "replaces (path @ ''.tmp'') path t (succeeds r) s s'"
proof -
  let ?tmp = "path @ ''.tmp''"
  obtain r1 s1 where o1: "open_out ?tmp s = (r1, s1)" by fastforce
  note f1 = open_out_frame [OF o1] and q1 = open_out_result [OF o1]
  show ?thesis
  proof (cases r1)
    case (Inl e)
    with assms o1 have "r = Inl (set_error E a (int e))" "s' = s1" by (simp_all add: replace_file_def)
    with f1 q1 show ?thesis by (simp add: replaces_def)
  next
    case (Inr u)
    obtain g s2 where o2: "write_out ?tmp t s1 = (g, s2)" by fastforce
    note f2 = file_frame_trans [OF f1 write_out_frame [OF o2]] and q2 = write_out_result [OF o2]
    show ?thesis
    proof (cases g)
      case False
      with assms o1 o2 Inr have "r = Inl b" "s' = s2" by (simp_all add: replace_file_def)
      with f2 q1 q2 show ?thesis by (simp add: replaces_def)
    next
      case True
      obtain r3 s3 where o3: "rename_file ?tmp path s2 = (r3, s3)" by fastforce
      note f3 = file_frame_trans [OF f2 rename_file_frame [OF o3]] and q3 = rename_file_result [OF o3]
      from assms o1 o2 o3 Inr True have "succeeds r = succeeds r3" "s' = s3"
        by (auto simp: replace_file_def split: sum.splits)
      with f3 q1 q2 q3 True show ?thesis by (cases r3) (auto simp: replaces_def)
    qed
  qed
qed

lemma save_routes_replaces:
  assumes "save_routes_locked E s = (r, s')"
  shows "replaces (routes_file s @ ''.tmp'') (routes_file s) (routes_text (installed_routes s)) (succeeds r) s s'"
  using assms unfolding save_routes_locked_def by (rule replace_file_replaces)

lemma save_routes_frame [frame]: "save_routes_locked E s = (r, s') \<Longrightarrow> file_frame s s'"
  by (auto dest!: save_routes_replaces simp: replaces_def)

lemma save_global_replaces:
  assumes "save_global_route_locked E s = (r, s')"
  shows "replaces (global_route_file s @ ''.tmp'') (global_route_file s)
           (global_text (global_gateway s) (force_global_gateway s)) (succeeds r) s s'"
  using assms unfolding save_global_route_locked_def by (rule replace_file_replaces)

lemma save_global_frame [frame]: "save_global_route_locked E s = (r, s') \<Longrightarrow> file_frame s s'"
  by (auto dest!: save_global_replaces simp: replaces_def)

subsection \<open>Line formats that read back\<close>

text \<open>
  What a line format owes to \<open>std::getline\<close>: a printed record is one line, not empty, not the header,
  and parses to what was printed.
\<close>

locale line_codec =
  fixes print :: "'a \<Rightarrow> string"
    and parse :: "string \<Rightarrow> 'b option"
    and view :: "'a \<Rightarrow> 'b"
    and ok :: "'a \<Rightarrow> bool"
    and header :: string
  assumes one_line: "ok x \<Longrightarrow> newline \<notin> set (print x)"
    and not_empty: "ok x \<Longrightarrow> print x \<noteq> []"
    and not_header: "ok x \<Longrightarrow> print x \<noteq> header"
    and parse_print: "ok x \<Longrightarrow> parse (print x) = Some (view x)"
    and header_line: "newline \<notin> set header"
begin

lemma lines_of_printed:
  "\<forall>x\<in>set xs. ok x \<Longrightarrow> getlines (concat (map (\<lambda>x. print x @ [newline]) xs)) = map print xs"
  by (induction xs) (auto simp: getlines_Nil getlines_line one_line)

lemma lines_of_file:
  assumes "\<forall>x\<in>set xs. ok x"
  shows "getlines (header @ newline # concat (map (\<lambda>x. print x @ [newline]) xs)) = header # map print xs"
  using assms by (simp add: getlines_line header_line lines_of_printed)

lemma read_back: "\<forall>x\<in>set xs. ok x \<Longrightarrow> map parse (map print xs) = map (\<lambda>x. Some (view x)) xs"
  by (induction xs) (auto simp: parse_print)

lemma no_record_skipped:
  "\<forall>x\<in>set xs. ok x \<Longrightarrow> [] \<notin> set (map print xs) \<and> header \<notin> set (map print xs)"
  using not_empty not_header by fastforce

end

text \<open>Text that survives as one field of a tab-separated line.\<close>

definition plain :: "string \<Rightarrow> bool" where
  "plain t \<longleftrightarrow> nul \<notin> set t \<and> tab \<notin> set t \<and> newline \<notin> set t"

lemma plain_c_str [simp]: "plain t \<Longrightarrow> c_str t = t"
  by (simp add: plain_def c_str_id)

lemma plain_saved_key: "valid_saved_key k \<Longrightarrow> plain k"
  by (auto simp: valid_saved_key_def plain_def)

lemma plain_show_int' [simp]: "plain (show_int n)"
  using plain_show_int [of n] by (auto simp: plain_def)

text \<open>
  An entry of the table as the database can hold it: a key \<open>load_routes_locked\<close> accepts, addresses
  ACL accepts, and numbers in the range of \<open>long long\<close>.
\<close>

definition entry_ok :: "'k env \<Rightarrow> string \<times> string \<times> route_metadata \<Rightarrow> bool" where
  "entry_ok E e \<longleftrightarrow>
     (case e of (k, d, md) \<Rightarrow>
        valid_saved_key k \<and> valid_ipv4 E (Some d) \<and> plain d
          \<and> valid_ipv4 E (Some (md_gateway md)) \<and> plain (md_gateway md)
          \<and> 0 \<le> md_ttl md \<and> md_ttl md \<le> long_long_max
          \<and> 0 \<le> md_expires_at md \<and> md_expires_at md \<le> long_long_max)"

definition entry_line :: "string \<times> string \<times> route_metadata \<Rightarrow> string" where
  "entry_line e = (case e of (k, d, md) \<Rightarrow> route_line k d md)"

definition saved_of :: "string \<times> string \<times> route_metadata \<Rightarrow> saved_route" where
  "saved_of e =
     (case e of (k, d, md) \<Rightarrow>
        \<lparr>sv_key = k, sv_ip = d, sv_gateway = md_gateway md, sv_ttl = md_ttl md,
         sv_expires_at = md_expires_at md\<rparr>)"

lemma split_route_line:
  assumes "plain k" and "plain d" and "plain (md_gateway md)"
  shows "split_fields tab (route_line k d md) =
           [k, d, md_gateway md, show_int (md_ttl md), show_int (md_expires_at md)]"
  using assms plain_show_int' [of "md_ttl md"] plain_show_int' [of "md_expires_at md"]
  by (simp add: route_line_def plain_def split_fields_field split_fields_last c_str_id)

lemma parse_route_line:
  assumes "entry_ok E e"
  shows "parse_saved_route E (entry_line e) = Some (saved_of e)"
proof -
  obtain k d md where e: "e = (k, d, md)" by (cases e)
  have num: "long_long_min \<le> 0" by (simp add: long_long_min_def)
  from assms num have "strtoll_all (show_int (md_ttl md)) = Some (md_ttl md)"
    and "strtoll_all (show_int (md_expires_at md)) = Some (md_expires_at md)"
    by (auto simp: e entry_ok_def intro!: strtoll_show_int)
  with assms show ?thesis
    by (simp add: e entry_ok_def entry_line_def saved_of_def parse_saved_route_def parse_saved_number_def
        split_route_line plain_saved_key)
qed

lemma route_line_has_tab: "tab \<in> set (entry_line e)"
  by (cases e) (simp add: entry_line_def route_line_def)

interpretation route_codec: line_codec entry_line "parse_saved_route E" saved_of "entry_ok E" routes_header
proof (unfold_locales, goal_cases)
  case (1 x)
  obtain k d md where x: "x = (k, d, md)" by (cases x)
  have "plain (show_int (md_ttl md))" "plain (show_int (md_expires_at md))" by simp_all
  with 1 plain_saved_key [of k] show ?case
    by (auto simp: x entry_ok_def entry_line_def route_line_def plain_def c_str_id)
next
  case (2 x)
  show ?case using route_line_has_tab [of x] by auto
next
  case (3 x)
  have "tab \<notin> set routes_header" by (simp add: routes_header_def)
  then show ?case using route_line_has_tab [of x] by auto
next
  case (4 x)
  then show ?case by (rule parse_route_line)
next
  case 5
  show ?case by (simp add: routes_header_def)
qed

end
