(* ===== verification/Route_Manager.thy ===== *)
theory Route_Manager
  imports Route_Store
begin

text \<open>
  The operations of \<open>route_manager\<close> (\<open>route_manager.cpp\<close>). Each runs under \<open>routes_mutex\<close>, so each
  is one step of the state; \<open>Inl\<close> carries the text the operation leaves in \<open>error\<close> when it returns
  \<open>false\<close>.
\<close>

subsection \<open>Settings\<close>

definition set_storage_path :: "string option \<Rightarrow> ('k, 'z) rm_s \<Rightarrow> ('k, 'z) rm_s" where
  "set_storage_path path s =
     (if worker_started s then s
      else let f = (case path of None \<Rightarrow> ''routes.db'' | Some p \<Rightarrow> if p = [] then ''routes.db'' else p)
           in s\<lparr>routes_file := f, global_route_file := f @ ''.global''\<rparr>)"

definition get_global_route :: "('k, 'z) rm_s \<Rightarrow> string \<times> bool" where
  "get_global_route s = (global_gateway s, force_global_gateway s)"

definition set_global_route ::
  "'k env \<Rightarrow> string option \<Rightarrow> bool \<Rightarrow> ('k, 'z) rm_s \<Rightarrow> (string, unit, ('k, 'z) rm_s) result" where
  "set_global_route E gateway force s =
     (if gateway \<noteq> None \<and> gateway \<noteq> Some [] \<and> \<not> valid_ipv4 E gateway
      then (Inl ''global gateway must be a valid IPv4 address'', s)
      else
        let g = (case gateway of None \<Rightarrow> [] | Some t \<Rightarrow> t) in
        case save_global_route_locked E
               (s\<lparr>global_gateway := g, force_global_gateway := (g \<noteq> [] \<and> force)\<rparr>) of
          (Inl e, s1) \<Rightarrow>
            (Inl e, s1\<lparr>global_gateway := global_gateway s, force_global_gateway := force_global_gateway s\<rparr>)
        | (Inr _, s1) \<Rightarrow> (Inr (), s1))"

subsection \<open>Adding a route\<close>

text \<open>\<open>installed_routes[key][destination] = metadata\<close>, saved, or undone when the save fails.\<close>

definition store_route ::
  "'k env \<Rightarrow> string \<Rightarrow> string \<Rightarrow> route_metadata \<Rightarrow> ('k, 'z) rm_s \<Rightarrow> (string, unit, ('k, 'z) rm_s) result" where
  "store_route E key destination md s =
     (case save_routes_locked E
             (s\<lparr>installed_routes := put_route (acl_less E) key destination md (installed_routes s)\<rparr>) of
        (Inl e, s1) \<Rightarrow> (Inl e, s1\<lparr>installed_routes := installed_routes s\<rparr>)
      | (Inr _, s1) \<Rightarrow> (Inr (), s1))"

definition add_metadata :: "string \<Rightarrow> int \<Rightarrow> int \<Rightarrow> route_metadata" where
  "add_metadata gateway ttl now =
     new_metadata gateway (if ttl > 0 then ttl else 0) (if ttl > 0 then now + ttl else 0)"

text \<open>A destination nobody references yet: saved first, then installed in the system.\<close>

definition add_new_route ::
  "'k env \<Rightarrow> string \<Rightarrow> string \<Rightarrow> string \<Rightarrow> route_metadata \<Rightarrow> ('k, 'z) rm_s
     \<Rightarrow> (string, unit, ('k, 'z) rm_s) result" where
  "add_new_route E destination gateway key md s =
     (case store_route E key destination md s of
        (Inl e, s1) \<Rightarrow> (Inl e, s1)
      | (Inr _, s1) \<Rightarrow>
          (case add_system_route E destination gateway s1 of
             (Inr _, s2) \<Rightarrow> (Inr (), s2)
           | (Inl e, s2) \<Rightarrow>
               (Inl e, snd (save_routes_locked E (s2\<lparr>installed_routes := installed_routes s\<rparr>)))))"

definition add_route ::
  "'k env \<Rightarrow> string \<Rightarrow> string \<Rightarrow> string \<Rightarrow> int \<Rightarrow> ('k, 'z) rm_s \<Rightarrow> (string, unit, ('k, 'z) rm_s) result" where
  "add_route E destination gateway key ttl s =
     (if ttl > 0 \<and> ttl > long_long_max - clock s then (Inl ''parameter 'ttl' is too large'', s)
      else
        let md = add_metadata gateway ttl (clock s) in
        if map_option md_gateway (find_route (installed_routes s) key destination) = Some gateway
        then store_route E key destination md s
        else case first_reference (installed_routes s) destination of
          Some (k, existing) \<Rightarrow>
            if md_gateway existing \<noteq> gateway
            then (Inl (''IP '' @ destination @ '' already uses gateway '' @ md_gateway existing
                         @ '' under key '' @ k), s)
            else store_route E key destination md s
        | None \<Rightarrow> add_new_route E destination gateway key md s)"

subsection \<open>Removing a route\<close>

text \<open>
  The part \<open>remove\<close> and \<open>remove_system\<close> share: the system route goes first, then every reference to
  it; when the save fails the memory is restored and the system route added back.
\<close>

definition delete_everywhere ::
  "'k env \<Rightarrow> string \<Rightarrow> string \<Rightarrow> ('k, 'z) rm_s \<Rightarrow> (string, unit, ('k, 'z) rm_s) result" where
  "delete_everywhere E destination gateway s =
     (case delete_system_route E destination gateway s of
        (Inl e, s1) \<Rightarrow> (Inl e, s1)
      | (Inr _, s1) \<Rightarrow>
          (case save_routes_locked E
                  (s1\<lparr>installed_routes := purge_route destination gateway (installed_routes s)\<rparr>) of
             (Inr _, s2) \<Rightarrow> (Inr (), s2)
           | (Inl e, s2) \<Rightarrow>
               (Inl e,
                snd (add_system_route E destination gateway (s2\<lparr>installed_routes := installed_routes s\<rparr>)))))"

definition remove_route ::
  "'k env \<Rightarrow> string \<Rightarrow> string \<Rightarrow> string \<Rightarrow> ('k, 'z) rm_s \<Rightarrow> (string, unit, ('k, 'z) rm_s) result" where
  "remove_route E key destination gateway s =
     (case map_find (installed_routes s) key of
        None \<Rightarrow> (Inl (''route key not found: '' @ key), s)
      | Some g \<Rightarrow>
          if map_option md_gateway (map_find g destination) \<noteq> Some gateway
          then (Inl (''route not found under key '' @ key @ '': '' @ destination @ '' via '' @ gateway), s)
          else delete_everywhere E destination gateway s)"

definition list_system ::
  "'k env \<Rightarrow> ('k, 'z) rm_s \<Rightarrow> (string, system_route_entry list, ('k, 'z) rm_s) result" where
  "list_system E s = list_system_routes E s"

definition remove_system ::
  "'k env \<Rightarrow> string \<Rightarrow> string \<Rightarrow> ('k, 'z) rm_s \<Rightarrow> (string, unit, ('k, 'z) rm_s) result" where
  "remove_system E destination gateway s =
     (case list_system_routes E s of
        (Inl e, s1) \<Rightarrow> (Inl e, s1)
      | (Inr rs, s1) \<Rightarrow>
          if \<not> (\<exists>r\<in>set rs. sr_ip r = destination \<and> sr_gateway r = gateway)
          then (Inl (''system static host route not found: '' @ destination @ '' via '' @ gateway), s1)
          else delete_everywhere E destination gateway s1)"

subsection \<open>Listing\<close>

record route_target =
  rt_ip :: string
  rt_gateway :: string
  rt_ttl :: int
  rt_expires_at :: int

record route_entry =
  re_key :: string
  re_targets :: "route_target list"

definition list_routes :: "('k, 'z) rm_s \<Rightarrow> route_entry list" where
  "list_routes s =
     map (\<lambda>(k, g). \<lparr>re_key = c_str k,
            re_targets = map (\<lambda>(d, md). \<lparr>rt_ip = c_str d, rt_gateway = c_str (md_gateway md),
                                          rt_ttl = md_ttl md, rt_expires_at = md_expires_at md\<rparr>) g\<rparr>)
       (installed_routes s)"

subsection \<open>Expiry\<close>

definition not_due :: "int \<Rightarrow> route_metadata \<Rightarrow> bool" where
  "not_due now md \<longleftrightarrow>
     md_expires_at md \<le> 0 \<or> md_expires_at md > now
       \<or> (md_last_attempt md > 0 \<and> now - md_last_attempt md < 30)"

definition referenced_in :: "routes \<Rightarrow> string \<Rightarrow> bool" where
  "referenced_in others destination \<longleftrightarrow> (\<exists>p\<in>set others. map_find (snd p) destination \<noteq> None)"

text \<open>
  The inner loop over one group; \<open>others\<close> are the other groups as they are at that moment. The
  results are what is left of the group and the \<open>changed\<close> flag.
\<close>

fun sweep_targets ::
  "'k env \<Rightarrow> int \<Rightarrow> routes \<Rightarrow> key_routes \<Rightarrow> ('k, 'z) rm_s \<Rightarrow> (key_routes \<times> bool) \<times> ('k, 'z) rm_s" where
  "sweep_targets E now others [] s = (([], False), s)"
| "sweep_targets E now others ((d, md) # g) s =
     (if not_due now md
      then case sweep_targets E now others g s of ((g', ch), s') \<Rightarrow> (((d, md) # g', ch), s')
      else if referenced_in others d
      then case sweep_targets E now others g s of ((g', ch), s') \<Rightarrow> ((g', True), s')
      else case delete_system_route E d (md_gateway md) s of
        (Inr _, s1) \<Rightarrow> (case sweep_targets E now others g s1 of ((g', ch), s') \<Rightarrow> ((g', True), s'))
      | (Inl _, s1) \<Rightarrow>
          (case sweep_targets E now others g s1 of
             ((g', ch), s') \<Rightarrow> (((d, md\<lparr>md_last_attempt := now\<rparr>) # g', ch), s')))"

text \<open>The outer loop; \<open>swept\<close> are the groups already passed.\<close>

fun sweep_groups ::
  "'k env \<Rightarrow> int \<Rightarrow> routes \<Rightarrow> routes \<Rightarrow> ('k, 'z) rm_s \<Rightarrow> (routes \<times> bool) \<times> ('k, 'z) rm_s" where
  "sweep_groups E now swept [] s = ((swept, False), s)"
| "sweep_groups E now swept ((k, g) # m) s =
     (case sweep_targets E now (swept @ m) g s of
        ((g', ch), s1) \<Rightarrow>
          (case sweep_groups E now (if g' = [] then swept else swept @ [(k, g')]) m s1 of
             ((m', ch'), s2) \<Rightarrow> ((m', ch \<or> ch'), s2)))"

text \<open>One turn of the loop of \<open>expire_routes\<close>, up to the wait.\<close>

definition expire_once :: "'k env \<Rightarrow> ('k, 'z) rm_s \<Rightarrow> ('k, 'z) rm_s" where
  "expire_once E s =
     (case sweep_groups E (clock s) [] (installed_routes s) s of
        ((m, changed), s1) \<Rightarrow>
          if changed then snd (save_routes_locked E (s1\<lparr>installed_routes := m\<rparr>))
          else s1\<lparr>installed_routes := m\<rparr>)"

subsection \<open>Starting\<close>

text \<open>\<open>start\<close>, up to the creation of the worker thread; a failed load is only logged.\<close>

definition start_routes :: "'k env \<Rightarrow> ('k, 'z) rm_s \<Rightarrow> ('k, 'z) rm_s" where
  "start_routes E s =
     (if worker_started s then s
      else
        let s1 = s\<lparr>worker_started := True, worker_stopping := False, installed_routes := [],
                   global_gateway := [], force_global_gateway := False\<rparr>
        in snd (load_routes_locked E (snd (load_global_route_locked E s1))))"

end
