(* ===== verification/Domain_Manager.thy ===== *)
theory Domain_Manager
  imports Environment
begin

text \<open>
  \<open>domain_manager\<close> (\<open>domain_manager.cpp\<close>): one resolver file per domain in the resolver directory,
  each marked with a header line so that files of other origin are never touched. The configuration
  (written once, by \<open>configure\<close>) is the record \<open>resolver\<close>; the process id is part of it because the
  temporary file is named after it.
\<close>

subsection \<open>Data\<close>

record domain_entry =
  de_domain :: string
  de_created_at :: int

record resolver =
  resolver_directory :: string
  resolver_nameserver :: string
  resolver_port :: int
  resolver_search_order :: int
  process_id :: nat

definition managed_header :: string where
  "managed_header = ''# managed by ip-router''"

definition path_join :: "string \<Rightarrow> string \<Rightarrow> string" where
  "path_join directory name =
     (if directory \<noteq> [] \<and> last directory = CHR ''/'' then directory @ name
      else directory @ ''/'' @ name)"

definition configure :: "nat \<Rightarrow> string option \<Rightarrow> string option \<Rightarrow> int \<Rightarrow> int \<Rightarrow> resolver" where
  "configure pid directory nameserver port search_order =
     \<lparr>resolver_directory = (case directory of None \<Rightarrow> ''/etc/resolver'' | Some d \<Rightarrow> if d = [] then ''/etc/resolver'' else d),
      resolver_nameserver = (case nameserver of None \<Rightarrow> ''127.0.0.1'' | Some n \<Rightarrow> if n = [] then ''127.0.0.1'' else n),
      resolver_port = (if port > 0 \<and> port \<le> 65535 then port else 53),
      resolver_search_order = (if search_order \<ge> 0 then search_order else 1),
      process_id = pid\<rparr>"

subsection \<open>Inspecting the file system\<close>

text \<open>\<open>stat\<close> and \<open>lstat\<close>: an errno, or what the path names.\<close>

definition lstat :: "string \<Rightarrow> ('k, 'z) os_scheme \<Rightarrow> (nat, fnode, ('k, 'z) os_scheme) result" where
  "lstat path s =
     (case next_io s of
        (Fault e, s1) \<Rightarrow> (Inl e, s1)
      | (Done, s1) \<Rightarrow> ((case file_at s1 path of None \<Rightarrow> Inl ENOENT | Some n \<Rightarrow> Inr n), s1))"

definition make_directory :: "string \<Rightarrow> ('k, 'z) os_scheme \<Rightarrow> (nat, unit, ('k, 'z) os_scheme) result" where
  "make_directory path s =
     (case next_io s of
        (Fault e, s1) \<Rightarrow> (Inl e, s1)
      | (Done, s1) \<Rightarrow>
          (if file_at s1 path \<noteq> None then (Inl EEXIST, s1) else (Inr (), set_file path Directory s1)))"

text \<open>The names \<open>readdir\<close> returns, in the order the directory holds them.\<close>

definition name_in :: "string \<Rightarrow> string \<Rightarrow> string option" where
  "name_in directory path =
     (let prefix = path_join directory [] in
      if take (length prefix) path = prefix \<and> drop (length prefix) path \<noteq> []
         \<and> CHR ''/'' \<notin> set (drop (length prefix) path)
      then Some (drop (length prefix) path) else None)"

definition names_in :: "string \<Rightarrow> ('k, 'z) os_scheme \<Rightarrow> string list" where
  "names_in directory s = List.map_filter (\<lambda>(p, _). name_in directory p) (AList.clearjunk (files s))"

definition open_directory ::
  "string \<Rightarrow> ('k, 'z) os_scheme \<Rightarrow> (nat, string list, ('k, 'z) os_scheme) result" where
  "open_directory path s =
     (case next_io s of
        (Fault e, s1) \<Rightarrow> (Inl e, s1)
      | (Done, s1) \<Rightarrow>
          (case file_at s1 path of
             None \<Rightarrow> (Inl ENOENT, s1)
           | Some Directory \<Rightarrow> (Inr (names_in path s1), s1)
           | Some _ \<Rightarrow> (Inl ENOTDIR, s1)))"

definition ensure_directory ::
  "'k env \<Rightarrow> resolver \<Rightarrow> ('k, 'z) os_scheme \<Rightarrow> (string, unit, ('k, 'z) os_scheme) result" where
  "ensure_directory E cfg s =
     (case lstat (resolver_directory cfg) s of
        (Inr Directory, s1) \<Rightarrow> (Inr (), s1)
      | (Inr _, s1) \<Rightarrow> (Inl (''resolver path is not a directory: '' @ resolver_directory cfg), s1)
      | (Inl e, s1) \<Rightarrow>
          if e \<noteq> ENOENT then (Inl (set_error E ''stat resolver directory'' (int e)), s1)
          else (case make_directory (resolver_directory cfg) s1 of
                  (Inl e, s2) \<Rightarrow> (Inl (set_error E ''create resolver directory'' (int e)), s2)
                | (Inr _, s2) \<Rightarrow> (Inr (), s2)))"

text \<open>
  \<open>value >> created_at\<close>: leading white space, a sign and digits; 0 when there are none, the nearest
  \<open>long long\<close> when they are out of range.
\<close>

definition stream_number :: "string \<Rightarrow> int" where
  "stream_number t =
     (let (neg, u) = read_sign (dropWhile isspace t);
          n = int (fst (read_digits 0 u));
          v = (if neg then - n else n)
      in if v < long_long_min then long_long_min else if v > long_long_max then long_long_max else v)"

definition created_prefix :: string where
  "created_prefix = ''# created_at=''"

definition line_created_at :: "string \<Rightarrow> int" where
  "line_created_at l =
     (if take (length created_prefix) l = created_prefix
      then stream_number (drop (length created_prefix) l) else 0)"

text \<open>\<open>None\<close>: the file cannot be opened or is not one of ours.\<close>

definition read_managed_file ::
  "string \<Rightarrow> ('k, 'z) os_scheme \<Rightarrow> int option \<times> ('k, 'z) os_scheme" where
  "read_managed_file path s =
     (case open_in path s of
        (Inl _, s1) \<Rightarrow> (None, s1)
      | (Inr _, s1) \<Rightarrow>
          (case read_lines path s1 of
             ((ls, _), s2) \<Rightarrow>
               (case ls of
                  [] \<Rightarrow> (None, s2)
                | h # rest \<Rightarrow>
                    if h \<noteq> managed_header then (None, s2)
                    else (Some (case rest of [] \<Rightarrow> 0 | l # _ \<Rightarrow> line_created_at l), s2))))"

subsection \<open>Domain names\<close>

definition trim_dots :: "string \<Rightarrow> string" where
  "trim_dots d = rev (dropWhile (\<lambda>c. c = CHR ''.'') (rev d))"

text \<open>
  The loop over the characters: \<open>previous\<close> is the character before, \<open>n\<close> the length of the label so far.
  The results are the error, or the lower-case text with the last character and the final \<open>n\<close>.
\<close>

fun domain_loop :: "string \<Rightarrow> char \<Rightarrow> nat \<Rightarrow> string \<Rightarrow> string + string \<times> char \<times> nat" where
  "domain_loop value previous n [] = Inr ([], previous, n)"
| "domain_loop value previous n (c # cs) =
     (if c = CHR ''.''
      then if n = 0 \<or> n > 63 \<or> previous = CHR ''-'' then Inl (''invalid domain: '' @ value)
           else (case domain_loop value c 0 cs of
                   Inl e \<Rightarrow> Inl e | Inr (t, l, m) \<Rightarrow> Inr (c # t, l, m))
      else if \<not> (isalnum c \<or> c = CHR ''-'')
      then Inl (''domain must contain only letters, digits, '' @ [CHR 39, CHR ''-'', CHR 39]
                  @ '' and '' @ [CHR 39, CHR ''.'', CHR 39] @ '': '' @ value)
      else if n = 0 \<and> c = CHR ''-''
      then Inl (''domain label cannot start with '' @ [CHR 39, CHR ''-'', CHR 39] @ '': '' @ value)
      else (case domain_loop value (tolower c) (Suc n) cs of
              Inl e \<Rightarrow> Inl e | Inr (t, l, m) \<Rightarrow> Inr (tolower c # t, l, m)))"

definition valid_domain :: "string option \<Rightarrow> string + string" where
  "valid_domain v =
     (case v of
        None \<Rightarrow> Inl ''domain is required''
      | Some value \<Rightarrow>
          if value = [] then Inl ''domain is required''
          else
            let domain = trim_dots value in
            if domain = [] \<or> length domain > 253
            then Inl ''domain length must be between 1 and 253 characters''
            else (case domain_loop value nul 0 domain of
                    Inl e \<Rightarrow> Inl e
                  | Inr (t, l, n) \<Rightarrow>
                      if n = 0 \<or> n > 63 \<or> l = CHR ''-'' then Inl (''invalid domain: '' @ value)
                      else Inr t))"

subsection \<open>Operations\<close>

definition resolver_text :: "resolver \<Rightarrow> int \<Rightarrow> string" where
  "resolver_text cfg created_at =
     managed_header @ [newline]
       @ created_prefix @ show_int created_at @ [newline]
       @ ''nameserver '' @ resolver_nameserver cfg @ [newline]
       @ ''port '' @ show_int (resolver_port cfg) @ [newline]
       @ ''search_order '' @ show_int (resolver_search_order cfg) @ [newline]"

definition temporary_path :: "resolver \<Rightarrow> string \<Rightarrow> string" where
  "temporary_path cfg domain =
     resolver_directory cfg @ ''/.ip-router-'' @ show_nat (process_id cfg) @ ''-'' @ domain @ ''.tmp''"

text \<open>The writing half of \<open>add\<close>.\<close>

definition write_resolver ::
  "'k env \<Rightarrow> resolver \<Rightarrow> string \<Rightarrow> string \<Rightarrow> int \<Rightarrow> ('k, 'z) os_scheme \<Rightarrow> (string, unit, ('k, 'z) os_scheme) result" where
  "write_resolver E cfg domain path created_at s =
     (let temporary = temporary_path cfg domain in
      case open_out temporary s of
        (Inl e, s1) \<Rightarrow> (Inl (set_error E ''open temporary resolver file'' (int e)), s1)
      | (Inr _, s1) \<Rightarrow>
          (case write_out temporary (resolver_text cfg created_at) s1 of
             (False, s2) \<Rightarrow> (Inl ''write resolver file failed'', snd (unlink_file temporary s2))
           | (True, s2) \<Rightarrow>
               (case rename_file temporary path s2 of
                  (Inl e, s3) \<Rightarrow>
                    (Inl (set_error E ''replace resolver file'' (int e)), snd (unlink_file temporary s3))
                | (Inr _, s3) \<Rightarrow> (Inr (), s3))))"

text \<open>What \<open>add\<close> finds at the path: the time of creation to write, or the error.\<close>

definition creation_time ::
  "'k env \<Rightarrow> string \<Rightarrow> ('k, 'z) os_scheme \<Rightarrow> (string, int, ('k, 'z) os_scheme) result" where
  "creation_time E path s =
     (let now = clock s;
          foreign = ''resolver file already exists and is not managed by ip-router: '' @ path in
      case lstat path s of
        (Inl e, s1) \<Rightarrow>
          if e \<noteq> ENOENT then (Inl (set_error E ''inspect resolver file'' (int e)), s1) else (Inr now, s1)
      | (Inr (Regular _), s1) \<Rightarrow>
          (case read_managed_file path s1 of
             (None, s2) \<Rightarrow> (Inl foreign, s2)
           | (Some t, s2) \<Rightarrow> (Inr (if t > 0 then t else now), s2))
      | (Inr _, s1) \<Rightarrow> (Inl foreign, s1))"

definition add_domain ::
  "'k env \<Rightarrow> resolver \<Rightarrow> string option \<Rightarrow> ('k, 'z) os_scheme \<Rightarrow> (string, unit, ('k, 'z) os_scheme) result" where
  "add_domain E cfg value s =
     (case valid_domain value of
        Inl e \<Rightarrow> (Inl e, s)
      | Inr domain \<Rightarrow>
          (case ensure_directory E cfg s of
             (Inl e, s1) \<Rightarrow> (Inl e, s1)
           | (Inr _, s1) \<Rightarrow>
               (let path = path_join (resolver_directory cfg) domain in
                case creation_time E path s1 of
                  (Inl e, s2) \<Rightarrow> (Inl e, s2)
                | (Inr created_at, s2) \<Rightarrow> write_resolver E cfg domain path created_at s2)))"

definition remove_domain ::
  "'k env \<Rightarrow> resolver \<Rightarrow> string option \<Rightarrow> ('k, 'z) os_scheme \<Rightarrow> (string, unit, ('k, 'z) os_scheme) result" where
  "remove_domain E cfg value s =
     (case valid_domain value of
        Inl e \<Rightarrow> (Inl e, s)
      | Inr domain \<Rightarrow>
          (let path = path_join (resolver_directory cfg) domain;
               foreign = ''refusing to delete resolver file not managed by ip-router: '' @ path in
           case lstat path s of
             (Inl e, s1) \<Rightarrow>
               (Inl (if e = ENOENT then ''domain not found: '' @ domain
                     else set_error E ''inspect resolver file'' (int e)), s1)
           | (Inr (Regular _), s1) \<Rightarrow>
               (case read_managed_file path s1 of
                  (None, s2) \<Rightarrow> (Inl foreign, s2)
                | (Some _, s2) \<Rightarrow>
                    (case unlink_file path s2 of
                       (Inl e, s3) \<Rightarrow> (Inl (set_error E ''delete resolver file'' (int e)), s3)
                     | (Inr _, s3) \<Rightarrow> (Inr (), s3)))
           | (Inr _, s1) \<Rightarrow> (Inl foreign, s1)))"

text \<open>One name of the directory: an entry, or passed over.\<close>

definition list_item ::
  "resolver \<Rightarrow> string \<Rightarrow> ('k, 'z) os_scheme \<Rightarrow> domain_entry option \<times> ('k, 'z) os_scheme" where
  "list_item cfg name s =
     (if name \<noteq> [] \<and> hd name = CHR ''.'' then (None, s)
      else if valid_domain (Some name) \<noteq> Inr name then (None, s)
      else
        let path = path_join (resolver_directory cfg) name in
        case lstat path s of
          (Inr (Regular _), s1) \<Rightarrow>
            (case read_managed_file path s1 of
               (None, s2) \<Rightarrow> (None, s2)
             | (Some t, s2) \<Rightarrow> (Some \<lparr>de_domain = name, de_created_at = t\<rparr>, s2))
        | (_, s1) \<Rightarrow> (None, s1))"

fun list_items ::
  "resolver \<Rightarrow> string list \<Rightarrow> ('k, 'z) os_scheme \<Rightarrow> domain_entry list \<times> ('k, 'z) os_scheme" where
  "list_items cfg [] s = ([], s)"
| "list_items cfg (n # ns) s =
     (case list_item cfg n s of
        (e, s1) \<Rightarrow>
          (case list_items cfg ns s1 of
             (es, s2) \<Rightarrow> ((case e of None \<Rightarrow> es | Some x \<Rightarrow> x # es), s2)))"

text \<open>\<open>std::sort\<close> by domain.\<close>

fun insert_entry :: "(string \<Rightarrow> string \<Rightarrow> bool) \<Rightarrow> domain_entry \<Rightarrow> domain_entry list \<Rightarrow> domain_entry list" where
  "insert_entry lt e [] = [e]"
| "insert_entry lt e (x # xs) =
     (if lt (de_domain e) (de_domain x) then e # x # xs else x # insert_entry lt e xs)"

definition sort_entries :: "(string \<Rightarrow> string \<Rightarrow> bool) \<Rightarrow> domain_entry list \<Rightarrow> domain_entry list" where
  "sort_entries lt es = fold (insert_entry lt) es []"

definition list_domains ::
  "'k env \<Rightarrow> resolver \<Rightarrow> ('k, 'z) os_scheme \<Rightarrow> (string, domain_entry list, ('k, 'z) os_scheme) result" where
  "list_domains E cfg s =
     (case open_directory (resolver_directory cfg) s of
        (Inl e, s1) \<Rightarrow>
          if e = ENOENT then (Inr [], s1)
          else (Inl (set_error E ''open resolver directory'' (int e)), s1)
      | (Inr names, s1) \<Rightarrow>
          (case list_items cfg names s1 of (es, s2) \<Rightarrow> (Inr (sort_entries (acl_less E) es), s2)))"

subsection \<open>Refreshing the system's cache\<close>

text \<open>\<open>waitpid\<close>, again after \<open>EINTR\<close>; \<open>Inl\<close> is any other errno.\<close>

function wait_program :: "nat \<Rightarrow> ('k, 'z) os_scheme \<Rightarrow> (nat, nat, ('k, 'z) os_scheme) result" where
  "wait_program status s =
     (case next_io s of
        (Done, s1) \<Rightarrow> (Inr status, s1)
      | (Fault e, s1) \<Rightarrow> if e = EINTR then wait_program status s1 else (Inl e, s1))"
  by auto
termination
  by (relation "measure (\<lambda>(_, s). length (script s))") (auto simp: next_io_def split: list.splits)

definition run_program ::
  "'k env \<Rightarrow> string list \<Rightarrow> ('k, 'z) os_scheme \<Rightarrow> (string, unit, ('k, 'z) os_scheme) result" where
  "run_program E arguments s =
     (let path = hd arguments in
      case next_io s of
        (Fault e, s1) \<Rightarrow> (Inl (set_error E path (int e)), s1)
      | (Done, s1) \<Rightarrow>
          (case wait_program (run_status E arguments) s1 of
             (Inl e, s2) \<Rightarrow> (Inl (set_error E ''wait for DNS refresh command'' (int e)), s2)
           | (Inr status, s2) \<Rightarrow>
               if status mod 128 \<noteq> 0 \<or> status div 256 mod 256 \<noteq> 0
               then (Inl (''DNS refresh command failed: '' @ path @ '' (status='' @ show_nat status @ '')''), s2)
               else (Inr (), s2)))"

definition refresh_system ::
  "'k env \<Rightarrow> ('k, 'z) os_scheme \<Rightarrow> (string, unit, ('k, 'z) os_scheme) result" where
  "refresh_system E s =
     (if \<not> is_apple E then (Inr (), s)
      else (case run_program E [''/usr/bin/dscacheutil'', ''-flushcache''] s of
              (Inl e, s1) \<Rightarrow> (Inl e, s1)
            | (Inr _, s1) \<Rightarrow> run_program E [''/usr/bin/killall'', ''-HUP'', ''mDNSResponder''] s1))"

end
