(* ===== verification/Http_Service.thy ===== *)
theory Http_Service
  imports Environment
begin

text \<open>
  The HTTP layer of \<open>ip-router\<close>: \<open>http_service\<close> (the table of handlers and the dispatch),
  \<open>http_servlet\<close> (what calls it) and the values handlers take and give. Parsing a request and
  printing a reply are the ACL library's: a request is what \<open>getParameter\<close>, \<open>getHeader\<close>,
  \<open>getPathInfo\<close> and \<open>isKeepAlive\<close> return, a reply is what the handler set and wrote.
\<close>

subsection \<open>Requests and replies\<close>

datatype json =
  JText string
| JNumber int
| JBool bool
| JObject "(string \<times> json) list"
| JArray "json list"

datatype body = Json_body json | Text_body string

record reply =
  rp_status :: int
  rp_type :: string
  rp_length :: "int option"
  rp_body :: body

record http_request =
  rq_path :: "string option"
  rq_keep_alive :: bool
  rq_expect :: "string option"
  rq_parameters :: "(string \<times> string) list"

text \<open>\<open>getParameter\<close>: a C string, or a null pointer.\<close>

definition get_parameter :: "http_request \<Rightarrow> string \<Rightarrow> string option" where
  "get_parameter rq name = map_option c_str (map_of (rq_parameters rq) name)"

text \<open>\<open>response.write\<close>: whether the reply got through.\<close>

definition write_reply :: "reply \<Rightarrow> ('k, 'z) os_scheme \<Rightarrow> (bool \<times> reply) \<times> ('k, 'z) os_scheme" where
  "write_reply r s = (case next_io s of (Done, s1) \<Rightarrow> ((True, r), s1) | (Fault _, s1) \<Rightarrow> ((False, r), s1))"

type_synonym 's handler = "http_request \<Rightarrow> 's \<Rightarrow> (bool \<times> reply) \<times> 's"

subsection \<open>The table of handlers\<close>

abbreviation (input) http_handler_get :: int where "http_handler_get \<equiv> 0"
abbreviation (input) http_handler_post :: int where "http_handler_post \<equiv> 1"
abbreviation (input) http_handler_head :: int where "http_handler_head \<equiv> 2"
abbreviation (input) http_handler_put :: int where "http_handler_put \<equiv> 3"
abbreviation (input) http_handler_patch :: int where "http_handler_patch \<equiv> 4"
abbreviation (input) http_handler_connect :: int where "http_handler_connect \<equiv> 5"
abbreviation (input) http_handler_purge :: int where "http_handler_purge \<equiv> 6"
abbreviation (input) http_handler_delete :: int where "http_handler_delete \<equiv> 7"
abbreviation (input) http_handler_options :: int where "http_handler_options \<equiv> 8"
abbreviation (input) http_handler_profind :: int where "http_handler_profind \<equiv> 9"
abbreviation (input) http_handler_websocket :: int where "http_handler_websocket \<equiv> 10"
abbreviation (input) http_handler_error :: int where "http_handler_error \<equiv> 11"
abbreviation (input) http_handler_unknown :: int where "http_handler_unknown \<equiv> 12"
abbreviation (input) http_handler_max :: int where "http_handler_max \<equiv> 13"

record 's http_service =
  handlers :: "(string \<times> 's handler) list list"
  handler_default :: "string \<Rightarrow> 's handler"

definition http_not_found :: "string \<Rightarrow> ('k, 'z) os_scheme handler" where
  "http_not_found path rq s =
     (let buf = ''404 '' @ path @ '' not found'' @ [CHR 13, newline] in
      case write_reply \<lparr>rp_status = 404, rp_type = [], rp_length = Some (int (length buf)),
                        rp_body = Text_body buf\<rparr> s of
        ((sent, r), s1) \<Rightarrow> ((sent \<and> rq_keep_alive rq, r), s1))"

definition new_http_service :: "('k, 'z) os_scheme http_service" where
  "new_http_service = \<lparr>handlers = replicate (nat http_handler_max) [], handler_default = http_not_found\<rparr>"

text \<open>The path as the table has it: with a slash at the end, in lower case.\<close>

definition normal_path :: "'k env \<Rightarrow> string \<Rightarrow> string" where
  "normal_path E path = acl_lower E (if last path \<noteq> CHR ''/'' then path @ ''/'' else path)"

text \<open>\<open>Service (type, path, fn)\<close>\<close>

definition add_service ::
  "'k env \<Rightarrow> int \<Rightarrow> string \<Rightarrow> 's handler \<Rightarrow> 's http_service \<Rightarrow> 's http_service" where
  "add_service E type path fn svc =
     (if type \<ge> http_handler_get \<and> type < http_handler_max \<and> path \<noteq> []
      then svc\<lparr>handlers := (handlers svc)[nat type :=
             map_put (acl_less E) (normal_path E path) fn (handlers svc ! nat type)]\<rparr>
      else svc)"

text \<open>
  The member functions a request of each method arrives at (\<open>http_servlet::doGet\<close> and so on) and is
  registered with (\<open>http_service::Get\<close> and so on): they pass their own number on. \<open>Do_other\<close> has the
  name of the method.
\<close>

datatype http_call =
  Do_get | Do_post | Do_head | Do_put | Do_patch | Do_connect | Do_purge | Do_delete | Do_options
| Do_propfind | Do_websocket | Do_unknown | Do_error
| Do_other string

fun handler_type :: "http_call \<Rightarrow> int" where
  "handler_type Do_get = http_handler_get"
| "handler_type Do_post = http_handler_post"
| "handler_type Do_head = http_handler_head"
| "handler_type Do_put = http_handler_put"
| "handler_type Do_patch = http_handler_patch"
| "handler_type Do_connect = http_handler_connect"
| "handler_type Do_purge = http_handler_purge"
| "handler_type Do_delete = http_handler_delete"
| "handler_type Do_options = http_handler_options"
| "handler_type Do_propfind = http_handler_profind"
| "handler_type Do_websocket = http_handler_websocket"
| "handler_type Do_unknown = http_handler_unknown"
| "handler_type Do_error = http_handler_error"
| "handler_type (Do_other name) = http_handler_max"

definition register_call ::
  "'k env \<Rightarrow> http_call \<Rightarrow> string \<Rightarrow> 's handler \<Rightarrow> 's http_service \<Rightarrow> 's http_service" where
  "register_call E call path fn svc = add_service E (handler_type call) path fn svc"

definition set_default :: "(string \<Rightarrow> 's handler) \<Rightarrow> 's http_service \<Rightarrow> 's http_service" where
  "set_default fn svc = svc\<lparr>handler_default := fn\<rparr>"

definition bad_request :: "reply" where
  "bad_request =
     (let buf = ''400 bad request'' @ [CHR 13, newline] in
      \<lparr>rp_status = 400, rp_type = [], rp_length = Some (int (length buf)), rp_body = Text_body buf\<rparr>)"

text \<open>
  \<open>http_service::doService\<close>. The results are whether the connection is kept and the reply, \<open>None\<close>
  when nothing is written.
\<close>

definition dispatch ::
  "'k env \<Rightarrow> ('k, 'z) os_scheme http_service \<Rightarrow> int \<Rightarrow> http_request \<Rightarrow> ('k, 'z) os_scheme
     \<Rightarrow> (bool \<times> reply option) \<times> ('k, 'z) os_scheme" where
  "dispatch E svc type rq s =
     (if type < http_handler_get \<or> type \<ge> http_handler_max then ((False, None), s)
      else
        let keep = rq_keep_alive rq in
        case rq_path rq of
          None \<Rightarrow> (case write_reply bad_request s of ((sent, r), s1) \<Rightarrow> ((sent \<and> keep, Some r), s1))
        | Some path \<Rightarrow>
            if path = []
            then (case write_reply bad_request s of ((sent, r), s1) \<Rightarrow> ((sent \<and> keep, Some r), s1))
            else
              let buf = normal_path E path in
              case map_find (handlers svc ! nat type) buf of
                Some fn \<Rightarrow> (case fn rq s of ((ok, r), s1) \<Rightarrow> ((ok \<and> keep, Some r), s1))
              | None \<Rightarrow> (case handler_default svc buf rq s of ((ok, r), s1) \<Rightarrow> ((ok \<and> keep, Some r), s1)))"

subsection \<open>The servlet\<close>

text \<open>\<open>strcasecmp\<close> in the C locale.\<close>

definition same_ignoring_case :: "string \<Rightarrow> string \<Rightarrow> bool" where
  "same_ignoring_case a b \<longleftrightarrow> map tolower a = map tolower b"

text \<open>
  \<open>http_servlet::doService\<close>; \<open>doGet\<close>, \<open>doPost\<close> and the others call it with their type. The interim
  reply to \<open>Expect: 100-continue\<close> is written first.
\<close>

definition servlet_do ::
  "'k env \<Rightarrow> ('k, 'z) os_scheme http_service \<Rightarrow> int \<Rightarrow> http_request \<Rightarrow> ('k, 'z) os_scheme
     \<Rightarrow> (bool \<times> reply option) \<times> ('k, 'z) os_scheme" where
  "servlet_do E svc type rq s =
     (case rq_expect rq of
        None \<Rightarrow> dispatch E svc type rq s
      | Some v \<Rightarrow>
          if same_ignoring_case v ''100-continue''
          then (case next_io s of
                  (Fault _, s1) \<Rightarrow> ((False, None), s1)
                | (Done, s1) \<Rightarrow> dispatch E svc type rq s1)
          else dispatch E svc type rq s)"

definition servlet_other ::
  "string \<Rightarrow> ('k, 'z) os_scheme \<Rightarrow> (bool \<times> reply option) \<times> ('k, 'z) os_scheme" where
  "servlet_other name s =
     (let q = [CHR 39];
          buf = ''<root error='' @ q @ ''unkown method '' @ name @ q @ '' />'' @ [CHR 13, newline] in
      ((False, Some \<lparr>rp_status = 400, rp_type = ''text/xml; charset=utf-8'', rp_length = None,
                      rp_body = Text_body buf\<rparr>),
       snd (next_io (snd (next_io s)))))"

definition servlet_call ::
  "'k env \<Rightarrow> ('k, 'z) os_scheme http_service \<Rightarrow> http_call \<Rightarrow> http_request \<Rightarrow> ('k, 'z) os_scheme
     \<Rightarrow> (bool \<times> reply option) \<times> ('k, 'z) os_scheme" where
  "servlet_call E svc call rq s =
     (case call of
        Do_other name \<Rightarrow> servlet_other name s
      | _ \<Rightarrow> servlet_do E svc (handler_type call) rq s)"

subsection \<open>A connection\<close>

text \<open>
  \<open>while (servlet.doRun ()) {}\<close>: the requests of the client in order, each handed to the function of its
  method, until one returns false or there are no more.
\<close>

fun serve_while :: "('q \<Rightarrow> 's \<Rightarrow> (bool \<times> 'r) \<times> 's) \<Rightarrow> 'q list \<Rightarrow> 's \<Rightarrow> 'r list \<times> 's" where
  "serve_while run [] s = ([], s)"
| "serve_while run (q # qs) s =
     (case run q s of
        ((keep, r), s1) \<Rightarrow>
          if keep then (case serve_while run qs s1 of (rs, s2) \<Rightarrow> (r # rs, s2)) else ([r], s1))"

text \<open>
  An invariant that every request keeps is kept by a connection, and the replies answer the first
  requests in order: what comes after a request that ends the connection has no effect.
\<close>

lemma serve_while_inv:
  assumes "serve_while run qs s = (rs, s')" and "P s"
    and "\<And>q t k r t'. run q t = ((k, r), t') \<Longrightarrow> q \<in> set qs \<Longrightarrow> P t \<Longrightarrow> P t'"
  shows "P s'"
  using assms
proof (induction qs arbitrary: s rs)
  case Nil
  then show ?case by simp
next
  case (Cons q qs)
  obtain k r s1 where q: "run q s = ((k, r), s1)" by (metis prod.exhaust)
  have "P s1" by (rule Cons.prems(3) [OF q]) (simp_all add: Cons.prems(2))
  then show ?case
    using Cons.prems(1,3) q Cons.IH [of s1] by (cases k) (auto split: prod.splits)
qed

lemma serve_while_prefix:
  assumes "serve_while run qs s = (rs, s')"
  shows "length rs \<le> length qs \<and> serve_while run (take (length rs) qs) s = (rs, s')"
  using assms
proof (induction qs arbitrary: s rs)
  case Nil
  then show ?case by simp
next
  case (Cons q qs)
  obtain k r s1 where q: "run q s = ((k, r), s1)" by (metis prod.exhaust)
  show ?case
  proof (cases k)
    case True
    obtain rs1 where r1: "serve_while run qs s1 = (rs1, s')" "rs = r # rs1"
      using Cons.prems q True by (auto split: prod.splits)
    then show ?thesis using Cons.IH [OF r1(1)] q True by simp
  next
    case False
    then show ?thesis using Cons.prems q by auto
  qed
qed

end
