(* ===== verification/Route_Service.thy ===== *)
theory Route_Service
  imports Route_Manager Domain_Manager Http_Service
begin

text \<open>
  The handlers of \<open>route_service.cpp\<close> and their registration. A handler checks the parameters of the
  request, calls \<open>route_manager\<close> or \<open>domain_manager\<close>, and writes one reply. A parameter is a C
  string or a null pointer (\<open>get_parameter\<close>).
\<close>

subsection \<open>Parameters\<close>

record config =
  cf_resolver :: resolver
  cf_dns_gate_http_addr :: "string option"
  cf_dns_gate_http_timeout :: int

abbreviation json_type :: string where
  "json_type \<equiv> ''application/json; charset=utf-8''"

text \<open>A parameter name in quotes, as the messages have it.\<close>

definition quoted :: "string \<Rightarrow> string" where
  "quoted t = [CHR 39] @ t @ [CHR 39]"

definition given :: "string option \<Rightarrow> bool" where
  "given v \<longleftrightarrow> v \<noteq> None \<and> v \<noteq> Some []"

definition optional :: "string \<Rightarrow> ('a \<Rightarrow> json) \<Rightarrow> 'a option \<Rightarrow> (string \<times> json) list" where
  "optional name f v = (case v of None \<Rightarrow> [] | Some x \<Rightarrow> [(name, f x)])"

text \<open>\<open>reply_json\<close>; a negative \<open>ttl\<close> or \<open>global_gateway_applied\<close> of the source is \<open>None\<close>.\<close>

definition reply_json ::
  "int \<Rightarrow> bool \<Rightarrow> string \<Rightarrow> string option \<Rightarrow> string option \<Rightarrow> string option \<Rightarrow> int option \<Rightarrow> bool option
     \<Rightarrow> ('k, 'z) os_scheme \<Rightarrow> (bool \<times> reply) \<times> ('k, 'z) os_scheme" where
  "reply_json status success message destination gateway key ttl applied =
     write_reply
       \<lparr>rp_status = status, rp_type = json_type, rp_length = None,
        rp_body = Json_body (JObject
          ([(''success'', JBool success), (''message'', JText message)]
            @ optional ''ip'' JText destination @ optional ''gateway'' JText gateway
            @ optional ''key'' JText key @ optional ''ttl'' JNumber ttl
            @ optional ''global_gateway_applied'' JBool applied))\<rparr>"

abbreviation reply_error ::
  "int \<Rightarrow> string \<Rightarrow> ('k, 'z) os_scheme \<Rightarrow> (bool \<times> reply) \<times> ('k, 'z) os_scheme" where
  "reply_error status message \<equiv> reply_json status False message None None None None None"

definition reply_object ::
  "int \<Rightarrow> (string \<times> json) list \<Rightarrow> ('k, 'z) os_scheme \<Rightarrow> (bool \<times> reply) \<times> ('k, 'z) os_scheme" where
  "reply_object status members =
     write_reply \<lparr>rp_status = status, rp_type = json_type, rp_length = None,
                  rp_body = Json_body (JObject members)\<rparr>"

definition valid_route_key :: "string option \<Rightarrow> bool" where
  "valid_route_key key =
     (case key of
        None \<Rightarrow> True
      | Some k \<Rightarrow> k = [] \<or> (length k \<le> 256 \<and> (\<forall>c\<in>set k. \<not> (byte c < 32 \<or> byte c = 127))))"

definition parse_ttl :: "http_request \<Rightarrow> string + int" where
  "parse_ttl rq =
     (case get_parameter rq ''ttl'' of
        None \<Rightarrow> Inr 0
      | Some value \<Rightarrow>
          if value = [] then Inr 0
          else (case strtoll_all value of
                  None \<Rightarrow> Inl (''parameter '' @ quoted ''ttl'' @ '' must be an integer number of seconds'')
                | Some parsed \<Rightarrow> Inr (if parsed > 0 then parsed else 0)))"

definition parameter :: "http_request \<Rightarrow> string \<Rightarrow> string \<Rightarrow> string option" where
  "parameter rq primary alias =
     (let value = get_parameter rq primary in if given value then value else get_parameter rq alias)"

definition get_route_key :: "http_request \<Rightarrow> string option" where
  "get_route_key rq = parameter rq ''key'' ''domain''"

definition parse_boolean :: "string option \<Rightarrow> bool option" where
  "parse_boolean value =
     (let normalized = map tolower (case value of None \<Rightarrow> [] | Some v \<Rightarrow> v) in
      if normalized = [] \<or> normalized = ''0'' \<or> normalized = ''false'' \<or> normalized = ''no''
         \<or> normalized = ''off'' then Some False
      else if normalized = ''1'' \<or> normalized = ''true'' \<or> normalized = ''yes'' \<or> normalized = ''on''
      then Some True
      else None)"

text \<open>The gateway of an addition, and whether it is the global one.\<close>

definition resolve_add_gateway ::
  "'k env \<Rightarrow> http_request \<Rightarrow> ('k, 'z) rm_s \<Rightarrow> string + string \<times> bool" where
  "resolve_add_gateway E rq s =
     (let requested = parameter rq ''gateway'' ''route'';
          (configured, force) = get_global_route s in
      if configured \<noteq> [] \<and> (force \<or> \<not> given requested) then Inr (c_str configured, True)
      else if \<not> valid_ipv4 E requested
      then Inl (if \<not> given requested
                then ''parameter '' @ quoted ''gateway'' @ '' is required when no global gateway is configured''
                else ''parameter '' @ quoted ''gateway'' @ '' must be a valid IPv4 address'')
      else Inr (the requested, False))"

abbreviation bad_ip :: string where
  "bad_ip \<equiv> ''parameter '' @ quoted ''ip'' @ '' must be a valid IPv4 address''"

abbreviation bad_gateway :: string where
  "bad_gateway \<equiv> ''parameter '' @ quoted ''gateway'' @ '' must be a valid IPv4 address''"

abbreviation no_key :: string where
  "no_key \<equiv> ''parameter '' @ quoted ''key'' @ '' is required''"

abbreviation bad_key :: string where
  "bad_key \<equiv> ''parameter '' @ quoted ''key'' @ '' is too long or contains control characters''"

subsection \<open>Adding routes\<close>

text \<open>
  \<open>change_route\<close> for one address. \<open>adding\<close> is its parameter \<open>add\<close>; the gateway is the resolved one
  when adding, the requested one otherwise.
\<close>

definition change_route ::
  "'k env \<Rightarrow> bool \<Rightarrow> ('k, 'z) rm_s handler" where
  "change_route E adding rq s =
     (let destination = parameter rq ''ip'' ''target'';
          requested_gateway = parameter rq ''gateway'' ''route'';
          key = get_route_key rq in
      if \<not> valid_ipv4 E destination then reply_error 400 bad_ip s
      else
        case (if adding then resolve_add_gateway E rq s
              else if valid_ipv4 E requested_gateway then Inr (the requested_gateway, False)
              else Inl bad_gateway) of
          Inl e \<Rightarrow> reply_error 400 e s
        | Inr (gateway, applied) \<Rightarrow>
            if \<not> given key then reply_error 400 no_key s
            else if \<not> valid_route_key key then reply_error 400 bad_key s
            else
              case (if adding then parse_ttl rq else Inr 0) of
                Inl e \<Rightarrow> reply_error 400 e s
              | Inr ttl \<Rightarrow>
                  (case (if adding then add_route E (the destination) gateway (the key) ttl s
                         else remove_route E (the key) (the destination) gateway s) of
                     (Inl e, s1) \<Rightarrow> reply_json 500 False e destination (Some gateway) key None None s1
                   | (Inr _, s1) \<Rightarrow>
                       reply_json 200 True (if adding then ''route added'' else ''route deleted'')
                         destination (Some gateway) key (if adding then Some ttl else None)
                         (if adding then Some applied else None) s1))"

definition separators :: string where
  "separators = '',; '' @ [tab, CHR 13, newline]"

text \<open>The loop over the addresses: one result each, in order.\<close>

fun add_all ::
  "'k env \<Rightarrow> string \<Rightarrow> string \<Rightarrow> int \<Rightarrow> string list \<Rightarrow> ('k, 'z) rm_s \<Rightarrow> (string \<times> (string + unit)) list \<times> ('k, 'z) rm_s" where
  "add_all E gateway key ttl [] s = ([], s)"
| "add_all E gateway key ttl (d # ds) s =
     (case add_route E (c_str d) gateway key ttl s of
        (r, s1) \<Rightarrow> (case add_all E gateway key ttl ds s1 of (rs, s2) \<Rightarrow> ((d, r) # rs, s2)))"

definition result_message :: "string \<Rightarrow> string + unit \<Rightarrow> string" where
  "result_message good r = (case r of Inl e \<Rightarrow> e | Inr _ \<Rightarrow> good)"

definition count_ok :: "('a \<times> (string + unit)) list \<Rightarrow> nat" where
  "count_ok rs = length (filter (\<lambda>(_, r). succeeds r) rs)"

text \<open>200 when everything succeeded, 500 when nothing did, 207 otherwise.\<close>

definition bulk_status :: "nat \<Rightarrow> nat \<Rightarrow> int" where
  "bulk_status count succeeded = (if succeeded = count then 200 else if succeeded = 0 then 500 else 207)"

definition route_add :: "'k env \<Rightarrow> ('k, 'z) rm_s handler" where
  "route_add E rq s =
     (if \<not> given (get_parameter rq ''ips'') then change_route E True rq s
      else
        case resolve_add_gateway E rq s of
          Inl e \<Rightarrow> reply_error 400 e s
        | Inr (gateway, applied) \<Rightarrow>
            let key = get_route_key rq in
            if \<not> given key then reply_error 400 no_key s
            else if \<not> valid_route_key key then reply_error 400 bad_key s
            else
              case parse_ttl rq of
                Inl e \<Rightarrow> reply_error 400 e s
              | Inr ttl \<Rightarrow>
                  let tokens = acl_split2 E (the (get_parameter rq ''ips'')) separators in
                  if tokens = [] \<or> length tokens > 256
                  then reply_error 400 (''parameter '' @ quoted ''ips'' @ '' must contain between 1 and 256 IPv4 addresses'') s
                  else case find (\<lambda>t. \<not> valid_ipv4 E (Some (c_str t))) tokens of
                    Some t \<Rightarrow> reply_error 400 (''invalid IPv4 address in '' @ quoted ''ips'' @ '': '' @ c_str t) s
                  | None \<Rightarrow>
                      let destinations = unique_from [] tokens in
                      case add_all E gateway (the key) ttl destinations s of
                        (results, s1) \<Rightarrow>
                          let succeeded = count_ok results;
                              all = (succeeded = length destinations) in
                          reply_object (bulk_status (length destinations) succeeded)
                            [(''success'', JBool all),
                             (''message'', JText (if all then ''all routes added'' else ''one or more routes failed'')),
                             (''gateway'', JText gateway),
                             (''global_gateway_applied'', JBool applied),
                             (''key'', JText (the key)),
                             (''ttl'', JNumber ttl),
                             (''count'', JNumber (int (length destinations))),
                             (''succeeded'', JNumber (int succeeded)),
                             (''routes'', JArray (map (\<lambda>(d, r). JObject
                                [(''ip'', JText (c_str d)), (''success'', JBool (succeeds r)),
                                 (''message'', JText (result_message ''route added'' r))]) results))] s1)"

subsection \<open>Deleting routes\<close>

text \<open>The pairs of group key and target that the request selects, in the order of the listing.\<close>

definition selected ::
  "string option \<Rightarrow> string option \<Rightarrow> route_entry list \<Rightarrow> (string \<times> route_target) list" where
  "selected key destination groups =
     concat (map (\<lambda>g. if given key \<and> Some (re_key g) \<noteq> key then []
                      else map (\<lambda>t. (re_key g, t))
                             (filter (\<lambda>t. \<not> given destination \<or> Some (rt_ip t) = destination) (re_targets g)))
            groups)"

text \<open>
  The loop over them; \<open>deleted\<close> is \<open>deleted_system_routes\<close>, whose elements the source formats as
  \<open>"%s\n%s"\<close>.
\<close>

fun delete_all ::
  "'k env \<Rightarrow> string list \<Rightarrow> (string \<times> route_target) list \<Rightarrow> ('k, 'z) rm_s
     \<Rightarrow> ((string \<times> route_target) \<times> (string + unit)) list \<times> ('k, 'z) rm_s" where
  "delete_all E deleted [] s = ([], s)"
| "delete_all E deleted ((k, t) # ts) s =
     (let route_id = rt_ip t @ newline # rt_gateway t in
      case (if route_id \<in> set deleted then (Inr (), s) else remove_route E k (rt_ip t) (rt_gateway t) s) of
        (r, s1) \<Rightarrow>
          (case delete_all E (if succeeds r then route_id # deleted else deleted) ts s1 of
             (rs, s2) \<Rightarrow> (((k, t), r) # rs, s2)))"

definition route_delete :: "'k env \<Rightarrow> ('k, 'z) rm_s handler" where
  "route_delete E rq s =
     (let key = get_route_key rq;
          destination = parameter rq ''ip'' ''target'' in
      if \<not> given key \<and> \<not> given destination
      then reply_error 400 (''at least one of '' @ quoted ''key'' @ '' or '' @ quoted ''ip'' @ '' is required'') s
      else if given key \<and> \<not> valid_route_key key then reply_error 400 bad_key s
      else if given destination \<and> \<not> valid_ipv4 E destination then reply_error 400 bad_ip s
      else
        case delete_all E [] (selected key destination (list_routes s)) s of
          (results, s1) \<Rightarrow>
            let matched = length results;
                succeeded = count_ok results;
                members = (\<lambda>good message.
                  [(''success'', JBool good), (''message'', JText message),
                   (''count'', JNumber (int matched)), (''succeeded'', JNumber (int succeeded)),
                   (''routes'', JArray (map (\<lambda>((k, t), r). JObject
                      [(''key'', JText k), (''ip'', JText (rt_ip t)), (''gateway'', JText (rt_gateway t)),
                       (''success'', JBool (succeeds r)),
                       (''message'', JText (result_message ''route deleted'' r))]) results))]) in
            if matched = 0 then reply_object 404 (members False ''no matching routes found'') s1
            else if matched = succeeded
            then reply_object (bulk_status matched succeeded) (members True ''all matching routes deleted'') s1
            else reply_object (bulk_status matched succeeded) (members False ''one or more routes failed'') s1)"

definition system_route_delete :: "'k env \<Rightarrow> ('k, 'z) rm_s handler" where
  "system_route_delete E rq s =
     (let destination = parameter rq ''ip'' ''target'';
          gateway = parameter rq ''gateway'' ''route'' in
      if \<not> valid_ipv4 E destination then reply_error 400 bad_ip s
      else if \<not> valid_ipv4 E gateway then reply_error 400 bad_gateway s
      else
        case remove_system E (the destination) (the gateway) s of
          (Inl e, s1) \<Rightarrow> reply_json 500 False e destination gateway None None None s1
        | (Inr _, s1) \<Rightarrow> reply_json 200 True ''system route deleted'' destination gateway None None None s1)"

subsection \<open>The global settings\<close>

definition write_route_settings ::
  "string \<Rightarrow> ('k, 'z) rm_s \<Rightarrow> (bool \<times> reply) \<times> ('k, 'z) rm_s" where
  "write_route_settings message s =
     (let (gateway, force) = get_global_route s in
      reply_object 200
        [(''success'', JBool True), (''message'', JText message), (''enabled'', JBool (gateway \<noteq> [])),
         (''gateway'', JText (c_str gateway)), (''force'', JBool force)] s)"

definition route_settings_get :: "('k, 'z) rm_s handler" where
  "route_settings_get rq s = write_route_settings ''global route settings loaded'' s"

definition route_settings_set :: "'k env \<Rightarrow> ('k, 'z) rm_s handler" where
  "route_settings_set E rq s =
     (let gateway = parameter rq ''gateway'' ''route'' in
      if \<not> valid_ipv4 E gateway then reply_error 400 bad_gateway s
      else
        case parse_boolean (get_parameter rq ''force'') of
          None \<Rightarrow> reply_error 400 (''parameter '' @ quoted ''force'' @ '' must be a boolean value'') s
        | Some force \<Rightarrow>
            (case set_global_route E gateway force s of
               (Inl e, s1) \<Rightarrow> reply_error 500 e s1
             | (Inr _, s1) \<Rightarrow> write_route_settings ''global route settings saved'' s1))"

definition route_settings_delete :: "'k env \<Rightarrow> ('k, 'z) rm_s handler" where
  "route_settings_delete E rq s =
     (case set_global_route E (Some []) False s of
        (Inl e, s1) \<Rightarrow> reply_error 500 e s1
      | (Inr _, s1) \<Rightarrow> write_route_settings ''global route settings cleared'' s1)"

definition health :: "('k, 'z) rm_s handler" where
  "health rq = reply_json 200 True ''ok'' None None None None None"

subsection \<open>Domains\<close>

text \<open>The loop over the tokens: the first error, or the normalised names without repetitions.\<close>

fun normalize_all :: "string list \<Rightarrow> string + string list" where
  "normalize_all [] = Inr []"
| "normalize_all (t # ts) =
     (case valid_domain (Some (c_str t)) of
        Inl e \<Rightarrow> Inl e
      | Inr d \<Rightarrow> (case normalize_all ts of Inl e \<Rightarrow> Inl e | Inr ds \<Rightarrow> Inr (d # ds)))"

definition collect_domains :: "'k env \<Rightarrow> http_request \<Rightarrow> string + string list" where
  "collect_domains E rq =
     (let values = parameter rq ''domains'' ''domain'' in
      if \<not> given values then Inl (''parameter '' @ quoted ''domains'' @ '' is required'')
      else
        let tokens = acl_split2 E (the values) separators in
        if tokens = [] \<or> length tokens > 4096
        then Inl (''parameter '' @ quoted ''domains'' @ '' must contain between 1 and 4096 domains'')
        else map_sum id (unique_from []) (normalize_all tokens))"

fun change_domains ::
  "'k env \<Rightarrow> resolver \<Rightarrow> bool \<Rightarrow> string list \<Rightarrow> ('k, 'z) os_scheme
     \<Rightarrow> (string \<times> (string + unit)) list \<times> ('k, 'z) os_scheme" where
  "change_domains E cfg adding [] s = ([], s)"
| "change_domains E cfg adding (d # ds) s =
     (case (if adding then add_domain E cfg (Some d) s else remove_domain E cfg (Some d) s) of
        (r, s1) \<Rightarrow> (case change_domains E cfg adding ds s1 of (rs, s2) \<Rightarrow> ((d, r) # rs, s2)))"

definition domain_change :: "'k env \<Rightarrow> config \<Rightarrow> bool \<Rightarrow> ('k, 'z) rm_s handler" where
  "domain_change E cf adding rq s =
     (case collect_domains E rq of
        Inl e \<Rightarrow> reply_error 400 e s
      | Inr domains \<Rightarrow>
          (case change_domains E (cf_resolver cf) adding domains s of
             (results, s1) \<Rightarrow>
               let succeeded = count_ok results;
                   all = (succeeded = length domains) in
               case (if succeeded > 0 then refresh_system E s1 else (Inr (), s1)) of
                 (refreshed, s2) \<Rightarrow>
                   reply_object (bulk_status (length domains) succeeded)
                     ([(''success'', JBool all),
                       (''message'', JText (if all then (if adding then ''all domains added'' else ''all domains deleted'')
                                            else ''one or more domains failed'')),
                       (''count'', JNumber (int (length domains))),
                       (''succeeded'', JNumber (int succeeded)),
                       (''system_refreshed'', JBool (succeeds refreshed)),
                       (''domains'', JArray (map (\<lambda>(d, r). JObject
                          [(''domain'', JText d), (''success'', JBool (succeeds r)),
                           (''message'', JText (result_message
                              (if adding then ''domain added'' else ''domain deleted'') r))]) results))]
                      @ (case refreshed of Inl e \<Rightarrow> [(''refresh_error'', JText e)] | Inr _ \<Rightarrow> [])) s2))"

definition domain_list :: "'k env \<Rightarrow> config \<Rightarrow> ('k, 'z) rm_s handler" where
  "domain_list E cf rq s =
     (case list_domains E (cf_resolver cf) s of
        (Inl e, s1) \<Rightarrow> reply_error 500 e s1
      | (Inr domains, s1) \<Rightarrow>
          reply_object 200
            [(''success'', JBool True), (''count'', JNumber (int (length domains))),
             (''domains'', JArray (map (\<lambda>d. JObject
                [(''domain'', JText (de_domain d)), (''created_at'', JNumber (de_created_at d))]) domains))] s1)"

subsection \<open>Lists and pages\<close>

definition tld_file :: string where
  "tld_file = ''html/tlds-alpha-by-domain.txt''"

text \<open>The reading loop; the results are the version and the names.\<close>

fun tld_loop :: "string \<Rightarrow> string list \<Rightarrow> string \<times> string list" where
  "tld_loop version [] = (version, [])"
| "tld_loop version (l0 # ls) =
     (let l = (if l0 \<noteq> [] \<and> last l0 = CHR 13 then butlast l0 else l0) in
      if l = [] then tld_loop version ls
      else if hd l = CHR ''#''
      then tld_loop (if version = [] then (if length l > 2 then drop 2 l else l) else version) ls
      else case tld_loop version ls of (v, names) \<Rightarrow> (v, map tolower l # names))"

definition tld_list :: "('k, 'z) rm_s handler" where
  "tld_list rq s =
     (case open_in tld_file s of
        (Inl _, s1) \<Rightarrow> reply_error 500 (''failed to load '' @ tld_file) s1
      | (Inr _, s1) \<Rightarrow>
          (case read_lines tld_file s1 of
             ((ls, complete), s2) \<Rightarrow>
               if \<not> complete then reply_error 500 ''read IANA TLD list failed'' s2
               else
                 let (version, names) = tld_loop [] ls in
                 reply_object 200
                   [(''success'', JBool True), (''version'', JText (c_str version)),
                    (''count'', JNumber (int (length names))),
                    (''tlds'', JArray (map (\<lambda>n. JObject [(''name'', JText (c_str n))]) names))] s2))"

definition load_html_template :: "('k, 'z) os_scheme \<Rightarrow> string option \<times> ('k, 'z) os_scheme" where
  "load_html_template s =
     (case open_in ''html/index.html'' s of
        (Inl _, s1) \<Rightarrow> (None, s1)
      | (Inr _, s1) \<Rightarrow> (case read_all ''html/index.html'' s1 of (content, s2) \<Rightarrow> (Some content, s2)))"

definition route_page :: "('k, 'z) rm_s handler" where
  "route_page rq s =
     (case load_html_template s of
        (None, s1) \<Rightarrow> reply_error 500 ''failed to load html/index.html'' s1
      | (Some page, s1) \<Rightarrow>
          write_reply \<lparr>rp_status = 200, rp_type = ''text/html; charset=utf-8'',
                       rp_length = Some (int (length (c_str page))), rp_body = Text_body (c_str page)\<rparr> s1)"

definition route_list :: "('k, 'z) rm_s handler" where
  "route_list rq s =
     (let routes = list_routes s in
      reply_object 200
        [(''success'', JBool True), (''count'', JNumber (int (length routes))),
         (''routes'', JArray (map (\<lambda>g. JObject
            [(''key'', JText (re_key g)), (''count'', JNumber (int (length (re_targets g)))),
             (''ips'', JArray (map (\<lambda>t. JObject
                [(''ip'', JText (rt_ip t)), (''gateway'', JText (rt_gateway t)),
                 (''ttl'', JNumber (rt_ttl t)), (''expires_at'', JNumber (rt_expires_at t))])
                (re_targets g)))]) routes))] s)"

definition system_route_list :: "'k env \<Rightarrow> ('k, 'z) rm_s handler" where
  "system_route_list E rq s =
     (case list_system E s of
        (Inl e, s1) \<Rightarrow> reply_error 500 e s1
      | (Inr routes, s1) \<Rightarrow>
          reply_object 200
            [(''success'', JBool True), (''count'', JNumber (int (length routes))),
             (''routes'', JArray (map (\<lambda>r. JObject
                [(''ip'', JText (sr_ip r)), (''gateway'', JText (sr_gateway r)),
                 (''interface'', JText (sr_interface r))]) routes))] s1)"

subsection \<open>The lookup through dns-gate\<close>

definition dns_domain_lookup :: "'k env \<Rightarrow> config \<Rightarrow> ('k, 'z) rm_s handler" where
  "dns_domain_lookup E cf rq s =
     (let domain = get_parameter rq ''domain'' in
      if \<not> given domain \<or> length (the domain) > 253
      then reply_error 400 (''parameter '' @ quoted ''domain'' @ '' is required and must not exceed 253 bytes'') s
      else if \<not> given (cf_dns_gate_http_addr cf)
      then reply_error 503 ''dns_gate_http_addr is not configured'' s
      else
        let addr = the (cf_dns_gate_http_addr cf) in
        case acl_get E addr (cf_dns_gate_http_timeout cf)
               (''/lookup?domain='' @ acl_url_encode E (the domain)) (kernel s) of
          Unreachable e \<Rightarrow>
            reply_error 502 (''connect to dns-gate HTTP service '' @ addr @ '' failed: '' @ e) s
        | Response status None \<Rightarrow> reply_error 502 ''failed to read dns-gate HTTP response'' s
        | Response status (Some text) \<Rightarrow>
            write_reply \<lparr>rp_status = (if status > 0 then status else 502), rp_type = json_type,
                         rp_length = Some (int (length text)), rp_body = Text_body text\<rparr> s)"

subsection \<open>Registration\<close>

definition registrations :: "'k env \<Rightarrow> config \<Rightarrow> (int \<times> string \<times> ('k, 'z) rm_s handler) list" where
  "registrations E cf =
     [(http_handler_get, ''/'', route_page),
      (http_handler_get, ''/health'', health),
      (http_handler_get, ''/route-settings'', route_settings_get),
      (http_handler_get, ''/domains'', domain_list E cf),
      (http_handler_get, ''/tlds'', tld_list),
      (http_handler_get, ''/routes'', route_list),
      (http_handler_get, ''/system-routes'', system_route_list E),
      (http_handler_get, ''/dns-lookup'', dns_domain_lookup E cf),
      (http_handler_post, ''/route'', route_add E),
      (http_handler_post, ''/route-settings'', route_settings_set E),
      (http_handler_post, ''/domain'', domain_change E cf True),
      (http_handler_delete, ''/route'', route_delete E),
      (http_handler_delete, ''/route-settings'', route_settings_delete E),
      (http_handler_delete, ''/domain'', domain_change E cf False),
      (http_handler_delete, ''/system-route'', system_route_delete E)]"

definition register_route_service ::
  "'k env \<Rightarrow> config \<Rightarrow> ('k, 'z) rm_s http_service \<Rightarrow> ('k, 'z) rm_s http_service" where
  "register_route_service E cf svc =
     fold (\<lambda>(type, path, fn). add_service E type path fn) (registrations E cf) svc"

text \<open>The service \<open>main\<close> builds, and what it does with a request of a given type.\<close>

definition ip_router :: "'k env \<Rightarrow> config \<Rightarrow> ('k, 'z) rm_s http_service" where
  "ip_router E cf = register_route_service E cf new_http_service"

end
