(* ===== verification/Route_Recovery.thy ===== *)
theory Route_Recovery
  imports Route_Manager
begin

text \<open>
  Restart: what \<open>save_routes_locked\<close> and \<open>save_global_route_locked\<close> wrote, the loaders read back.
  The lemmas follow the loader: the lines parse to the entries (\<open>route_codec\<close>), the restore loop
  installs each of them, and installing them in order rebuilds the table.
\<close>

subsection \<open>Reading back what was written\<close>

lemma routes_text_entries:
  "routes_text m = routes_header @ newline # concat (map (\<lambda>e. entry_line e @ [newline]) (entries m))"
proof -
  have "concat (map (\<lambda>(d, md). route_line k d md @ [newline]) g) =
        concat (map (\<lambda>e. entry_line e @ [newline]) (map (\<lambda>(d, md). (k, d, md)) g))" for k g
    by (induction g) (auto simp: entry_line_def)
  then have "concat (map (\<lambda>(k, g). concat (map (\<lambda>(d, md). route_line k d md @ [newline]) g)) m) =
        concat (map (\<lambda>e. entry_line e @ [newline]) (entries m))"
    by (induction m) auto
  then show ?thesis by (simp add: routes_text_def)
qed

definition entries_ok :: "'k env \<Rightarrow> routes \<Rightarrow> bool" where
  "entries_ok E m \<longleftrightarrow> (\<forall>e\<in>set (entries m). entry_ok E e)"

lemma parse_lines_entries:
  assumes "\<forall>e\<in>set es. entry_ok E e"
  shows "parse_lines E False (map entry_line es) = map saved_of es"
  using assms
proof (induction es)
  case Nil
  then show ?case by simp
next
  case (Cons e es)
  then have "entry_line e \<noteq> []" and "parse_saved_route E (entry_line e) = Some (saved_of e)"
    using route_codec.not_empty route_codec.parse_print by fastforce+
  with Cons show ?case by simp
qed

lemma parse_routes_text:
  assumes "entries_ok E m"
  shows "parse_lines E True (getlines (routes_text m)) = map saved_of (entries m)"
proof -
  have "getlines (routes_text m) = routes_header # map entry_line (entries m)"
    unfolding routes_text_entries
    by (rule route_codec.lines_of_file) (use assms in \<open>auto simp: entries_ok_def\<close>)
  then show ?thesis using assms by (simp add: parse_lines_entries entries_ok_def)
qed

subsection \<open>The restore loop\<close>

text \<open>\<open>rs_failed\<close> never goes back to false.\<close>

lemma restore_one_failed: "restore_one E now r l s = (l', s') \<Longrightarrow> rs_failed l \<Longrightarrow> rs_failed l'"
  by (auto simp: restore_one_def split: if_splits option.splits prod.splits sum.splits)

lemma restore_routes_failed:
  "restore_routes E now rs l s = (l', s') \<Longrightarrow> rs_failed l \<Longrightarrow> rs_failed l'"
  by (induction E now rs l s rule: restore_routes.induct) (auto split: prod.splits dest: restore_one_failed)

text \<open>The loader leaves everything but the table, the script, the kernel and the counter alone.\<close>

definition load_frame :: "('k, 'z) rm_s \<Rightarrow> ('k, 'z) rm_s \<Rightarrow> bool" where
  "load_frame s s' \<longleftrightarrow>
     s' = s\<lparr>script := script s', kernel := kernel s', route_sequence := route_sequence s',
           installed_routes := installed_routes s'\<rparr>"

lemma load_frameE [elim]:
  assumes "load_frame s s'"
  obtains sc k q m where
    "s' = s\<lparr>script := sc, kernel := k, route_sequence := q, installed_routes := m\<rparr>"
  using assms unfolding load_frame_def by blast

lemma load_frame_refl: "load_frame s s"
  by (simp add: load_frame_def)

lemma load_frame_trans: "load_frame s t \<Longrightarrow> load_frame t u \<Longrightarrow> load_frame s u"
  by (elim load_frameE) (simp add: load_frame_def)

lemma net_frameE [elim]:
  assumes "net_frame s s'"
  obtains sc k q where "s' = s\<lparr>script := sc, kernel := k, route_sequence := q\<rparr>"
  using assms unfolding net_frame_def by blast

lemma load_frame_net: "net_frame s s' \<Longrightarrow> load_frame (s :: ('k, 'z) rm_s) s'"
  by (elim net_frameE) (simp add: load_frame_def)

lemma load_frame_install: "load_frame s (install_saved E r s)"
  by (simp add: load_frame_def install_saved_def)

lemma restore_one_frame: "restore_one E now r l s = (l', s') \<Longrightarrow> load_frame s s'"
  by (auto simp: restore_one_def split: if_splits option.splits prod.splits sum.splits
      intro: load_frame_refl load_frame_install load_frame_net add_system_route_frame
        load_frame_trans [OF load_frame_net [OF add_system_route_frame] load_frame_install])

lemma restore_routes_frame: "restore_routes E now rs l s = (l', s') \<Longrightarrow> load_frame s s'"
  by (induction E now rs l s rule: restore_routes.induct)
    (auto split: prod.splits intro: load_frame_refl load_frame_trans dest: restore_one_frame)

lemma clean_expired_frame: "net_frame s (clean_expired E active ids s)"
proof (induction E active ids s rule: clean_expired.induct)
  case (1 E active s)
  then show ?case by (simp add: net_frame_refl)
next
  case (2 E active i ids s)
  have del: "net_frame s (snd (delete_system_route E d g s))" for d g
    by (rule delete_system_route_frame) (rule surjective_pairing)
  show ?case
  proof (cases "map_find active (takeWhile (\<lambda>c. c \<noteq> newline) i) = None")
    case True
    then show ?thesis
      using net_frame_trans [OF del "2.IH"(2) [OF refl refl]] by (simp add: Let_def)
  next
    case False
    then show ?thesis using "2.IH"(1) [OF refl refl] by (simp add: Let_def)
  qed
qed

text \<open>
  One record: nothing has expired, and the active gateway of its address, if any, is the record's.
  Then it is installed, unless the system refuses.
\<close>

lemma restore_one_installs:
  assumes "\<not> is_expired now r"
    and "\<forall>gw. map_find (rs_active l) (sv_ip r) = Some gw \<longrightarrow> gw = sv_gateway r"
    and "restore_one E now r l s = (l', s')" and "\<not> rs_failed l'"
  shows "installed_routes s' =
      put_route (acl_less E) (c_str (sv_key r)) (c_str (sv_ip r)) (restored_metadata r) (installed_routes s)"
    and "rs_expired l' = rs_expired l"
    and "map_find (rs_active l') = (map_find (rs_active l))(sv_ip r \<mapsto> sv_gateway r)"
proof -
  have frame: "installed_routes s1 = installed_routes s"
    if "add_system_route E d g s = (x, s1)" for x d g s1
    using add_system_route_frame [OF that] by auto
  have "installed_routes s' =
      put_route (acl_less E) (c_str (sv_key r)) (c_str (sv_ip r)) (restored_metadata r) (installed_routes s) \<and>
    rs_expired l' = rs_expired l \<and>
    map_find (rs_active l') = (map_find (rs_active l))(sv_ip r \<mapsto> sv_gateway r)"
  proof (cases "map_find (rs_active l) (sv_ip r)")
    case (Some gw)
    with assms(2) have "gw = sv_gateway r" by simp
    with assms(1,3) Some have "l' = l" "s' = install_saved E r s"
      by (simp_all add: restore_one_def)
    with Some \<open>gw = sv_gateway r\<close> show ?thesis
      by (simp add: install_saved_def fun_upd_idem)
  next
    case None
    obtain x s1 where x: "add_system_route E (c_str (sv_ip r)) (c_str (sv_gateway r)) s = (x, s1)" by fastforce
    show ?thesis
    proof (cases x)
      case (Inl e)
      with assms(1,3,4) None x show ?thesis by (auto simp: restore_one_def)
    next
      case (Inr u)
      with assms(1,3) None x have "l' = l\<lparr>rs_active := map_put string_less (sv_ip r) (sv_gateway r) (rs_active l)\<rparr>"
        "s' = install_saved E r s1" by (simp_all add: restore_one_def)
      then show ?thesis using frame [OF x] by (simp add: install_saved_def map_find_put)
    qed
  qed
  then show "installed_routes s' =
      put_route (acl_less E) (c_str (sv_key r)) (c_str (sv_ip r)) (restored_metadata r) (installed_routes s)"
    and "rs_expired l' = rs_expired l"
    and "map_find (rs_active l') = (map_find (rs_active l))(sv_ip r \<mapsto> sv_gateway r)"
    by simp_all
qed

text \<open>\<open>f\<close> gives the one gateway of each address.\<close>

lemma restore_routes_installs:
  assumes "\<forall>r\<in>set rs. \<not> is_expired now r"
    and "\<forall>r\<in>set rs. f (sv_ip r) = sv_gateway r"
    and "\<forall>ip gw. map_find (rs_active l) ip = Some gw \<longrightarrow> f ip = gw"
    and "restore_routes E now rs l s = (l', s')" and "\<not> rs_failed l'"
  shows "installed_routes s' =
      fold (\<lambda>r. put_route (acl_less E) (c_str (sv_key r)) (c_str (sv_ip r)) (restored_metadata r)) rs
        (installed_routes s) \<and> rs_expired l' = rs_expired l"
  using assms
proof (induction E now rs l s rule: restore_routes.induct)
  case (1 E now l s)
  then show ?case by simp
next
  case (2 E now r rs l s)
  obtain l1 s1 where one: "restore_one E now r l s = (l1, s1)" by fastforce
  then have rest: "restore_routes E now rs l1 s1 = (l', s')" using "2.prems"(4) by simp
  have "\<not> rs_failed l1" using restore_routes_failed [OF rest] "2.prems"(5) by blast
  moreover have "\<not> is_expired now r" using "2.prems"(1) by simp
  moreover have "\<forall>gw. map_find (rs_active l) (sv_ip r) = Some gw \<longrightarrow> gw = sv_gateway r"
    using "2.prems"(2,3) by force
  ultimately have inst1: "installed_routes s1 =
      put_route (acl_less E) (c_str (sv_key r)) (c_str (sv_ip r)) (restored_metadata r) (installed_routes s)"
    and exp1: "rs_expired l1 = rs_expired l"
    and act1: "map_find (rs_active l1) = (map_find (rs_active l))(sv_ip r \<mapsto> sv_gateway r)"
    using restore_one_installs [OF _ _ one] by blast+
  have "\<forall>ip gw. map_find (rs_active l1) ip = Some gw \<longrightarrow> f ip = gw"
    using "2.prems"(2,3) by (auto simp: act1)
  moreover have "\<forall>r'\<in>set rs. \<not> is_expired now r'" and "\<forall>r\<in>set rs. f (sv_ip r) = sv_gateway r"
    using "2.prems"(1,2) by simp_all
  ultimately have "installed_routes s' =
      fold (\<lambda>r. put_route (acl_less E) (c_str (sv_key r)) (c_str (sv_ip r)) (restored_metadata r)) rs
        (installed_routes s1) \<and> rs_expired l' = rs_expired l1"
    using "2.IH" [OF one [symmetric]] rest "2.prems"(5) by blast
  then show ?case by (simp add: inst1 exp1)
qed

subsection \<open>A restart\<close>

lemma fold_saved_entries:
  assumes "\<forall>e\<in>set es. entry_ok E e"
    and "\<forall>e\<in>set es. md_last_attempt (snd (snd e)) = 0"
  shows "fold (\<lambda>r. put_route lt (c_str (sv_key r)) (c_str (sv_ip r)) (restored_metadata r)) (map saved_of es) m
       = put_entries lt es m"
  using assms
proof (induction es arbitrary: m)
  case Nil
  then show ?case by (simp add: put_entries_def)
next
  case (Cons e es)
  obtain k d md where e: "e = (k, d, md)" by (cases e)
  have "restored_metadata (saved_of e) = md"
    using Cons.prems by (simp add: restored_metadata_def saved_of_def e new_metadata_def entry_ok_def)
  moreover have "c_str k = k" and "c_str d = d"
    using Cons.prems by (auto simp: e entry_ok_def plain_saved_key)
  ultimately show ?case using Cons by (simp add: e saved_of_def put_entries_def)
qed

text \<open>The metadata as it is after a restart: the retry clock is not persisted.\<close>

definition forget_attempts :: "routes \<Rightarrow> routes" where
  "forget_attempts m = map (\<lambda>(k, g). (k, map (\<lambda>(d, md). (d, md\<lparr>md_last_attempt := 0\<rparr>)) g)) m"

lemma routes_text_forget: "routes_text (forget_attempts m) = routes_text m"
proof -
  have "concat (map (\<lambda>(d, md). route_line k d md @ [newline]) (map (\<lambda>(d, md). (d, md\<lparr>md_last_attempt := 0\<rparr>)) g))
      = concat (map (\<lambda>(d, md). route_line k d md @ [newline]) g)" for k g
    by (induction g) (auto simp: route_line_def)
  note group = this
  have "concat (map (\<lambda>(k, g). concat (map (\<lambda>(d, md). route_line k d md @ [newline]) g))
          (map (\<lambda>(k, g). (k, map (\<lambda>(d, md). (d, md\<lparr>md_last_attempt := 0\<rparr>)) g)) m)) =
        concat (map (\<lambda>(k, g). concat (map (\<lambda>(d, md). route_line k d md @ [newline]) g)) m)"
  proof (induction m)
    case Nil
    then show ?case by simp
  next
    case (Cons p m)
    then show ?case using group [of "fst p" "snd p"] by (cases p) simp
  qed
  then show ?thesis by (simp add: routes_text_def forget_attempts_def)
qed

lemma entries_forget: "entries (forget_attempts m) = map (\<lambda>(k, d, md). (k, d, md\<lparr>md_last_attempt := 0\<rparr>)) (entries m)"
proof -
  have "map (\<lambda>(d, md). (k, d, md)) (map (\<lambda>(d, md). (d, md\<lparr>md_last_attempt := 0\<rparr>)) g) =
        map (\<lambda>(k, d, md). (k, d, md\<lparr>md_last_attempt := 0\<rparr>)) (map (\<lambda>(d, md). (k, d, md)) g)" for k g
    by (induction g) auto
  note group = this
  show ?thesis
    unfolding forget_attempts_def
  proof (induction m)
    case Nil
    then show ?case by simp
  next
    case (Cons p m)
    then show ?case using group [of "fst p" "snd p"] by (cases p) simp
  qed
qed

lemma map_fst_forget: "map fst (map (\<lambda>(k, g). (k, f g)) m) = map fst m"
  by (induction m) auto

lemma forget_ok: "table_ok m \<Longrightarrow> table_ok (forget_attempts m)"
  unfolding table_ok_def map_ok_def forget_attempts_def map_fst_forget
  by (auto simp: map_fst_forget comp_def case_prod_beta)

lemma forget_sorted: "table_sorted lt m \<Longrightarrow> table_sorted lt (forget_attempts m)"
  unfolding table_sorted_def map_sorted_def forget_attempts_def map_fst_forget
  by (auto simp: map_fst_forget comp_def case_prod_beta)

text \<open>The gateway of an address in a table whose references agree.\<close>

definition gateway_of :: "routes \<Rightarrow> string \<Rightarrow> string" where
  "gateway_of m d =
     (case map_of (map (\<lambda>(k, d, md). (d, md_gateway md)) (entries m)) d of None \<Rightarrow> [] | Some g \<Rightarrow> g)"

lemma gateway_of_entry:
  assumes "table_ok m" and "gateways_agree m" and "(k, d, md) \<in> set (entries m)"
  shows "gateway_of m d = md_gateway md"
proof -
  let ?l = "map (\<lambda>(k, d, md). (d, md_gateway md)) (entries m)"
  have "d \<in> fst ` set ?l" using assms(3) by force
  then obtain g where g: "map_of ?l d = Some g" by (metis map_of_eq_None_iff not_None_eq)
  then have "(d, g) \<in> set ?l" by (rule map_of_SomeD)
  then obtain k' md' where e: "(k', d, md') \<in> set (entries m)" "g = md_gateway md'" by auto
  have "md_gateway md' = md_gateway md"
  proof (rule assms(2) [unfolded gateways_agree_def, rule_format])
    show "find_route m k' d = Some md'" using mem_entries_find [OF assms(1)] e(1) by simp
    show "find_route m k d = Some md" using mem_entries_find [OF assms(1)] assms(3) by simp
  qed
  with g e show ?thesis by (simp add: gateway_of_def)
qed

definition none_expired :: "int \<Rightarrow> routes \<Rightarrow> bool" where
  "none_expired now m \<longleftrightarrow> (\<forall>(k, d, md)\<in>set (entries m). md_expires_at md > 0 \<longrightarrow> md_expires_at md > now)"

lemma restored_table:
  assumes ok: "table_ok m" "table_sorted lt m" "strict_order lt" "entries_ok E m"
  shows "fold (\<lambda>r. put_route lt (c_str (sv_key r)) (c_str (sv_ip r)) (restored_metadata r))
           (map saved_of (entries m)) [] = forget_attempts m"
proof -
  let ?f = "forget_attempts m"
  have saved: "map saved_of (entries m) = map saved_of (entries ?f)"
    by (auto simp: entries_forget saved_of_def)
  have entry: "\<forall>e\<in>set (entries ?f). entry_ok E e" "\<forall>e\<in>set (entries ?f). md_last_attempt (snd (snd e)) = 0"
    using ok(4) by (auto simp: entries_forget entries_ok_def entry_ok_def)
  have "put_entries lt (entries ?f) ([] :: routes) = [] @ ?f"
    by (rule put_entries_rebuild [OF ok(3)])
      (use forget_ok [OF ok(1)] forget_sorted [OF ok(2)] in \<open>auto simp: table_ok_def table_sorted_def\<close>)
  then show ?thesis unfolding saved fold_saved_entries [OF entry] by simp
qed

lemma load_after_save:
  assumes ok: "table_ok m" "table_sorted (acl_less E) m" "strict_order (acl_less E)" "entries_ok E m"
    and agree: "gateways_agree m" and live: "none_expired (clock s) m"
    and stored: "file_at s (routes_file s) = Some (Regular (routes_text m))"
    and empty: "installed_routes s = []" and script: "Fault ENOENT \<notin> set (script s)"
    and load: "load_routes_locked E s = (Inr u, s')"
  shows "installed_routes s' = forget_attempts m"
    and "file_at s' (routes_file s) = Some (Regular (routes_text m))"
proof -
  obtain r1 s1 where o1: "open_in (routes_file s) s = (r1, s1)" by fastforce
  have "r1 \<noteq> Inl ENOENT" using open_in_present [OF o1 script] stored by simp
  with load o1 have r1: "r1 = Inr ()" by (cases r1) (auto simp: load_routes_locked_def split: if_splits)
  have s1: "routes_file s1 = routes_file s" "clock s1 = clock s" "installed_routes s1 = []"
    and f1: "file_at s1 (routes_file s) = file_at s (routes_file s)"
    using open_in_frame [OF o1] empty by (auto simp: file_at_def)
  obtain ls c s2 where o2: "read_lines (routes_file s) s1 = ((ls, c), s2)" by (metis prod.exhaust)
  have s2: "routes_file s2 = routes_file s" "clock s2 = clock s" "installed_routes s2 = []"
    using read_lines_frame [OF o2] s1 by auto
  from load o1 o2 r1 s1 have c: "c" by (auto simp: load_routes_locked_def split: if_splits)
  then have ls: "ls = getlines (routes_text m)"
    using read_lines_complete [of "routes_file s" s1 ls s2 "routes_text m"] o2 f1 stored by simp
  let ?l0 = "\<lparr>rs_active = [], rs_expired = [], rs_failed = False\<rparr>"
  obtain l s3 where o3: "restore_routes E (clock s) (map saved_of (entries m)) ?l0 s2 = (l, s3)" by fastforce
  have l: "\<not> rs_failed l" and save: "save_routes_locked E (clean_expired E (rs_active l) (rs_expired l) s3) = (Inr u, s')"
    using load o1 o2 o3 r1 s1 s2 c ls parse_routes_text [OF ok(4)]
    by (auto simp: load_routes_locked_def Let_def split: if_splits)
  have "installed_routes s3 = forget_attempts m \<and> rs_expired l = []"
  proof -
    have "\<forall>r\<in>set (map saved_of (entries m)). \<not> is_expired (clock s) r"
      using live by (auto simp: none_expired_def is_expired_def saved_of_def)
    moreover have "\<forall>r\<in>set (map saved_of (entries m)). gateway_of m (sv_ip r) = sv_gateway r"
      using gateway_of_entry [OF ok(1) agree] by (auto simp: saved_of_def)
    ultimately show ?thesis
      using restore_routes_installs [OF _ _ _ o3 l] restored_table [OF ok] s2 by (simp add: map_find_Nil)
  qed
  then have mem: "installed_routes s3 = forget_attempts m" and none: "rs_expired l = []" by simp_all
  from save none have save3: "save_routes_locked E s3 = (Inr u, s')" by simp
  have rf: "routes_file s3 = routes_file s" using restore_routes_frame [OF o3] s2 by auto
  show "installed_routes s' = forget_attempts m" using save_routes_frame [OF save3] mem by auto
  show "file_at s' (routes_file s) = Some (Regular (routes_text m))"
    using save_routes_replaces [OF save3] by (simp add: replaces_def rf mem routes_text_forget)
qed

subsection \<open>The global settings\<close>

definition settings_ok :: "'k env \<Rightarrow> string \<times> bool \<Rightarrow> bool" where
  "settings_ok E g \<longleftrightarrow> valid_ipv4 E (Some (fst g)) \<and> plain (fst g)"

definition global_line :: "string \<times> bool \<Rightarrow> string" where
  "global_line g = fst g @ [tab] @ (if snd g then ''1'' else ''0'')"

definition parse_global :: "'k env \<Rightarrow> string \<Rightarrow> (string \<times> bool) option" where
  "parse_global E l = (case parse_global_record E l of Inl _ \<Rightarrow> None | Inr g \<Rightarrow> Some g)"

lemma parse_global_line: "settings_ok E g \<Longrightarrow> parse_global_record E (global_line g) = Inr g"
  by (cases g) (simp add: settings_ok_def global_line_def parse_global_record_def plain_def c_str_id
      split_fields_field split_fields_last)

interpretation global_codec: line_codec global_line "parse_global E" "\<lambda>g. g" "settings_ok E" global_header
proof (unfold_locales, goal_cases)
  case (1 g)
  then show ?case by (auto simp: settings_ok_def global_line_def plain_def)
next
  case (2 g)
  show ?case by (simp add: global_line_def)
next
  case (3 g)
  have "tab \<notin> set global_header" by (simp add: global_header_def)
  moreover have "tab \<in> set (global_line g)" by (simp add: global_line_def)
  ultimately show ?case by auto
next
  case (4 g)
  then show ?case by (simp add: parse_global_def parse_global_line)
next
  case 5
  show ?case by (simp add: global_header_def)
qed

lemma global_text_lines:
  assumes "gw = [] \<or> settings_ok E (gw, f)"
  shows "getlines (global_text gw f) = global_header # (if gw = [] then [] else [global_line (gw, f)])"
proof (cases "gw = []")
  case True
  then show ?thesis
    using global_codec.lines_of_file [of "[]" E] by (simp add: global_text_def)
next
  case False
  with assms have ok: "settings_ok E (gw, f)" by simp
  then have "global_text gw f = global_header @ newline # concat (map (\<lambda>g. global_line g @ [newline]) [(gw, f)])"
    using False by (simp add: global_text_def global_line_def settings_ok_def)
  then show ?thesis using global_codec.lines_of_file [of "[(gw, f)]" E] ok False by simp
qed

lemma load_after_save_global:
  assumes settings: "gw = [] \<and> \<not> f \<or> settings_ok E (gw, f)"
    and stored: "file_at s (global_route_file s) = Some (Regular (global_text gw f))"
    and script: "script s = []"
    and load: "load_global_route_locked E s = (r, s')"
  shows "r = Inr ()" and "get_global_route s' = (gw, f)"
proof -
  have ne: "settings_ok E (gw, f) \<Longrightarrow> gw \<noteq> [] \<and> global_line (gw, f) \<noteq> []"
    by (auto simp: settings_ok_def valid_ipv4_def c_str_def global_line_def)
  have lines: "getlines (global_text gw f) = global_header # (if gw = [] then [] else [global_line (gw, f)])"
    using settings by (intro global_text_lines [where E = E]) auto
  have "open_in (global_route_file s) s = (Inr (), s)"
    and "read_lines (global_route_file s) s = ((getlines (global_text gw f), True), s)"
    using stored script by (simp_all add: open_in_def read_lines_def next_io_def)
  with load have "(r, s') =
      (Inr (), s\<lparr>global_gateway := gw, force_global_gateway := f\<rparr>)"
    using settings ne parse_global_line [of E "(gw, f)"]
    by (auto simp: load_global_route_locked_def lines)
  then show "r = Inr ()" and "get_global_route s' = (gw, f)" by (simp_all add: get_global_route_def)
qed

end
