(* ===== verification/Route_Effects.thy ===== *)
theory Route_Effects
  imports Route_Recovery
begin

text \<open>
  What each operation of \<open>route_manager\<close> does to the memory, to the two files and to the rest of
  the state, on every branch. \<open>durable\<close> says the database file holds exactly the memory.
\<close>

subsection \<open>The frame of an operation\<close>

text \<open>
  An operation on the table writes the route database and its temporary file, consumes input/output
  outcomes, talks to the kernel and changes the table; nothing else.
\<close>

definition table_frame :: "('k, 'z) rm_s \<Rightarrow> ('k, 'z) rm_s \<Rightarrow> bool" where
  "table_frame s s' \<longleftrightarrow>
     s' = s\<lparr>files := files s', script := script s', kernel := kernel s',
           route_sequence := route_sequence s', installed_routes := installed_routes s'\<rparr> \<and>
     (\<forall>p. p \<noteq> routes_file s \<and> p \<noteq> routes_file s @ ''.tmp'' \<longrightarrow> file_at s' p = file_at s p)"

lemma table_frameE:
  assumes "table_frame s s'"
  obtains fs sc k q m where
    "s' = s\<lparr>files := fs, script := sc, kernel := k, route_sequence := q, installed_routes := m\<rparr>"
  using assms [unfolded table_frame_def, THEN conjunct1] by (rule that)

lemma table_frame_files:
  "table_frame s s' \<Longrightarrow> p \<noteq> routes_file s \<Longrightarrow> p \<noteq> routes_file s @ ''.tmp'' \<Longrightarrow> file_at s' p = file_at s p"
  by (simp add: table_frame_def)

lemma table_frame_fields:
  assumes "table_frame s s'"
  shows "routes_file s' = routes_file s" "global_route_file s' = global_route_file s"
    "global_gateway s' = global_gateway s" "force_global_gateway s' = force_global_gateway s"
    "worker_started s' = worker_started s" "worker_stopping s' = worker_stopping s"
    "clock s' = clock s" "open_fds s' = open_fds s"
  by (rule table_frameE [OF assms], simp)+

lemma table_frame_refl [simp]: "table_frame s s"
  by (simp add: table_frame_def)

lemma table_frame_trans:
  assumes "table_frame s t" and "table_frame t u"
  shows "table_frame s u"
proof -
  have files: "\<forall>p. p \<noteq> routes_file s \<and> p \<noteq> routes_file s @ ''.tmp'' \<longrightarrow> file_at u p = file_at s p"
    using table_frame_files [OF assms(1)] table_frame_files [OF assms(2)] table_frame_fields(1) [OF assms(1)]
    by simp
  obtain fs sc k q m where
    t: "t = s\<lparr>files := fs, script := sc, kernel := k, route_sequence := q, installed_routes := m\<rparr>"
    using assms(1) by (rule table_frameE)
  obtain fs' sc' k' q' m' where
    u: "u = t\<lparr>files := fs', script := sc', kernel := k', route_sequence := q', installed_routes := m'\<rparr>"
    using assms(2) by (rule table_frameE)
  have "u = s\<lparr>files := fs', script := sc', kernel := k', route_sequence := q', installed_routes := m'\<rparr>"
    by (simp add: t u)
  with files show ?thesis by (simp add: table_frame_def)
qed

lemma table_frame_memory: "table_frame s (s\<lparr>installed_routes := m\<rparr>)"
  by (simp add: table_frame_def file_at_def)

lemma net_frame_files: "net_frame s s' \<Longrightarrow> file_at s' p = file_at s p"
  by (elim net_frameE) (simp add: file_at_def)

lemma table_frame_net: "net_frame (s :: ('k, 'z) rm_s) s' \<Longrightarrow> table_frame s s'"
  unfolding table_frame_def by (auto simp: net_frame_files elim!: net_frameE)

lemma table_frame_save: "save_routes_locked E s = (r, s') \<Longrightarrow> table_frame s s'"
  unfolding table_frame_def by (auto dest!: save_routes_replaces simp: replaces_def elim!: file_frameE)

subsection \<open>Saving the table\<close>

definition durable :: "('k, 'z) rm_s \<Rightarrow> bool" where
  "durable s \<longleftrightarrow> file_at s (routes_file s) = Some (Regular (routes_text (installed_routes s)))"

lemma save_routes_effect:
  assumes "save_routes_locked E s = (r, s')"
  shows "installed_routes s' = installed_routes s" and "routes_file s' = routes_file s"
    and "succeeds r \<Longrightarrow> durable s'"
    and "\<not> succeeds r \<Longrightarrow> file_at s' (routes_file s) = file_at s (routes_file s)"
proof -
  from save_routes_frame [OF assms]
  show f: "installed_routes s' = installed_routes s" "routes_file s' = routes_file s" by auto
  show "succeeds r \<Longrightarrow> durable s'"
    and "\<not> succeeds r \<Longrightarrow> file_at s' (routes_file s) = file_at s (routes_file s)"
    using save_routes_replaces [OF assms] f by (simp_all add: replaces_def durable_def)
qed

lemma save_routes_durable:
  assumes "save_routes_locked E s = (r, s')" and "durable s"
  shows "durable s'"
  using save_routes_effect [OF assms(1)] assms(2) by (cases "succeeds r") (simp_all add: durable_def)

lemma durable_net: "net_frame (s :: ('k, 'z) rm_s) s' \<Longrightarrow> durable s' \<longleftrightarrow> durable s"
  by (auto simp: durable_def net_frame_files elim!: net_frameE)

lemma file_at_memory [simp]: "file_at (s\<lparr>installed_routes := m\<rparr>) p = file_at s p"
  by (simp add: file_at_def)

subsection \<open>add\<close>

lemma store_route_effect:
  assumes "store_route E k d md s = (r, s')"
  shows "table_frame s s'"
    and "installed_routes s' =
      (if succeeds r then put_route (acl_less E) k d md (installed_routes s) else installed_routes s)"
    and "succeeds r \<Longrightarrow> durable s'"
    and "\<not> succeeds r \<Longrightarrow> file_at s' (routes_file s) = file_at s (routes_file s)"
proof -
  let ?m = "put_route (acl_less E) k d md (installed_routes s)"
  obtain x s1 where save: "save_routes_locked E (s\<lparr>installed_routes := ?m\<rparr>) = (x, s1)" by fastforce
  note eff = save_routes_effect [OF save]
  have f1: "table_frame s s1"
    using table_frame_trans [OF table_frame_memory table_frame_save [OF save]] .
  have s': "succeeds r = succeeds x" "s' = (if succeeds x then s1 else s1\<lparr>installed_routes := installed_routes s\<rparr>)"
    using assms save by (auto simp: store_route_def split: sum.splits)
  show "table_frame s s'"
    using f1 table_frame_trans [OF f1 table_frame_memory] s' by simp
  show "installed_routes s' = (if succeeds r then ?m else installed_routes s)"
    using s' eff(1) by auto
  show "succeeds r \<Longrightarrow> durable s'" using s' eff(3) by simp
  show "\<not> succeeds r \<Longrightarrow> file_at s' (routes_file s) = file_at s (routes_file s)"
    using s' eff(4) by simp
qed

lemma add_new_route_effect:
  assumes "add_new_route E d g k md s = (r, s')"
  shows "table_frame s s'"
    and "installed_routes s' =
      (if succeeds r then put_route (acl_less E) k d md (installed_routes s) else installed_routes s)"
    and "succeeds r \<Longrightarrow> durable s'"
    and "\<not> succeeds r \<Longrightarrow> durable s' \<or> file_at s' (routes_file s) = file_at s (routes_file s) \<or>
      file_at s' (routes_file s) =
        Some (Regular (routes_text (put_route (acl_less E) k d md (installed_routes s))))"
proof -
  let ?m = "put_route (acl_less E) k d md (installed_routes s)"
  obtain x s1 where store: "store_route E k d md s = (x, s1)" by fastforce
  note e1 = store_route_effect [OF store]
  have all: "table_frame s s' \<and> installed_routes s' = (if succeeds r then ?m else installed_routes s) \<and>
    (succeeds r \<longrightarrow> durable s') \<and>
    (\<not> succeeds r \<longrightarrow> durable s' \<or> file_at s' (routes_file s) = file_at s (routes_file s) \<or>
       file_at s' (routes_file s) = Some (Regular (routes_text ?m)))"
  proof (cases x)
    case (Inl e)
    then have "r = Inl e" "s' = s1" using assms store by (simp_all add: add_new_route_def)
    with Inl e1 show ?thesis by simp
  next
    case (Inr u)
    obtain y s2 where add: "add_system_route E d g s1 = (y, s2)" by fastforce
    note n = add_system_route_frame [OF add]
    have d1: "durable s1" and m1: "installed_routes s1 = ?m" using e1 Inr by simp_all
    have f2: "table_frame s s2" using table_frame_trans [OF e1(1) table_frame_net [OF n]] .
    have d2: "durable s2" and m2: "installed_routes s2 = ?m"
      using durable_net [OF n] d1 m1 n by auto
    show ?thesis
    proof (cases y)
      case (Inr v)
      then have "r = Inr ()" "s' = s2" using assms store add \<open>x = Inr u\<close> by (simp_all add: add_new_route_def)
      with f2 d2 m2 show ?thesis by simp
    next
      case (Inl e)
      obtain z s3 where save: "save_routes_locked E (s2\<lparr>installed_routes := installed_routes s\<rparr>) = (z, s3)"
        by fastforce
      then have r: "r = Inl e" "s' = s3"
        using assms store add \<open>x = Inr u\<close> Inl by (simp_all add: add_new_route_def)
      note e3 = save_routes_effect [OF save]
      have f3: "table_frame s s3"
        using table_frame_trans [OF f2 table_frame_trans [OF table_frame_memory table_frame_save [OF save]]] .
      have "file_at s2 (routes_file s) = Some (Regular (routes_text ?m))"
        using d2 m2 table_frame_fields(1) [OF f2] by (simp add: durable_def)
      then show ?thesis
        using r e3 f3 table_frame_fields(1) [OF f2] by (cases "succeeds z") auto
    qed
  qed
  show "table_frame s s'" using all by blast
  show "installed_routes s' = (if succeeds r then ?m else installed_routes s)" using all by blast
  show "succeeds r \<Longrightarrow> durable s'" using all by blast
  show "\<not> succeeds r \<Longrightarrow> durable s' \<or> file_at s' (routes_file s) = file_at s (routes_file s) \<or>
      file_at s' (routes_file s) = Some (Regular (routes_text ?m))" using all by blast
qed

text \<open>The three ways through \<open>add\<close>.\<close>

definition ttl_too_large :: "int \<Rightarrow> int \<Rightarrow> bool" where
  "ttl_too_large ttl now \<longleftrightarrow> ttl > 0 \<and> ttl > long_long_max - now"

lemma add_route_cases:
  assumes "table_ok (installed_routes s)" and "add_route E d g k ttl s = (r, s')"
  obtains
    (refused) e where "r = Inl e" "s' = s"
      "ttl_too_large ttl (clock s) \<or>
       (\<exists>k' md. find_route (installed_routes s) k' d = Some md \<and> md_gateway md \<noteq> g)"
  | (shared) k' md where "store_route E k d (add_metadata g ttl (clock s)) s = (r, s')"
      "\<not> ttl_too_large ttl (clock s)"
      "find_route (installed_routes s) k' d = Some md" "md_gateway md = g"
  | (created) "add_new_route E d g k (add_metadata g ttl (clock s)) s = (r, s')"
      "\<not> ttl_too_large ttl (clock s)" "\<not> referenced (installed_routes s) d"
proof -
  let ?m = "installed_routes s"
  have ok: "map_ok ?m" using assms(1) by (simp add: table_ok_def)
  show ?thesis
  proof (cases "ttl_too_large ttl (clock s)")
    case True
    then show ?thesis using refused assms(2) by (auto simp: add_route_def ttl_too_large_def)
  next
    case small: False
    note unfolded = add_route_def ttl_too_large_def [symmetric] Let_def if_not_P [OF small]
    show ?thesis
    proof (cases "map_option md_gateway (find_route ?m k d) = Some g")
      case True
      then obtain md where "find_route ?m k d = Some md" "md_gateway md = g" by auto
      moreover have "store_route E k d (add_metadata g ttl (clock s)) s = (r, s')"
        using assms(2) unfolding unfolded if_P [OF True] .
      ultimately show ?thesis using shared small by blast
    next
      case False
      show ?thesis
      proof (cases "first_reference ?m d")
        case None
        then have "add_new_route E d g k (add_metadata g ttl (clock s)) s = (r, s')"
          using assms(2) unfolding unfolded if_not_P [OF False] by (simp only: option.case)
        with created small None first_reference_None [OF ok, of d] show ?thesis by blast
      next
        case (Some p)
        obtain k' md where p: "p = (k', md)" by (cases p)
        then have f: "find_route ?m k' d = Some md" using first_reference_Some [OF ok] Some by simp
        show ?thesis
        proof (cases "md_gateway md = g")
          case True
          then have "store_route E k d (add_metadata g ttl (clock s)) s = (r, s')"
            using assms(2) unfolding unfolded if_not_P [OF False] Some p by simp
          with shared small f True show ?thesis by blast
        next
          case other: False
          then have "(Inl (''IP '' @ d @ '' already uses gateway '' @ md_gateway md @ '' under key '' @ k'), s) = (r, s')"
            using assms(2) unfolding unfolded if_not_P [OF False] Some p by simp
          with refused f other show ?thesis by blast
        qed
      qed
    qed
  qed
qed

lemma add_route_effect:
  assumes "table_ok (installed_routes s)" and "add_route E d g k ttl s = (r, s')"
  shows "table_frame s s'"
    and "installed_routes s' =
      (if succeeds r then put_route (acl_less E) k d (add_metadata g ttl (clock s)) (installed_routes s)
       else installed_routes s)"
    and "succeeds r \<Longrightarrow> durable s'"
    and "\<not> succeeds r \<Longrightarrow> durable s' \<or> file_at s' (routes_file s) = file_at s (routes_file s) \<or>
      file_at s' (routes_file s) =
        Some (Regular (routes_text
          (put_route (acl_less E) k d (add_metadata g ttl (clock s)) (installed_routes s))))"
proof -
  let ?m = "put_route (acl_less E) k d (add_metadata g ttl (clock s)) (installed_routes s)"
  have "table_frame s s' \<and> installed_routes s' = (if succeeds r then ?m else installed_routes s) \<and>
    (succeeds r \<longrightarrow> durable s') \<and>
    (\<not> succeeds r \<longrightarrow> durable s' \<or> file_at s' (routes_file s) = file_at s (routes_file s) \<or>
      file_at s' (routes_file s) = Some (Regular (routes_text ?m)))"
    using assms
  proof (cases rule: add_route_cases)
    case (refused e)
    then show ?thesis by simp
  next
    case (shared k' md)
    then show ?thesis using store_route_effect [OF shared(1)] by blast
  next
    case created
    then show ?thesis using add_new_route_effect [OF created(1)] by blast
  qed
  then show "table_frame s s'"
    and "installed_routes s' = (if succeeds r then ?m else installed_routes s)"
    and "succeeds r \<Longrightarrow> durable s'"
    and "\<not> succeeds r \<Longrightarrow> durable s' \<or> file_at s' (routes_file s) = file_at s (routes_file s) \<or>
      file_at s' (routes_file s) = Some (Regular (routes_text ?m))"
    by blast+
qed

subsection \<open>remove and remove_system\<close>

lemma delete_everywhere_effect:
  assumes "delete_everywhere E d g s = (r, s')"
  shows "table_frame s s'"
    and "installed_routes s' = (if succeeds r then purge_route d g (installed_routes s) else installed_routes s)"
    and "succeeds r \<Longrightarrow> durable s'"
    and "\<not> succeeds r \<Longrightarrow> file_at s' (routes_file s) = file_at s (routes_file s)"
proof -
  let ?m = "purge_route d g (installed_routes s)"
  obtain x s1 where del: "delete_system_route E d g s = (x, s1)" by fastforce
  note n = delete_system_route_frame [OF del]
  have f1: "table_frame s s1" by (rule table_frame_net [OF n])
  have m1: "installed_routes s1 = installed_routes s" and same1: "file_at s1 p = file_at s p" for p
    using n net_frame_files [OF n] by auto
  obtain y s2 where save: "save_routes_locked E (s1\<lparr>installed_routes := ?m\<rparr>) = (y, s2)" by fastforce
  note e2 = save_routes_effect [OF save]
  have f2: "table_frame s s2"
    using table_frame_trans [OF f1 table_frame_trans [OF table_frame_memory table_frame_save [OF save]]] .
  obtain z s3 where undo: "add_system_route E d g (s2\<lparr>installed_routes := installed_routes s\<rparr>) = (z, s3)" by fastforce
  note n3 = add_system_route_frame [OF undo]
  have f3: "table_frame s s3"
    using table_frame_trans [OF f2 table_frame_trans [OF table_frame_memory table_frame_net [OF n3]]] .
  have m3: "installed_routes s3 = installed_routes s" and same3: "file_at s3 p = file_at s2 p" for p
    using n3 net_frame_files [OF n3] by auto
  have path: "routes_file s1 = routes_file s" using table_frame_fields(1) [OF f1] .
  consider "succeeds x" "succeeds y" "succeeds r" "s' = s2" | "succeeds x" "\<not> succeeds y" "\<not> succeeds r" "s' = s3"
    | "\<not> succeeds x" "\<not> succeeds r" "s' = s1"
    using assms del save undo by (cases x; cases y) (auto simp: delete_everywhere_def)
  then have "table_frame s s' \<and> installed_routes s' = (if succeeds r then ?m else installed_routes s) \<and>
    (succeeds r \<longrightarrow> durable s') \<and>
    (\<not> succeeds r \<longrightarrow> file_at s' (routes_file s) = file_at s (routes_file s))"
  proof cases
    case 1
    with f2 e2 show ?thesis by simp
  next
    case 2
    with f3 m3 same3 e2(4) path same1 show ?thesis by simp
  next
    case 3
    with f1 m1 same1 show ?thesis by simp
  qed
  then show "table_frame s s'"
    and "installed_routes s' = (if succeeds r then ?m else installed_routes s)"
    and "succeeds r \<Longrightarrow> durable s'"
    and "\<not> succeeds r \<Longrightarrow> file_at s' (routes_file s) = file_at s (routes_file s)"
    by blast+
qed

lemma remove_route_cases:
  assumes "remove_route E k d g s = (r, s')"
  obtains (refused) e where "r = Inl e" "s' = s" "map_option md_gateway (find_route (installed_routes s) k d) \<noteq> Some g"
  | (found) md where "delete_everywhere E d g s = (r, s')"
      "find_route (installed_routes s) k d = Some md" "md_gateway md = g"
  using assms by (auto simp: remove_route_def find_route_def split: option.splits if_splits)

lemma remove_system_cases:
  assumes "remove_system E d g s = (r, s')"
  obtains (refused) e where "r = Inl e" "net_frame s s'"
  | (found) rs t where "delete_everywhere E d g t = (r, s')" "net_frame s t"
      "list_system_routes E s = (Inr rs, t)" "\<exists>x\<in>set rs. sr_ip x = d \<and> sr_gateway x = g"
  using assms
  by (auto simp: remove_system_def split: prod.splits sum.splits if_splits dest: list_system_routes_frame)

subsection \<open>Expiry\<close>

text \<open>What a turn makes of one entry it keeps: as it was, or with the failed attempt noted.\<close>

definition kept_as :: "int \<Rightarrow> route_metadata \<Rightarrow> route_metadata \<Rightarrow> bool" where
  "kept_as now md md' \<longleftrightarrow> (if not_due now md then md' = md else md' = md\<lparr>md_last_attempt := now\<rparr>)"

lemma kept_as_fields:
  "kept_as now md md' \<Longrightarrow>
     md_gateway md' = md_gateway md \<and> md_ttl md' = md_ttl md \<and> md_expires_at md' = md_expires_at md"
  by (auto simp: kept_as_def split: if_splits)

lemma kept_as_intros:
  "not_due now md \<Longrightarrow> kept_as now md md"
  "\<not> not_due now md \<Longrightarrow> kept_as now md (md\<lparr>md_last_attempt := now\<rparr>)"
  by (simp_all add: kept_as_def)

text \<open>
  What a turn may make of one group: entries go or are kept in their order, and only entries that are
  due go. \<open>dropped\<close> says whether some did.
\<close>

inductive swept :: "int \<Rightarrow> key_routes \<Rightarrow> key_routes \<Rightarrow> bool \<Rightarrow> bool" where
  swept_Nil: "swept now [] [] False"
| swept_keep: "kept_as now md md' \<Longrightarrow> swept now g g' c \<Longrightarrow> swept now ((d, md) # g) ((d, md') # g') c"
| swept_drop: "\<not> not_due now md \<Longrightarrow> swept now g g' c \<Longrightarrow> swept now ((d, md) # g) g' True"

lemma swept_all: "swept now g g' c \<Longrightarrow> \<not> c \<Longrightarrow> map fst g' = map fst g"
  by (induction rule: swept.induct) auto

lemma swept_from: "swept now g g' c \<Longrightarrow> (d, md') \<in> set g' \<Longrightarrow> \<exists>md. (d, md) \<in> set g \<and> kept_as now md md'"
  by (induction rule: swept.induct) auto

lemma swept_not_due: "swept now g g' c \<Longrightarrow> (d, md) \<in> set g \<Longrightarrow> not_due now md \<Longrightarrow> (d, md) \<in> set g'"
  by (induction rule: swept.induct) (auto simp: kept_as_def)

lemma swept_text:
  "swept now g g' c \<Longrightarrow> \<not> c \<Longrightarrow>
     concat (map (\<lambda>(d, md). route_line k d md @ [newline]) g') =
     concat (map (\<lambda>(d, md). route_line k d md @ [newline]) g)"
  by (induction rule: swept.induct) (auto simp: route_line_def kept_as_fields)

lemma swept_length: "swept now g g' c \<Longrightarrow> length g' \<le> length g \<and> (\<not> c \<longrightarrow> length g' = length g)"
  by (induction rule: swept.induct) auto

lemma swept_fst: "swept now g g' c \<Longrightarrow> fst ` set g' \<subseteq> fst ` set g"
  by (induction rule: swept.induct) auto

lemma swept_map_ok: "swept now g g' c \<Longrightarrow> map_ok g \<Longrightarrow> map_ok g'"
proof (induction rule: swept.induct)
  case (swept_keep now md md' g g' c d)
  with swept_fst [OF swept_keep.hyps(2)] show ?case by (auto simp: map_ok_Cons)
qed (auto simp: map_ok_Cons)

lemma swept_sorted: "swept now g g' c \<Longrightarrow> map_sorted lt g \<Longrightarrow> map_sorted lt g'"
proof (induction rule: swept.induct)
  case (swept_keep now md md' g g' c d)
  with swept_fst [OF swept_keep.hyps(2)] show ?case by (fastforce simp: map_sorted_def)
qed (auto simp: map_sorted_def)

lemma sweep_targets_effect:
  assumes "sweep_targets E now others g s = ((g', ch), s')"
  shows "net_frame s s' \<and> swept now g g' ch"
  using assms
proof (induction E now others g s arbitrary: g' ch s' rule: sweep_targets.induct)
  case (1 E now others s)
  then show ?case by (simp add: net_frame_refl swept_Nil)
next
  case (2 E now others d md g s)
  show ?case
  proof (cases "not_due now md")
    case True
    then obtain g1 where g1: "sweep_targets E now others g s = ((g1, ch), s')" "g' = (d, md) # g1"
      using "2.prems" by (auto split: prod.splits)
    show ?thesis using "2.IH"(1) [OF True g1(1)] True g1(2) by (auto intro: swept.intros kept_as_intros)
  next
    case due: False
    show ?thesis
    proof (cases "referenced_in others d")
      case True
      then obtain c where c: "sweep_targets E now others g s = ((g', c), s')" "ch"
        using "2.prems" due by (auto split: prod.splits)
      show ?thesis using "2.IH"(2) [OF due True c(1)] due c(2) by (auto intro: swept.intros)
    next
      case False
      obtain x s1 where del: "delete_system_route E d (md_gateway md) s = (x, s1)" by fastforce
      have n: "net_frame s s1" by (rule delete_system_route_frame [OF del])
      show ?thesis
      proof (cases x)
        case (Inr u)
        then obtain c where c: "sweep_targets E now others g s1 = ((g', c), s')" "ch"
          using "2.prems" due False del by (auto split: prod.splits)
        note IH = "2.IH"(4) [OF due False del [symmetric] Inr c(1)]
        have "net_frame s s'" using net_frame_trans [OF n] IH by blast
        with IH due c(2) show ?thesis by (auto intro: swept.intros)
      next
        case (Inl e)
        then obtain g1 where g1: "sweep_targets E now others g s1 = ((g1, ch), s')"
          "g' = (d, md\<lparr>md_last_attempt := now\<rparr>) # g1"
          using "2.prems" due False del by (auto split: prod.splits)
        note IH = "2.IH"(3) [OF due False del [symmetric] Inl g1(1)]
        have "net_frame s s'" using net_frame_trans [OF n] IH by blast
        with IH due g1(2) show ?thesis by (auto intro: swept.intros kept_as_intros)
      qed
    qed
  qed
qed

text \<open>The same for the whole table; a group that loses its last entry goes.\<close>

inductive swept_table :: "int \<Rightarrow> routes \<Rightarrow> routes \<Rightarrow> bool \<Rightarrow> bool" where
  swept_table_Nil: "swept_table now [] [] False"
| swept_table_Cons: "swept now g g' c \<Longrightarrow> swept_table now m m' c' \<Longrightarrow>
    swept_table now ((k, g) # m) (if g' = [] then m' else (k, g') # m') (c \<or> c')"

lemma sweep_groups_effect:
  assumes "sweep_groups E now sw m s = ((m', ch), s')"
  shows "net_frame s s' \<and> (\<exists>m1. m' = sw @ m1 \<and> swept_table now m m1 ch)"
  using assms
proof (induction E now sw m s arbitrary: m' ch s' rule: sweep_groups.induct)
  case (1 E now sw s)
  then show ?case by (simp add: net_frame_refl swept_table_Nil)
next
  case (2 E now sw k g m s)
  obtain g' c s1 where t: "sweep_targets E now (sw @ m) g s = ((g', c), s1)" by (metis prod.exhaust)
  obtain c' where r: "sweep_groups E now (if g' = [] then sw else sw @ [(k, g')]) m s1 = ((m', c'), s')"
    "ch \<longleftrightarrow> c \<or> c'"
    using "2.prems" t by (auto split: prod.splits)
  note e1 = sweep_targets_effect [OF t]
  obtain m1 where m1: "net_frame s1 s'" "m' = (if g' = [] then sw else sw @ [(k, g')]) @ m1" "swept_table now m m1 c'"
    using "2.IH" [OF t [symmetric] refl r(1)] by blast
  have "net_frame s s'" using net_frame_trans e1 m1(1) by blast
  moreover have "m' = sw @ (if g' = [] then m1 else (k, g') # m1)" using m1(2) by simp
  moreover have "swept_table now ((k, g) # m) (if g' = [] then m1 else (k, g') # m1) ch"
    unfolding r(2) by (rule swept_table_Cons) (use e1 m1 in blast)+
  ultimately show ?case by blast
qed

lemma swept_table_fst: "swept_table now m m' c \<Longrightarrow> fst ` set m' \<subseteq> fst ` set m"
  by (induction rule: swept_table.induct) auto

lemma swept_table_ok: "swept_table now m m' c \<Longrightarrow> table_ok m \<Longrightarrow> table_ok m'"
proof (induction rule: swept_table.induct)
  case swept_table_Nil
  then show ?case by simp
next
  case (swept_table_Cons now g g' c m m' c' k)
  have "map_ok g'" using swept_map_ok [OF swept_table_Cons.hyps(1)] swept_table_Cons.prems
    by (simp add: table_ok_def)
  moreover have "k \<notin> fst ` set m'"
    using swept_table_fst [OF swept_table_Cons.hyps(2)] swept_table_Cons.prems
    by (auto simp: table_ok_def map_ok_Cons)
  moreover have "table_ok m'"
    using swept_table_Cons.IH swept_table_Cons.prems by (auto simp: table_ok_def map_ok_Cons)
  ultimately show ?case by (auto simp: table_ok_def map_ok_Cons)
qed

lemma swept_table_sorted: "swept_table now m m' c \<Longrightarrow> table_sorted lt m \<Longrightarrow> table_sorted lt m'"
proof (induction rule: swept_table.induct)
  case swept_table_Nil
  then show ?case by simp
next
  case (swept_table_Cons now g g' c m m' c' k)
  have m: "table_sorted lt m" and g: "map_sorted lt g" and k: "\<forall>x\<in>fst ` set m. lt k x"
    using swept_table_Cons.prems by (auto simp: table_sorted_def map_sorted_def)
  have "\<forall>x\<in>fst ` set m'. lt k x" using k swept_table_fst [OF swept_table_Cons.hyps(2)] by blast
  moreover have "map_sorted lt g'" by (rule swept_sorted [OF swept_table_Cons.hyps(1) g])
  ultimately show ?case
    using swept_table_Cons.IH [OF m] by (auto simp: table_sorted_def map_sorted_def)
qed

lemma swept_table_from:
  "swept_table now m m' c \<Longrightarrow> (k, d, md') \<in> set (entries m') \<Longrightarrow>
     \<exists>md. (k, d, md) \<in> set (entries m) \<and> kept_as now md md'"
proof (induction rule: swept_table.induct)
  case swept_table_Nil
  then show ?case by simp
next
  case (swept_table_Cons now g g' c m m' c' j)
  then consider "(k, d, md') \<in> set (entries m')" | "k = j" "(d, md') \<in> set g'"
    by (auto split: if_splits)
  then show ?case
  proof cases
    case 1
    then show ?thesis using swept_table_Cons.IH by auto
  next
    case 2
    then show ?thesis using swept_from [OF swept_table_Cons.hyps(1) 2(2)] by auto
  qed
qed

lemma swept_table_not_due:
  "swept_table now m m' c \<Longrightarrow> (k, d, md) \<in> set (entries m) \<Longrightarrow> not_due now md \<Longrightarrow> (k, d, md) \<in> set (entries m')"
proof (induction rule: swept_table.induct)
  case swept_table_Nil
  then show ?case by simp
next
  case (swept_table_Cons now g g' c m m' c' j)
  then consider "(k, d, md) \<in> set (entries m)" | "k = j" "(d, md) \<in> set g"
    by auto
  then show ?case
  proof cases
    case 1
    then show ?thesis using swept_table_Cons by auto
  next
    case 2
    then show ?thesis using swept_not_due [OF swept_table_Cons.hyps(1) 2(2)] swept_table_Cons.prems by auto
  qed
qed

lemma swept_table_text:
  "swept_table now m m' c \<Longrightarrow> (\<forall>p\<in>set m. snd p \<noteq> []) \<Longrightarrow> \<not> c \<Longrightarrow> routes_text m' = routes_text m"
proof (induction rule: swept_table.induct)
  case swept_table_Nil
  then show ?case by simp
next
  case (swept_table_Cons now g g' c m m' c' k)
  then have "g' \<noteq> []" using swept_length [OF swept_table_Cons.hyps(1)] by auto
  then show ?case
    using swept_table_Cons swept_text [OF swept_table_Cons.hyps(1)] by (simp add: routes_text_def)
qed

lemma expire_once_effect:
  assumes "expire_once E s = s'"
  shows "table_frame s s'"
    and "\<exists>c. swept_table (clock s) (installed_routes s) (installed_routes s') c \<and>
      (table_ok (installed_routes s) \<longrightarrow> \<not> c \<longrightarrow> durable s \<longrightarrow> durable s') \<and>
      (durable s' \<or> file_at s' (routes_file s) = file_at s (routes_file s))"
proof -
  obtain m c s1 where g: "sweep_groups E (clock s) [] (installed_routes s) s = ((m, c), s1)"
    by (metis prod.exhaust)
  then have n: "net_frame s s1" and sw: "swept_table (clock s) (installed_routes s) m c"
    using sweep_groups_effect by fastforce+
  have f1: "table_frame s s1" by (rule table_frame_net [OF n])
  note path = table_frame_fields(1) [OF f1]
  have all: "table_frame s s' \<and> installed_routes s' = m \<and>
    (table_ok (installed_routes s) \<longrightarrow> \<not> c \<longrightarrow> durable s \<longrightarrow> durable s') \<and>
    (durable s' \<or> file_at s' (routes_file s) = file_at s (routes_file s))"
  proof (cases c)
    case True
    obtain r s2 where save: "save_routes_locked E (s1\<lparr>installed_routes := m\<rparr>) = (r, s2)" by fastforce
    with True g assms have s': "s' = s2" by (simp add: expire_once_def)
    have "table_frame s s2"
      using table_frame_trans [OF f1 table_frame_trans [OF table_frame_memory table_frame_save [OF save]]] .
    then show ?thesis
      using s' True save_routes_effect [OF save] path net_frame_files [OF n] by (cases "succeeds r") simp_all
  next
    case False
    with g assms have s': "s' = s1\<lparr>installed_routes := m\<rparr>" by (simp add: expire_once_def)
    have "routes_text m = routes_text (installed_routes s)" if "table_ok (installed_routes s)"
      using swept_table_text [OF sw] that False by (simp add: table_ok_def)
    then show ?thesis
      using s' table_frame_trans [OF f1 table_frame_memory] path net_frame_files [OF n]
      by (auto simp: durable_def)
  qed
  then show "table_frame s s'" by blast
  from all sw show "\<exists>c. swept_table (clock s) (installed_routes s) (installed_routes s') c \<and>
      (table_ok (installed_routes s) \<longrightarrow> \<not> c \<longrightarrow> durable s \<longrightarrow> durable s') \<and>
      (durable s' \<or> file_at s' (routes_file s) = file_at s (routes_file s))" by blast
qed

end
