(* ===== verification/Route_Invariant.thy ===== *)
theory Route_Invariant
  imports Route_Effects
begin

text \<open>
  The invariant of the route manager and the interface \<open>routes_operation\<close>: what every operation on
  the table owes its callers. \<open>add\<close>, \<open>remove\<close> and \<open>remove_system\<close> are its interpretations; loading,
  the settings and the expiry keep the invariant too.
\<close>

subsection \<open>The invariant\<close>

definition settings_inv :: "'k env \<Rightarrow> ('k, 'z) rm_s \<Rightarrow> bool" where
  "settings_inv E s \<longleftrightarrow>
     global_gateway s = [] \<and> \<not> force_global_gateway s
       \<or> settings_ok E (global_gateway s, force_global_gateway s)"

definition table_inv :: "'k env \<Rightarrow> routes \<Rightarrow> bool" where
  "table_inv E m \<longleftrightarrow> table_ok m \<and> table_sorted (acl_less E) m \<and> gateways_agree m \<and> entries_ok E m"

definition rm_inv :: "'k env \<Rightarrow> ('k, 'z) rm_s \<Rightarrow> bool" where
  "rm_inv E s \<longleftrightarrow> table_inv E (installed_routes s) \<and> settings_inv E s"

lemma table_inv_Nil [simp]: "table_inv E []"
  by (simp add: table_inv_def entries_ok_def)

lemma entries_ok_find:
  "table_ok m \<Longrightarrow> entries_ok E m \<longleftrightarrow> (\<forall>k d md. find_route m k d = Some md \<longrightarrow> entry_ok E (k, d, md))"
  unfolding entries_ok_def by (auto simp: mem_entries_find)

lemma table_inv_put:
  assumes "table_inv E m" and "strict_order (acl_less E)" and "entry_ok E (k, d, md)"
    and "\<And>k' md'. find_route m k' d = Some md' \<Longrightarrow> md_gateway md' = md_gateway md"
  shows "table_inv E (put_route (acl_less E) k d md m)"
proof -
  have ok: "table_ok m" "table_ok (put_route (acl_less E) k d md m)"
    using assms(1) by (auto simp: table_inv_def)
  have "entries_ok E (put_route (acl_less E) k d md m)"
    using assms(1,3) ok by (auto simp: table_inv_def entries_ok_find find_route_put)
  moreover have "gateways_agree (put_route (acl_less E) k d md m)"
    by (rule gateways_agree_put) (use assms in \<open>auto simp: table_inv_def\<close>)
  ultimately show ?thesis using assms(1,2) ok by (auto simp: table_inv_def)
qed

lemma table_inv_purge:
  assumes "table_inv E m"
  shows "table_inv E (purge_route d g m)"
proof -
  have ok: "table_ok m" "table_ok (purge_route d g m)"
    using assms by (auto simp: table_inv_def)
  then have ok3: "map_ok m" by (simp add: table_ok_def)
  have "entries_ok E (purge_route d g m)"
    using assms ok(1) unfolding table_inv_def entries_ok_find [OF ok(1)] entries_ok_find [OF ok(2)]
    by (auto simp: find_route_purge [OF ok3] split: option.splits if_splits)
  moreover have "gateways_agree (purge_route d g m)"
    using assms by (auto simp: table_inv_def)
  ultimately show ?thesis using assms ok by (auto simp: table_inv_def)
qed

lemma entry_ok_kept: "entry_ok E (k, d, md) \<Longrightarrow> kept_as now md md' \<Longrightarrow> entry_ok E (k, d, md')"
  by (auto simp: entry_ok_def kept_as_fields)

lemma table_inv_swept:
  assumes "swept_table now m m' c" and "table_inv E m"
  shows "table_inv E m'"
proof -
  have ok: "table_ok m" "table_ok m'"
    using assms(2) swept_table_ok [OF assms(1)] by (auto simp: table_inv_def)
  have orig: "\<exists>md. find_route m k d = Some md \<and> kept_as now md md'" if "find_route m' k d = Some md'" for k d md'
    using swept_table_from [OF assms(1)] that by (simp add: mem_entries_find ok)
  have "entries_ok E m'"
    using assms(2) orig entry_ok_kept ok by (simp add: table_inv_def entries_ok_find) blast
  moreover have "gateways_agree m'"
  proof (rule gateways_agree_subset)
    show "gateways_agree m" using assms(2) by (simp add: table_inv_def)
    show "\<exists>md0. find_route m k d = Some md0 \<and> md_gateway md0 = md_gateway md"
      if "find_route m' k d = Some md" for k d md
      using orig [OF that] kept_as_fields by metis
  qed
  ultimately show ?thesis
    using ok assms(2) swept_table_sorted [OF assms(1)] by (simp add: table_inv_def)
qed

lemma settings_inv_frame: "table_frame s s' \<Longrightarrow> settings_inv E s' \<longleftrightarrow> settings_inv E s"
  by (simp add: settings_inv_def table_frame_fields)

lemma rm_inv_frame:
  "rm_inv E s \<Longrightarrow> table_frame s s' \<Longrightarrow> table_inv E (installed_routes s') \<Longrightarrow> rm_inv E s'"
  by (simp add: rm_inv_def settings_inv_frame)

subsection \<open>The contract of an operation on the table\<close>

locale routes_operation =
  fixes E :: "'k env"
    and run :: "('k, 'z) rm_s \<Rightarrow> (string, unit, ('k, 'z) rm_s) result"
    and ready :: "('k, 'z) rm_s \<Rightarrow> bool"
    and effect :: "routes \<Rightarrow> int \<Rightarrow> routes"
  assumes frame: "rm_inv E s \<Longrightarrow> run s = (r, s') \<Longrightarrow> table_frame s s'"
    and memory: "rm_inv E s \<Longrightarrow> run s = (r, s') \<Longrightarrow>
      installed_routes s' = (if succeeds r then effect (installed_routes s) (clock s) else installed_routes s)"
    and saved: "rm_inv E s \<Longrightarrow> run s = (Inr u, s') \<Longrightarrow> durable s'"
    and keeps: "rm_inv E s \<Longrightarrow> ready s \<Longrightarrow> run s = (Inr u, s') \<Longrightarrow> table_inv E (effect (installed_routes s) (clock s))"
begin

lemma invariant:
  assumes "rm_inv E s" and "ready s" and "run s = (r, s')"
  shows "rm_inv E s'"
proof (rule rm_inv_frame [OF assms(1) frame [OF assms(1,3)]])
  show "table_inv E (installed_routes s')"
    using memory [OF assms(1,3)] keeps [OF assms(1,2)] assms(1,3) by (cases r) (auto simp: rm_inv_def)
qed

lemma failure_keeps_memory:
  "rm_inv E s \<Longrightarrow> run s = (Inl e, s') \<Longrightarrow> installed_routes s' = installed_routes s"
  using memory by fastforce

lemma settings_kept: "rm_inv E s \<Longrightarrow> run s = (r, s') \<Longrightarrow> get_global_route s' = get_global_route s"
  using frame by (auto simp: get_global_route_def table_frame_fields)

lemma no_descriptor_leaks: "rm_inv E s \<Longrightarrow> run s = (r, s') \<Longrightarrow> open_fds s' = open_fds s"
  using frame by (auto simp: table_frame_fields)

lemma other_files_kept:
  "rm_inv E s \<Longrightarrow> run s = (r, s') \<Longrightarrow> p \<noteq> routes_file s \<Longrightarrow> p \<noteq> routes_file s @ ''.tmp'' \<Longrightarrow>
     file_at s' p = file_at s p"
  using frame by (simp add: table_frame_files)

text \<open>What a success wrote, a restart reads back.\<close>

lemma survives_restart:
  assumes inv: "rm_inv E s" "ready s" "strict_order (acl_less E)" and run: "run s = (Inr u, s1)"
    and boot: "s2 = s1\<lparr>installed_routes := [], script := sc\<rparr>" "Fault ENOENT \<notin> set sc"
    and live: "none_expired (clock s) (effect (installed_routes s) (clock s))"
    and load: "load_routes_locked E s2 = (Inr v, s3)"
  shows "installed_routes s3 = forget_attempts (effect (installed_routes s) (clock s))"
proof -
  have m: "installed_routes s1 = effect (installed_routes s) (clock s)" using memory [OF inv(1) run] by simp
  have t: "table_inv E (installed_routes s1)" using keeps [OF inv(1,2) run] m by simp
  have "durable s1" by (rule saved [OF inv(1) run])
  then have stored: "file_at s2 (routes_file s2) = Some (Regular (routes_text (installed_routes s1)))"
    by (simp add: durable_def boot(1) file_at_def)
  have "clock s1 = clock s" using table_frame_fields [OF frame [OF inv(1) run]] by simp
  then show ?thesis
    using load_after_save(1) [OF _ _ inv(3) _ _ _ stored _ _ load] t live boot m by (simp add: table_inv_def)
qed

end

subsection \<open>The operations meet the contract\<close>

text \<open>What the callers of \<open>add\<close> check of its arguments, and the clock a running system has.\<close>

definition request_ok :: "'k env \<Rightarrow> string \<Rightarrow> string \<Rightarrow> string \<Rightarrow> bool" where
  "request_ok E destination gateway key \<longleftrightarrow>
     valid_saved_key key \<and> valid_ipv4 E (Some destination) \<and> plain destination
       \<and> valid_ipv4 E (Some gateway) \<and> plain gateway"

definition add_ready :: "'k env \<Rightarrow> string \<Rightarrow> string \<Rightarrow> string \<Rightarrow> ('k, 'z) rm_s \<Rightarrow> bool" where
  "add_ready E destination gateway key s \<longleftrightarrow>
     strict_order (acl_less E) \<and> request_ok E destination gateway key
       \<and> 0 \<le> clock s \<and> clock s \<le> long_long_max"

lemma add_entry_ok:
  assumes "add_ready E d g k s" and "\<not> ttl_too_large ttl (clock s)"
  shows "entry_ok E (k, d, add_metadata g ttl (clock s))"
  using assms
  by (auto simp: add_ready_def request_ok_def ttl_too_large_def entry_ok_def add_metadata_def long_long_max_def)

interpretation add_op: routes_operation E "add_route E d g k ttl" "add_ready E d g k"
  "\<lambda>m now. put_route (acl_less E) k d (add_metadata g ttl now) m"
proof (unfold_locales, goal_cases)
  case (1 s r s')
  then show ?case by (auto simp: rm_inv_def table_inv_def intro: add_route_effect(1))
next
  case (2 s r s')
  then show ?case by (intro add_route_effect(2)) (auto simp: rm_inv_def table_inv_def)
next
  case (3 s u s')
  then show ?case by (auto simp: rm_inv_def table_inv_def intro: add_route_effect(3))
next
  case (4 s u s')
  then have inv: "table_inv E (installed_routes s)" and ok: "table_ok (installed_routes s)"
    by (auto simp: rm_inv_def table_inv_def)
  have order: "strict_order (acl_less E)" using 4(2) by (simp add: add_ready_def)
  have gw: "md_gateway (add_metadata g ttl (clock s)) = g" by (simp add: add_metadata_def)
  from ok 4(3) show ?case
  proof (cases rule: add_route_cases)
    case (refused e)
    then show ?thesis by simp
  next
    case (shared k' md)
    have "md_gateway md' = g" if "find_route (installed_routes s) j d = Some md'" for j md'
      using inv [unfolded table_inv_def gateways_agree_def] that shared(3,4) by blast
    then show ?thesis
      using table_inv_put [OF inv order add_entry_ok [OF 4(2) shared(2)]] gw by simp
  next
    case created
    then show ?thesis
      using table_inv_put [OF inv order add_entry_ok [OF 4(2) created(2)]] by (auto simp: referenced_def)
  qed
qed

interpretation remove_op: routes_operation E "remove_route E k d g" "\<lambda>s. True" "\<lambda>m now. purge_route d g m"
proof (unfold_locales, goal_cases)
  case (1 s r s')
  from 1(2) show ?case by (cases rule: remove_route_cases) (auto dest: delete_everywhere_effect(1))
next
  case (2 s r s')
  from 2(2) show ?case by (cases rule: remove_route_cases) (auto dest: delete_everywhere_effect(2))
next
  case (3 s u s')
  from 3(2) show ?case by (cases rule: remove_route_cases) (auto dest: delete_everywhere_effect(3))
next
  case (4 s u s')
  then show ?case by (simp add: table_inv_purge rm_inv_def)
qed

interpretation remove_system_op: routes_operation E "remove_system E d g" "\<lambda>s. True" "\<lambda>m now. purge_route d g m"
proof (unfold_locales, goal_cases)
  case (1 s r s')
  from 1(2) show ?case
    by (cases rule: remove_system_cases)
      (auto dest: delete_everywhere_effect(1) intro: table_frame_net table_frame_trans)
next
  case (2 s r s')
  from 2(2) show ?case
  proof (cases rule: remove_system_cases)
    case (refused e)
    then show ?thesis by auto
  next
    case (found rs t)
    have "installed_routes t = installed_routes s" using found(2) by auto
    then show ?thesis using delete_everywhere_effect(2) [OF found(1)] by simp
  qed
next
  case (3 s u s')
  from 3(2) show ?case by (cases rule: remove_system_cases) (auto dest: delete_everywhere_effect(3))
next
  case (4 s u s')
  then show ?case by (simp add: table_inv_purge rm_inv_def)
qed

lemma expire_once_inv: "rm_inv E s \<Longrightarrow> rm_inv E (expire_once E s)"
  using expire_once_effect [of E s "expire_once E s"] table_inv_swept rm_inv_frame
  unfolding rm_inv_def by blast

lemma list_system_inv: "list_system E s = (r, s') \<Longrightarrow> rm_inv E s \<Longrightarrow> rm_inv E s'"
  unfolding list_system_def
  by (drule list_system_routes_frame) (auto simp: rm_inv_def settings_inv_def)

subsection \<open>The settings\<close>

definition global_durable :: "('k, 'z) rm_s \<Rightarrow> bool" where
  "global_durable s \<longleftrightarrow>
     file_at s (global_route_file s) =
       Some (Regular (global_text (global_gateway s) (force_global_gateway s)))"

definition paths_ok :: "('k, 'z) rm_s \<Rightarrow> bool" where
  "paths_ok s \<longleftrightarrow> global_route_file s = routes_file s @ ''.global''"

definition wanted_gateway :: "string option \<Rightarrow> string" where
  "wanted_gateway gateway = (case gateway of None \<Rightarrow> [] | Some g \<Rightarrow> g)"

lemma set_global_cases:
  assumes "set_global_route E gateway force s = (r, s')"
  obtains (refused) "r = Inl ''global gateway must be a valid IPv4 address''" "s' = s"
      "wanted_gateway gateway \<noteq> []" "\<not> valid_ipv4 E gateway"
  | (unsaved) e s1 where "r = Inl e"
      "s' = s1\<lparr>global_gateway := global_gateway s, force_global_gateway := force_global_gateway s\<rparr>"
      "replaces (global_route_file s @ ''.tmp'') (global_route_file s)
        (global_text (wanted_gateway gateway) (wanted_gateway gateway \<noteq> [] \<and> force)) False
        (s\<lparr>global_gateway := wanted_gateway gateway,
           force_global_gateway := (wanted_gateway gateway \<noteq> [] \<and> force)\<rparr>) s1"
  | (changed) "r = Inr ()" "wanted_gateway gateway = [] \<or> valid_ipv4 E gateway"
      "replaces (global_route_file s @ ''.tmp'') (global_route_file s)
        (global_text (wanted_gateway gateway) (wanted_gateway gateway \<noteq> [] \<and> force)) True
        (s\<lparr>global_gateway := wanted_gateway gateway,
           force_global_gateway := (wanted_gateway gateway \<noteq> [] \<and> force)\<rparr>) s'"
proof -
  let ?g = "wanted_gateway gateway"
  let ?s = "s\<lparr>global_gateway := ?g, force_global_gateway := (?g \<noteq> [] \<and> force)\<rparr>"
  have guard: "gateway \<noteq> None \<and> gateway \<noteq> Some [] \<and> \<not> valid_ipv4 E gateway \<longleftrightarrow> ?g \<noteq> [] \<and> \<not> valid_ipv4 E gateway"
    by (cases gateway) (auto simp: wanted_gateway_def)
  note unfolded = assms [unfolded set_global_route_def guard wanted_gateway_def [symmetric] Let_def]
  show ?thesis
  proof (cases "?g \<noteq> [] \<and> \<not> valid_ipv4 E gateway")
    case True
    with unfolded refused show ?thesis by auto
  next
    case False
    obtain x s1 where save: "save_global_route_locked E ?s = (x, s1)" by fastforce
    have rep: "replaces (global_route_file s @ ''.tmp'') (global_route_file s)
        (global_text ?g (?g \<noteq> [] \<and> force)) (succeeds x) ?s s1"
      using save_global_replaces [OF save] by simp
    show ?thesis
    proof (cases x)
      case (Inl e)
      then have rs: "r = Inl e"
        "s' = s1\<lparr>global_gateway := global_gateway s, force_global_gateway := force_global_gateway s\<rparr>"
        using unfolded [unfolded if_not_P [OF False] save] by simp_all
      show ?thesis using unsaved [OF rs] rep Inl by simp
    next
      case (Inr u)
      with unfolded [unfolded if_not_P [OF False] save] rep changed False show ?thesis by auto
    qed
  qed
qed

lemma set_global_effect:
  assumes "set_global_route E gateway force s = (r, s')"
  shows "installed_routes s' = installed_routes s" "routes_file s' = routes_file s"
    "global_route_file s' = global_route_file s" "kernel s' = kernel s"
    and "get_global_route s' = (if succeeds r then (wanted_gateway gateway, wanted_gateway gateway \<noteq> [] \<and> force)
           else get_global_route s)"
    and "succeeds r \<Longrightarrow> global_durable s'"
    and "\<not> succeeds r \<Longrightarrow> file_at s' (global_route_file s) = file_at s (global_route_file s)"
    and "p \<noteq> global_route_file s \<Longrightarrow> p \<noteq> global_route_file s @ ''.tmp'' \<Longrightarrow> file_at s' p = file_at s p"
proof -
  have all: "installed_routes s' = installed_routes s \<and> routes_file s' = routes_file s \<and>
    global_route_file s' = global_route_file s \<and> kernel s' = kernel s \<and>
    get_global_route s' = (if succeeds r then (wanted_gateway gateway, wanted_gateway gateway \<noteq> [] \<and> force)
           else get_global_route s) \<and>
    (succeeds r \<longrightarrow> global_durable s') \<and>
    (\<not> succeeds r \<longrightarrow> file_at s' (global_route_file s) = file_at s (global_route_file s)) \<and>
    (p \<noteq> global_route_file s \<longrightarrow> p \<noteq> global_route_file s @ ''.tmp'' \<longrightarrow> file_at s' p = file_at s p)"
    using assms
  proof (cases rule: set_global_cases)
    case refused
    then show ?thesis by simp
  next
    case (unsaved e s1)
    from unsaved(3) obtain sc fs where "s1 = s\<lparr>global_gateway := wanted_gateway gateway,
           force_global_gateway := (wanted_gateway gateway \<noteq> [] \<and> force), script := sc, files := fs\<rparr>"
      by (auto simp: replaces_def elim!: file_frameE)
    with unsaved show ?thesis by (auto simp: get_global_route_def replaces_def file_at_def)
  next
    case changed
    from changed(3) obtain sc fs where "s' = s\<lparr>global_gateway := wanted_gateway gateway,
           force_global_gateway := (wanted_gateway gateway \<noteq> [] \<and> force), script := sc, files := fs\<rparr>"
      by (auto simp: replaces_def elim!: file_frameE)
    with changed show ?thesis by (auto simp: get_global_route_def replaces_def file_at_def global_durable_def)
  qed
  from all show "installed_routes s' = installed_routes s" "routes_file s' = routes_file s"
    "global_route_file s' = global_route_file s" "kernel s' = kernel s" by simp_all
  from all show "get_global_route s' =
      (if succeeds r then (wanted_gateway gateway, wanted_gateway gateway \<noteq> [] \<and> force)
       else get_global_route s)" by blast
  from all show "succeeds r \<Longrightarrow> global_durable s'" by blast
  from all show "\<not> succeeds r \<Longrightarrow> file_at s' (global_route_file s) = file_at s (global_route_file s)" by blast
  from all show "p \<noteq> global_route_file s \<Longrightarrow> p \<noteq> global_route_file s @ ''.tmp'' \<Longrightarrow> file_at s' p = file_at s p"
    by blast
qed

lemma set_global_inv:
  assumes "set_global_route E gateway force s = (r, s')" and "rm_inv E s" and "plain (wanted_gateway gateway)"
  shows "rm_inv E s'"
  using assms(1)
proof (cases rule: set_global_cases)
  case refused
  with assms(2) show ?thesis by simp
next
  case (unsaved e s1)
  then have "installed_routes s' = installed_routes s" "get_global_route s' = get_global_route s"
    using set_global_effect(1,5) [OF assms(1)] by simp_all
  with assms(2) show ?thesis by (simp add: rm_inv_def settings_inv_def get_global_route_def)
next
  case changed
  then have "installed_routes s' = installed_routes s"
    "get_global_route s' = (wanted_gateway gateway, wanted_gateway gateway \<noteq> [] \<and> force)"
    using set_global_effect(1,5) [OF assms(1)] by simp_all
  moreover have "wanted_gateway gateway \<noteq> [] \<Longrightarrow> valid_ipv4 E (Some (wanted_gateway gateway))"
    using changed(2) by (cases gateway) (auto simp: wanted_gateway_def)
  ultimately show ?thesis
    using assms(2,3) by (auto simp: rm_inv_def settings_inv_def get_global_route_def settings_ok_def)
qed

subsection \<open>Loading\<close>

text \<open>
  The records the reader accepts, from a file without NUL bytes. (\<open>active_routes\<close> is keyed by
  \<open>std::string\<close>, which keeps a NUL; the table by \<open>acl::string\<close>, which ends there.)
\<close>

definition saved_ok :: "'k env \<Rightarrow> saved_route \<Rightarrow> bool" where
  "saved_ok E r \<longleftrightarrow> plain (sv_ip r) \<and> plain (sv_gateway r) \<and>
     entry_ok E (sv_key r, sv_ip r, restored_metadata r)"

lemma split_from_set: "x \<in> set f \<Longrightarrow> f \<in> set (split_from sep acc t) \<Longrightarrow> x \<in> set acc \<union> set t \<and> (x = sep \<longrightarrow> x \<in> set acc)"
  by (induction sep acc t arbitrary: f rule: split_from.induct) (fastforce split: if_splits)+

lemma split_fields_set: "f \<in> set (split_fields sep t) \<Longrightarrow> set f \<subseteq> set t - {sep}"
  using split_from_set [of _ f sep "[]" t] by (fastforce simp: split_fields_def)

lemma parse_saved_ok:
  assumes "parse_saved_route E l = Some r" and "nul \<notin> set l" and "newline \<notin> set l"
  shows "saved_ok E r"
proof -
  obtain key ip gateway t x where f: "split_fields tab l = [key, ip, gateway, t, x]"
    and v: "valid_saved_key key" "valid_ipv4 E (Some ip)" "valid_ipv4 E (Some gateway)"
    and n: "parse_saved_number t = Some (sv_ttl r)" "parse_saved_number x = Some (sv_expires_at r)"
      "0 \<le> sv_ttl r" "0 \<le> sv_expires_at r"
    and r: "sv_key r = key" "sv_ip r = ip" "sv_gateway r = gateway"
    using assms(1) by (auto simp: parse_saved_route_def split: list.splits option.splits if_splits)
  have "set ip \<subseteq> set l - {tab}" and "set gateway \<subseteq> set l - {tab}"
    using split_fields_set [of ip tab l] split_fields_set [of gateway tab l] f by simp_all
  then have pl: "plain ip" "plain gateway" using assms(2,3) by (auto simp: plain_def)
  have "sv_ttl r \<le> long_long_max" "sv_expires_at r \<le> long_long_max"
    using n(1,2) strtoll_all_bounds by (auto simp: parse_saved_number_def)
  with pl v n r show ?thesis
    by (simp add: saved_ok_def entry_ok_def restored_metadata_def)
qed

lemma parse_lines_ok:
  "\<forall>l\<in>set ls. nul \<notin> set l \<and> newline \<notin> set l \<Longrightarrow> \<forall>r\<in>set (parse_lines E first ls). saved_ok E r"
  by (induction E first ls rule: parse_lines.induct) (auto split: option.splits intro: parse_saved_ok)

text \<open>\<open>rs_active\<close> knows the gateway of every destination in the table.\<close>

definition active_knows :: "(string \<times> string) list \<Rightarrow> routes \<Rightarrow> bool" where
  "active_knows active m \<longleftrightarrow>
     (\<forall>k d md. find_route m k d = Some md \<longrightarrow> map_find active d = Some (md_gateway md))"

lemma install_saved_inv:
  assumes "table_inv E m" "active_knows active m" "saved_ok E r" "strict_order (acl_less E)"
    and "map_find active' (sv_ip r) = Some (sv_gateway r)"
    and "\<And>d. d \<noteq> sv_ip r \<Longrightarrow> map_find active' d = map_find active d"
    and "\<And>g. map_find active (sv_ip r) = Some g \<Longrightarrow> g = sv_gateway r"
  shows "table_inv E (put_route (acl_less E) (c_str (sv_key r)) (c_str (sv_ip r)) (restored_metadata r) m) \<and>
    active_knows active' (put_route (acl_less E) (c_str (sv_key r)) (c_str (sv_ip r)) (restored_metadata r) m)"
proof -
  have c: "c_str (sv_key r) = sv_key r" "c_str (sv_ip r) = sv_ip r" "md_gateway (restored_metadata r) = sv_gateway r"
    using assms(3) by (auto simp: saved_ok_def entry_ok_def plain_saved_key restored_metadata_def)
  have gw: "md_gateway md' = sv_gateway r" if "find_route m k' (sv_ip r) = Some md'" for k' md'
    using that assms(2,7) by (auto simp: active_knows_def)
  have "entry_ok E (sv_key r, sv_ip r, restored_metadata r)" using assms(3) by (simp add: saved_ok_def)
  then have "table_inv E (put_route (acl_less E) (sv_key r) (sv_ip r) (restored_metadata r) m)"
    by (rule table_inv_put [OF assms(1,4)]) (simp add: gw c)
  moreover have "active_knows active' (put_route (acl_less E) (sv_key r) (sv_ip r) (restored_metadata r) m)"
    unfolding active_knows_def find_route_put
  proof (intro allI impI)
    fix k d md
    assume a: "(if k = sv_key r \<and> d = sv_ip r then Some (restored_metadata r) else find_route m k d) = Some md"
    show "map_find active' d = Some (md_gateway md)"
    proof (cases "d = sv_ip r")
      case True
      with a gw c(3) assms(5) show ?thesis by (auto split: if_splits)
    next
      case False
      with a assms(2,6) show ?thesis by (simp add: active_knows_def)
    qed
  qed
  ultimately show ?thesis by (simp add: c)
qed

lemma restore_one_inv:
  assumes "restore_one E now r l s = (l', s')" and "saved_ok E r" "strict_order (acl_less E)"
    and "table_inv E (installed_routes s)" "active_knows (rs_active l) (installed_routes s)"
  shows "table_inv E (installed_routes s') \<and> active_knows (rs_active l') (installed_routes s')"
proof (cases "is_expired now r")
  case True
  with assms show ?thesis by (auto simp: restore_one_def)
next
  case live: False
  show ?thesis
  proof (cases "map_find (rs_active l) (sv_ip r)")
    case (Some gw)
    show ?thesis
    proof (cases "gw = sv_gateway r")
      case True
      with assms(1) live Some have "l' = l" "s' = install_saved E r s" by (simp_all add: restore_one_def)
      then have eq: "installed_routes s' = put_route (acl_less E) (c_str (sv_key r)) (c_str (sv_ip r))
          (restored_metadata r) (installed_routes s)" "rs_active l' = rs_active l"
        by (simp_all add: install_saved_def)
      show ?thesis
        unfolding eq by (rule install_saved_inv [OF assms(4,5,2,3)]) (use Some True in simp_all)
    next
      case False
      with assms(1) live Some have "l' = l" "s' = s" by (simp_all add: restore_one_def)
      with assms(4,5) show ?thesis by simp
    qed
  next
    case None
    obtain x s1 where x: "add_system_route E (c_str (sv_ip r)) (c_str (sv_gateway r)) s = (x, s1)" by fastforce
    have m1: "installed_routes s1 = installed_routes s" using add_system_route_frame [OF x] by auto
    show ?thesis
    proof (cases x)
      case (Inl e)
      with assms(1) live None x have "l' = l\<lparr>rs_failed := True\<rparr>" "s' = s1"
        by (simp_all add: restore_one_def)
      with assms(4,5) m1 show ?thesis by simp
    next
      case (Inr u)
      with assms(1) live None x have
        "l' = l\<lparr>rs_active := map_put string_less (sv_ip r) (sv_gateway r) (rs_active l)\<rparr>"
        "s' = install_saved E r s1" by (simp_all add: restore_one_def)
      then have eq: "installed_routes s' = put_route (acl_less E) (c_str (sv_key r)) (c_str (sv_ip r))
          (restored_metadata r) (installed_routes s)"
        "rs_active l' = map_put string_less (sv_ip r) (sv_gateway r) (rs_active l)"
        by (simp_all add: install_saved_def m1)
      show ?thesis
        unfolding eq by (rule install_saved_inv [OF assms(4,5,2,3)]) (use None in \<open>simp_all add: map_find_put\<close>)
    qed
  qed
qed

lemma restore_routes_inv:
  assumes "restore_routes E now rs l s = (l', s')" and "\<forall>r\<in>set rs. saved_ok E r" "strict_order (acl_less E)"
    and "table_inv E (installed_routes s)" "active_knows (rs_active l) (installed_routes s)"
  shows "table_inv E (installed_routes s') \<and> active_knows (rs_active l') (installed_routes s')"
  using assms
proof (induction E now rs l s rule: restore_routes.induct)
  case (1 E now l s)
  then show ?case by simp
next
  case (2 E now r rs l s)
  obtain l1 s1 where one: "restore_one E now r l s = (l1, s1)" by fastforce
  have "table_inv E (installed_routes s1) \<and> active_knows (rs_active l1) (installed_routes s1)"
    by (rule restore_one_inv [OF one]) (use "2.prems" in auto)
  then show ?case using "2.IH" [OF one [symmetric]] "2.prems" one by simp
qed

text \<open>A file without NUL bytes gives lines without NUL bytes.\<close>

definition nul_free :: "string \<Rightarrow> ('k, 'z) os_scheme \<Rightarrow> bool" where
  "nul_free path s \<longleftrightarrow> (\<forall>t. node_text (file_at s path) = Some t \<longrightarrow> nul \<notin> set t)"

lemma getlines_from_set: "l \<in> set (getlines_from acc t) \<Longrightarrow> set l \<subseteq> set acc \<union> set t"
  by (induction acc t arbitrary: l rule: getlines_from.induct) (fastforce split: if_splits)+

lemma getlines_set: "l \<in> set (getlines t) \<Longrightarrow> set l \<subseteq> set t"
  using getlines_from_set [of l "[]" t] by (simp add: getlines_def)

lemma terminated_from_set:
  "l \<in> set (terminated_from acc t) \<Longrightarrow> set l \<subseteq> set acc \<union> set t \<and> (newline \<notin> set acc \<longrightarrow> newline \<notin> set l)"
  by (induction acc t arbitrary: l rule: terminated_from.induct) (fastforce split: if_splits)+

lemma read_lines_clean:
  assumes "read_lines path s = ((ls, c), s')" and "nul_free path s"
  shows "\<forall>l\<in>set ls. nul \<notin> set l \<and> newline \<notin> set l"
proof -
  obtain x s1 where io: "next_io s = (x, s1)" by fastforce
  have same: "file_at s1 path = file_at s path" using next_io_files [OF io] by simp
  show ?thesis
  proof (cases "node_text (file_at s path)")
    case None
    with assms(1) io same show ?thesis by (auto simp: read_lines_def split: io.splits)
  next
    case (Some t)
    then have t: "nul \<notin> set t" using assms(2) by (simp add: nul_free_def)
    show ?thesis
    proof (cases x)
      case Done
      then have "ls = getlines t" using assms(1) io same Some by (simp add: read_lines_def)
      with t show ?thesis using getlines_set getlines_no_newline by blast
    next
      case (Fault n)
      then have "ls = terminated_from [] (take n t)" using assms(1) io same Some by (simp add: read_lines_def)
      with t show ?thesis using terminated_from_set [of _ "[]" "take n t"] set_take_subset [of n t] by fastforce
    qed
  qed
qed

lemma load_routes_cases:
  assumes "load_routes_locked E s = (r, s')"
  obtains (unread) "net_frame s s'" "files s' = files s" "succeeds r \<Longrightarrow> file_at s (routes_file s) = None \<or> Fault ENOENT \<in> set (script s)"
  | (restored) s1 ls s2 l s3 s4 where "open_in (routes_file s) s = (Inr (), s1)"
      "read_lines (routes_file s) s1 = ((ls, True), s2)"
      "restore_routes E (clock s) (parse_lines E True ls) \<lparr>rs_active = [], rs_expired = [], rs_failed = False\<rparr> s2 = (l, s3)"
      "s4 = clean_expired E (rs_active l) (rs_expired l) s3"
      "(r, s') = (if rs_failed l then (Inl ''one or more persisted routes could not be restored'', s4)
                  else save_routes_locked E s4)"
proof -
  obtain r1 s1 where o1: "open_in (routes_file s) s = (r1, s1)" by fastforce
  have f1: "file_frame s s1" "files s1 = files s" using open_in_frame [OF o1] by simp_all
  then have s1: "routes_file s1 = routes_file s" "clock s1 = clock s" "net_frame s s1"
    by (auto simp: net_frame_def)
  show ?thesis
  proof (cases r1)
    case (Inl e)
    have "file_at s (routes_file s) = None \<or> Fault ENOENT \<in> set (script s)" if "e = ENOENT"
      using open_in_present o1 Inl that by blast
    then show ?thesis
      using unread s1(3) f1(2) assms o1 Inl by (auto simp: load_routes_locked_def split: if_splits)
  next
    case (Inr u)
    obtain ls c s2 where o2: "read_lines (routes_file s) s1 = ((ls, c), s2)" by (metis prod.exhaust)
    have f2: "file_frame s1 s2" "files s2 = files s1" using read_lines_frame [OF o2] by simp_all
    then have s2: "clock s2 = clock s1" "net_frame s1 s2" by (auto simp: net_frame_def)
    show ?thesis
    proof (cases c)
      case False
      then show ?thesis
        using unread net_frame_trans [OF s1(3) s2(2)] f1 f2 assms o1 o2 Inr s1(1)
        by (auto simp: load_routes_locked_def)
    next
      case True
      obtain l s3 where o3: "restore_routes E (clock s) (parse_lines E True ls)
          \<lparr>rs_active = [], rs_expired = [], rs_failed = False\<rparr> s2 = (l, s3)" by fastforce
      show ?thesis
        by (rule restored [OF _ _ o3 refl])
          (use assms o1 o2 o3 Inr True s1 s2 in \<open>simp_all add: load_routes_locked_def Let_def\<close>)
    qed
  qed
qed

lemma table_frame_load: "load_frame s s' \<Longrightarrow> table_frame s s'"
  unfolding table_frame_def by (auto simp: file_at_def elim!: load_frameE)

lemma load_routes_effect:
  assumes "load_routes_locked E s = (r, s')"
  shows "table_frame s s'"
    and "installed_routes s = [] \<Longrightarrow> strict_order (acl_less E) \<Longrightarrow> nul_free (routes_file s) s \<Longrightarrow>
      table_inv E (installed_routes s')"
    and "file_at s (routes_file s) \<noteq> None \<Longrightarrow> Fault ENOENT \<notin> set (script s) \<Longrightarrow> succeeds r \<Longrightarrow> durable s'"
    and "\<not> succeeds r \<Longrightarrow> file_at s' (routes_file s) = file_at s (routes_file s)"
proof -
  have "table_frame s s' \<and>
    (installed_routes s = [] \<longrightarrow> strict_order (acl_less E) \<longrightarrow> nul_free (routes_file s) s \<longrightarrow>
      table_inv E (installed_routes s')) \<and>
    (file_at s (routes_file s) \<noteq> None \<longrightarrow> Fault ENOENT \<notin> set (script s) \<longrightarrow> succeeds r \<longrightarrow> durable s') \<and>
    (\<not> succeeds r \<longrightarrow> file_at s' (routes_file s) = file_at s (routes_file s))"
    using assms
  proof (cases rule: load_routes_cases)
    case unread
    then have "installed_routes s' = installed_routes s" and "file_at s' p = file_at s p" for p
      by (auto simp: file_at_def)
    with unread table_frame_net [OF unread(1)] show ?thesis by auto
  next
    case (restored s1 ls s2 l s3 s4)
    let ?l0 = "\<lparr>rs_active = [], rs_expired = [], rs_failed = False\<rparr>"
    have n1: "net_frame s s1" and m1: "files s1 = files s"
      using open_in_frame [OF restored(1)] by (auto simp: net_frame_def)
    have n2: "net_frame s1 s2" and m2: "files s2 = files s1"
      using read_lines_frame [OF restored(2)] by (auto simp: net_frame_def)
    have n12: "net_frame s s2" by (rule net_frame_trans [OF n1 n2])
    have n4: "net_frame s3 s4" unfolding restored(4) by (rule clean_expired_frame)
    have f4: "table_frame s s4"
      using table_frame_trans [OF table_frame_net [OF n12] table_frame_trans
        [OF table_frame_load [OF restore_routes_frame [OF restored(3)]] table_frame_net [OF n4]]] .
    have file4: "file_at s4 p = file_at s p" for p
    proof -
      have "file_at s2 p = file_at s p" by (rule net_frame_files [OF n12])
      moreover have "file_at s3 p = file_at s2 p"
        using restore_routes_frame [OF restored(3)] by (auto simp: file_at_def)
      ultimately show ?thesis using net_frame_files [OF n4] by simp
    qed
    have inv: "table_inv E (installed_routes s4)"
      if "installed_routes s = []" "strict_order (acl_less E)" "nul_free (routes_file s) s"
    proof -
      have "nul_free (routes_file s) s1" using that(3) m1 by (simp add: nul_free_def file_at_def)
      then have ok: "\<forall>r\<in>set (parse_lines E True ls). saved_ok E r"
        using parse_lines_ok read_lines_clean [OF restored(2)] by blast
      have m2: "installed_routes s2 = []" using n12 that(1) by auto
      have "table_inv E (installed_routes s3) \<and> active_knows (rs_active l) (installed_routes s3)"
        by (rule restore_routes_inv [OF restored(3) ok that(2)])
          (simp_all add: m2 active_knows_def find_route_Nil)
      moreover have "installed_routes s4 = installed_routes s3" using n4 by auto
      ultimately show ?thesis by simp
    qed
    show ?thesis
    proof (cases "rs_failed l")
      case True
      with restored(5) f4 inv file4 show ?thesis by simp
    next
      case False
      then have save: "save_routes_locked E s4 = (r, s')" using restored(5) by simp
      note e = save_routes_effect [OF save]
      show ?thesis
        using table_frame_trans [OF f4 table_frame_save [OF save]] inv e file4 table_frame_fields(1) [OF f4]
        by auto
    qed
  qed
  then show "table_frame s s'"
    and "installed_routes s = [] \<Longrightarrow> strict_order (acl_less E) \<Longrightarrow> nul_free (routes_file s) s \<Longrightarrow>
      table_inv E (installed_routes s')"
    and "file_at s (routes_file s) \<noteq> None \<Longrightarrow> Fault ENOENT \<notin> set (script s) \<Longrightarrow> succeeds r \<Longrightarrow> durable s'"
    and "\<not> succeeds r \<Longrightarrow> file_at s' (routes_file s) = file_at s (routes_file s)"
    by blast+
qed

lemma read_lines_one_line:
  assumes "read_lines path s = ((ls, c), s')"
  shows "\<forall>l\<in>set ls. newline \<notin> set l"
proof -
  consider "ls = []" | t where "ls = getlines t" | t where "ls = terminated_from [] t"
    using assms by (auto simp: read_lines_def split: prod.splits io.splits option.splits)
  then show ?thesis
  proof cases
    case 1
    then show ?thesis by simp
  next
    case 2
    then show ?thesis using getlines_no_newline by blast
  next
    case 3
    then show ?thesis using terminated_from_set [of _ "[]"] by fastforce
  qed
qed

lemma parse_global_ok:
  assumes "parse_global_record E l = Inr (g, f)" and "newline \<notin> set l"
  shows "settings_ok E (g, f)"
proof -
  obtain gateway force where s: "split_fields tab l = [gateway, force]"
    and v: "valid_ipv4 E (Some gateway)" "g = c_str gateway"
    using assms(1) by (auto simp: parse_global_record_def split: list.splits if_splits)
  have "set gateway \<subseteq> set l - {tab}" using split_fields_set [of gateway tab l] s by simp
  then have "plain g" using v(2) set_c_str_subset [of gateway] assms(2) by (auto simp: plain_def)
  moreover have "valid_ipv4 E (Some g)" using v by (simp add: valid_ipv4_def split: if_splits)
  ultimately show ?thesis by (simp add: settings_ok_def)
qed

lemma load_global_effect:
  assumes "load_global_route_locked E s = (r, s')"
  shows "installed_routes s' = installed_routes s" "files s' = files s" "routes_file s' = routes_file s"
    "worker_started s' = worker_started s" "worker_stopping s' = worker_stopping s"
    "global_route_file s' = global_route_file s" "clock s' = clock s" "kernel s' = kernel s"
    and "settings_inv E s \<Longrightarrow> settings_inv E s'"
proof -
  obtain r1 s1 where o1: "open_in (global_route_file s) s = (r1, s1)" by fastforce
  obtain ls c s2 where o2: "read_lines (global_route_file s1) s1 = ((ls, c), s2)" by (metis prod.exhaust)
  have f1: "file_frame s s1" "files s1 = files s" using open_in_frame [OF o1] by simp_all
  have f2: "file_frame s1 s2" "files s2 = files s1" using read_lines_frame [OF o2] by simp_all
  have f: "file_frame s s2" "files s2 = files s" using f1 f2 file_frame_trans by auto
  have nl: "\<forall>l\<in>set ls. newline \<notin> set l" by (rule read_lines_one_line [OF o2])
  consider "s' = s1" | "s' = s2" | g f where "s' = s2\<lparr>global_gateway := g, force_global_gateway := f\<rparr>"
      "g = [] \<and> \<not> f \<or> (\<exists>l\<in>set ls. parse_global_record E l = Inr (g, f))"
  proof (cases r1)
    case (Inl e)
    then have "s' = s1" using assms o1 by (simp add: load_global_route_locked_def split: if_splits)
    then show thesis by (rule that(1))
  next
    case (Inr u)
    note load = assms [unfolded load_global_route_locked_def o1 Inr prod.case sum.case o2]
    show thesis
    proof (cases ls)
      case Nil
      with load that(2) show thesis by simp
    next
      case (Cons h rest)
      show thesis
      proof (cases "h = global_header \<and> rest \<noteq> [] \<and> hd rest \<noteq> []")
        case False
        then have "s' = s2 \<or> s' = s2\<lparr>global_gateway := [], force_global_gateway := False\<rparr>"
          using load Cons by (cases rest) (simp_all split: if_splits)
        then show thesis using that(2) that(3) [of False "[]"] by blast
      next
        case True
        then obtain l rest' where rest: "rest = l # rest'" "l \<noteq> []" by (cases rest) auto
        show thesis
        proof (cases "parse_global_record E l")
          case (Inl e)
          with load Cons True rest that(2) show thesis by simp
        next
          case (Inr gf)
          obtain g f where gf: "gf = (g, f)" by (cases gf)
          have "s' = s2\<lparr>global_gateway := g, force_global_gateway := f\<rparr>"
            using load Cons True rest Inr gf by simp
          then show thesis using that(3) [of f g] Cons rest Inr gf by simp
        qed
      qed
    qed
  qed
  then have "installed_routes s' = installed_routes s \<and> files s' = files s \<and> routes_file s' = routes_file s \<and>
    worker_started s' = worker_started s \<and> worker_stopping s' = worker_stopping s \<and>
    global_route_file s' = global_route_file s \<and> clock s' = clock s \<and> kernel s' = kernel s \<and>
    (settings_inv E s \<longrightarrow> settings_inv E s')"
  proof cases
    case 1
    with f1 show ?thesis by (auto simp: settings_inv_def)
  next
    case 2
    with f show ?thesis by (auto simp: settings_inv_def)
  next
    case (3 g f')
    then have "g = [] \<and> \<not> f' \<or> settings_ok E (g, f')" using parse_global_ok nl by blast
    with 3(1) f show ?thesis by (auto simp: settings_inv_def)
  qed
  then show "installed_routes s' = installed_routes s" "files s' = files s" "routes_file s' = routes_file s"
    "worker_started s' = worker_started s" "worker_stopping s' = worker_stopping s"
    "global_route_file s' = global_route_file s" "clock s' = clock s" "kernel s' = kernel s"
    and "settings_inv E s \<Longrightarrow> settings_inv E s'" by blast+
qed

lemma start_routes_effect:
  assumes "strict_order (acl_less E)" and "nul_free (routes_file s) s" and "\<not> worker_started s"
  shows "rm_inv E (start_routes E s)" and "worker_started (start_routes E s)"
    and "\<not> worker_stopping (start_routes E s)" and "routes_file (start_routes E s) = routes_file s"
    and "global_route_file (start_routes E s) = global_route_file s"
proof -
  let ?s0 = "s\<lparr>worker_started := True, worker_stopping := False, installed_routes := [],
               global_gateway := [], force_global_gateway := False\<rparr>"
  obtain r1 s1 where g: "load_global_route_locked E ?s0 = (r1, s1)" by fastforce
  obtain r2 s2 where l: "load_routes_locked E s1 = (r2, s2)" by fastforce
  have s2: "start_routes E s = s2" using assms(3) g l by (simp add: start_routes_def)
  note e1 = load_global_effect [OF g] and e2 = load_routes_effect [OF l]
  note f2 = table_frame_fields [OF e2(1)]
  have "nul_free (routes_file s1) s1" using assms(2) e1(2,3) by (simp add: nul_free_def file_at_def)
  then have "table_inv E (installed_routes s2)" using e2(2) e1(1) assms(1) by simp
  moreover have "settings_inv E s1" using e1(9) by (simp add: settings_inv_def)
  ultimately show "rm_inv E (start_routes E s)"
    unfolding s2 rm_inv_def using settings_inv_frame [OF e2(1)] by blast
  show "worker_started (start_routes E s)" "\<not> worker_stopping (start_routes E s)"
    "routes_file (start_routes E s) = routes_file s" "global_route_file (start_routes E s) = global_route_file s"
    unfolding s2 using f2 e1 by simp_all
qed

lemma start_routes_clock: "clock (start_routes E s) = clock s"
proof (cases "worker_started s")
  case True
  then show ?thesis by (simp add: start_routes_def)
next
  case False
  let ?s0 = "s\<lparr>worker_started := True, worker_stopping := False, installed_routes := [],
               global_gateway := [], force_global_gateway := False\<rparr>"
  obtain r1 s1 where g: "load_global_route_locked E ?s0 = (r1, s1)" by fastforce
  obtain r2 s2 where l: "load_routes_locked E s1 = (r2, s2)" by fastforce
  show ?thesis
    using False g l load_global_effect(7) [OF g] table_frame_fields(7) [OF load_routes_effect(1) [OF l]]
    by (simp add: start_routes_def)
qed

end
