(* ===== verification/Route_Worker.thy ===== *)
theory Route_Worker
  imports Route_Invariant
begin

text \<open>
  The route manager as a system of threads: the request threads, the controller thread that calls
  \<open>set_storage_path\<close>, \<open>start\<close> and \<open>stop\<close>, and the expiry worker. Each critical section under
  \<open>routes_mutex\<close> is one step; \<open>stop\<close> has two of them with the join between. \<open>outside\<close> is everything
  the process does not control: the clock, the outcomes of system calls, the kernel's table and the
  files as others edit them.
\<close>

subsection \<open>Steps\<close>

datatype request =
  Add_route string string string int
| Remove_route string string string
| Remove_system string string
| Set_global "string option" bool
| List_system

text \<open>What \<open>route_service.cpp\<close> has checked when it calls the manager.\<close>

fun accepts :: "'k env \<Rightarrow> request \<Rightarrow> bool" where
  "accepts E (Add_route destination gateway key ttl) = request_ok E destination gateway key"
| "accepts E (Set_global gateway force) = plain (wanted_gateway gateway)"
| "accepts E _ = True"

fun serve :: "'k env \<Rightarrow> request \<Rightarrow> ('k, 'z) rm_s \<Rightarrow> ('k, 'z) rm_s" where
  "serve E (Add_route destination gateway key ttl) s = snd (add_route E destination gateway key ttl s)"
| "serve E (Remove_route key destination gateway) s = snd (remove_route E key destination gateway s)"
| "serve E (Remove_system destination gateway) s = snd (remove_system E destination gateway s)"
| "serve E (Set_global gateway force) s = snd (set_global_route E gateway force s)"
| "serve E List_system s = snd (list_system E s)"

text \<open>
  \<open>expiration_worker\<close>: no thread, a thread in its loop, or one that has left the loop and waits to be
  joined.
\<close>

datatype worker = Absent | Running | Exited

datatype stopper = Idle | Signalled | Joined

record 'k rsys =
  mem :: "'k rm"
  worker_thread :: worker
  stopping_at :: stopper
  terminated :: bool

text \<open>\<open>start\<close> as a whole: assigning to a \<open>std::thread\<close> that is still joinable calls \<open>std::terminate\<close>.\<close>

definition start_worker :: "'k env \<Rightarrow> 'k rsys \<Rightarrow> 'k rsys" where
  "start_worker E c =
     (if worker_started (mem c) then c
      else c\<lparr>mem := start_routes E (mem c), worker_thread := Running,
             terminated := (terminated c \<or> worker_thread c \<noteq> Absent)\<rparr>)"

definition stop_signal :: "'k rsys \<Rightarrow> 'k rsys" where
  "stop_signal c =
     (if \<not> worker_started (mem c) then c
      else c\<lparr>mem := (mem c)\<lparr>worker_stopping := True\<rparr>, stopping_at := Signalled\<rparr>)"

definition stop_finish :: "'k rsys \<Rightarrow> 'k rsys" where
  "stop_finish c = c\<lparr>mem := (mem c)\<lparr>worker_started := False\<rparr>, stopping_at := Idle\<rparr>"

inductive rstep :: "'k env \<Rightarrow> 'k rsys \<Rightarrow> 'k rsys \<Rightarrow> bool" for E where
  request: "accepts E q \<Longrightarrow> rstep E c (c\<lparr>mem := serve E q (mem c)\<rparr>)"
| storage: "stopping_at c = Idle \<Longrightarrow> rstep E c (c\<lparr>mem := set_storage_path p (mem c)\<rparr>)"
| start: "stopping_at c = Idle \<Longrightarrow> nul_free (routes_file (mem c)) (mem c) \<Longrightarrow> rstep E c (start_worker E c)"
| signal: "stopping_at c = Idle \<Longrightarrow> rstep E c (stop_signal c)"
| join: "stopping_at c = Signalled \<Longrightarrow> worker_thread c \<noteq> Running \<Longrightarrow>
    rstep E c (c\<lparr>worker_thread := Absent, stopping_at := Joined\<rparr>)"
| finish: "stopping_at c = Joined \<Longrightarrow> rstep E c (stop_finish c)"
| turn: "worker_thread c = Running \<Longrightarrow> \<not> worker_stopping (mem c) \<Longrightarrow>
    rstep E c (c\<lparr>mem := expire_once E (mem c)\<rparr>)"
| leave: "worker_thread c = Running \<Longrightarrow> worker_stopping (mem c) \<Longrightarrow> rstep E c (c\<lparr>worker_thread := Exited\<rparr>)"
| outside: "clock (mem c) \<le> t \<Longrightarrow> t \<le> long_long_max \<Longrightarrow>
    rstep E c (c\<lparr>mem := (mem c)\<lparr>clock := t, script := sc, kernel := k, files := fs\<rparr>\<rparr>)"

inductive_cases rstepE: "rstep E c c'"

definition initial :: "'k rsys \<Rightarrow> bool" where
  "initial c \<longleftrightarrow>
     \<not> worker_started (mem c) \<and> \<not> worker_stopping (mem c) \<and> installed_routes (mem c) = []
       \<and> global_gateway (mem c) = [] \<and> \<not> force_global_gateway (mem c)
       \<and> routes_file (mem c) = ''routes.db'' \<and> global_route_file (mem c) = ''routes.db.global''
       \<and> worker_thread c = Absent \<and> stopping_at c = Idle \<and> \<not> terminated c
       \<and> 0 \<le> clock (mem c) \<and> clock (mem c) \<le> long_long_max"

inductive reachable :: "'k env \<Rightarrow> 'k rsys \<Rightarrow> bool" for E where
  reach_init: "initial c \<Longrightarrow> reachable E c"
| reach_step: "reachable E c \<Longrightarrow> rstep E c c' \<Longrightarrow> reachable E c'"

subsection \<open>Invariants\<close>

text \<open>How the flags, the thread and the phase of \<open>stop\<close> go together.\<close>

fun phase_ok :: "stopper \<Rightarrow> worker \<Rightarrow> bool \<Rightarrow> bool \<Rightarrow> bool" where
  "phase_ok Idle w started stopping = (if started then w = Running \<and> \<not> stopping else w = Absent)"
| "phase_ok Signalled w started stopping = (w \<noteq> Absent \<and> started \<and> stopping)"
| "phase_ok Joined w started stopping = (w = Absent \<and> started \<and> stopping)"

definition sys_inv :: "'k env \<Rightarrow> 'k rsys \<Rightarrow> bool" where
  "sys_inv E c \<longleftrightarrow>
     rm_inv E (mem c) \<and> paths_ok (mem c) \<and> 0 \<le> clock (mem c) \<and> clock (mem c) \<le> long_long_max
       \<and> phase_ok (stopping_at c) (worker_thread c) (worker_started (mem c)) (worker_stopping (mem c))
       \<and> \<not> terminated c"

text \<open>A request changes neither the flags of the worker nor the paths nor the clock.\<close>

definition control_kept :: "('k, 'z) rm_s \<Rightarrow> ('k, 'z) rm_s \<Rightarrow> bool" where
  "control_kept s s' \<longleftrightarrow>
     worker_started s' = worker_started s \<and> worker_stopping s' = worker_stopping s
       \<and> routes_file s' = routes_file s \<and> global_route_file s' = global_route_file s \<and> clock s' = clock s"

lemma control_kept_frame: "table_frame s s' \<Longrightarrow> control_kept s s'"
  by (simp add: control_kept_def table_frame_fields)

lemma set_global_control:
  assumes "set_global_route E g f s = (r, s')"
  shows "control_kept s s'"
  using assms
proof (cases rule: set_global_cases)
  case refused
  then show ?thesis by (simp add: control_kept_def)
next
  case (unsaved e s1)
  then show ?thesis by (auto simp: control_kept_def replaces_def elim!: file_frameE)
next
  case changed
  then show ?thesis by (auto simp: control_kept_def replaces_def elim!: file_frameE)
qed

lemma serve_inv:
  assumes "accepts E q" and "rm_inv E s" and "strict_order (acl_less E)" and "0 \<le> clock s" "clock s \<le> long_long_max"
  shows "rm_inv E (serve E q s) \<and> control_kept s (serve E q s)"
proof (cases q)
  case (Add_route d g k ttl)
  obtain r s' where run: "add_route E d g k ttl s = (r, s')" by fastforce
  have "add_ready E d g k s" using assms Add_route by (simp add: add_ready_def)
  then show ?thesis
    using add_op.invariant [OF assms(2) _ run] add_op.frame [OF assms(2) run] Add_route run control_kept_frame
    by simp
next
  case (Remove_route k d g)
  obtain r s' where run: "remove_route E k d g s = (r, s')" by fastforce
  show ?thesis
    using remove_op.invariant [OF assms(2) _ run] remove_op.frame [OF assms(2) run] Remove_route run control_kept_frame
    by simp
next
  case (Remove_system d g)
  obtain r s' where run: "remove_system E d g s = (r, s')" by fastforce
  show ?thesis
    using remove_system_op.invariant [OF assms(2) _ run] remove_system_op.frame [OF assms(2) run] Remove_system run
      control_kept_frame
    by simp
next
  case (Set_global g f)
  obtain r s' where run: "set_global_route E g f s = (r, s')" by fastforce
  show ?thesis
    using set_global_inv [OF run assms(2)] set_global_control [OF run] assms(1) Set_global run by simp
next
  case List_system
  obtain r s' where run: "list_system E s = (r, s')" by fastforce
  have "net_frame s s'" using run unfolding list_system_def by (rule list_system_routes_frame)
  then show ?thesis
    using list_system_inv [OF run assms(2)] List_system run control_kept_frame table_frame_net by auto
qed

lemma sys_inv_mem:
  assumes "sys_inv E c" and "rm_inv E s'" and "control_kept (mem c) s'"
  shows "sys_inv E (c\<lparr>mem := s'\<rparr>)"
  using assms by (auto simp: sys_inv_def control_kept_def paths_ok_def)

lemma set_storage_effect:
  "installed_routes (set_storage_path p s) = installed_routes s"
  "get_global_route (set_storage_path p s) = get_global_route s"
  "worker_started (set_storage_path p s) = worker_started s"
  "worker_stopping (set_storage_path p s) = worker_stopping s"
  "clock (set_storage_path p s) = clock s"
  "paths_ok s \<Longrightarrow> paths_ok (set_storage_path p s)"
  by (simp_all add: set_storage_path_def get_global_route_def paths_ok_def Let_def)

lemma rm_inv_cong:
  assumes "rm_inv E s" and "installed_routes s' = installed_routes s" and "get_global_route s' = get_global_route s"
  shows "rm_inv E s'"
  using assms by (simp add: rm_inv_def settings_inv_def get_global_route_def)

lemma start_worker_inv:
  assumes "sys_inv E c" and "strict_order (acl_less E)" and "stopping_at c = Idle"
    and "nul_free (routes_file (mem c)) (mem c)"
  shows "sys_inv E (start_worker E c)"
proof (cases "worker_started (mem c)")
  case True
  with assms(1) show ?thesis by (simp add: start_worker_def)
next
  case False
  note e = start_routes_effect [OF assms(2,4) False]
  have "clock (start_routes E (mem c)) = clock (mem c)"
    by (rule start_routes_clock)
  with False e assms(1,3) show ?thesis by (simp add: start_worker_def sys_inv_def paths_ok_def)
qed

lemma rstep_inv:
  assumes "rstep E c c'" and "sys_inv E c" and "strict_order (acl_less E)"
  shows "sys_inv E c'"
  using assms(1)
proof (cases rule: rstep.cases)
  case (request q)
  have "rm_inv E (serve E q (mem c)) \<and> control_kept (mem c) (serve E q (mem c))"
    by (rule serve_inv [OF request(2)]) (use assms(2,3) in \<open>simp_all add: sys_inv_def\<close>)
  then show ?thesis using sys_inv_mem [OF assms(2)] request(1) by simp
next
  case (storage p)
  have "rm_inv E (set_storage_path p (mem c))"
    by (rule rm_inv_cong [of E "mem c"]) (use assms(2) in \<open>simp_all add: sys_inv_def set_storage_effect\<close>)
  then show ?thesis using assms(2) storage(1) by (simp add: sys_inv_def set_storage_effect)
next
  case start
  show ?thesis unfolding start(1) by (rule start_worker_inv [OF assms(2,3) start(2,3)])
next
  case signal
  have "rm_inv E ((mem c)\<lparr>worker_stopping := True\<rparr>)"
    by (rule rm_inv_cong [of E "mem c"]) (use assms(2) in \<open>simp_all add: sys_inv_def get_global_route_def\<close>)
  then show ?thesis using assms(2) signal by (auto simp: stop_signal_def sys_inv_def paths_ok_def)
next
  case join
  then show ?thesis using assms(2) by (simp add: sys_inv_def)
next
  case finish
  have "rm_inv E ((mem c)\<lparr>worker_started := False\<rparr>)"
    by (rule rm_inv_cong [of E "mem c"]) (use assms(2) in \<open>simp_all add: sys_inv_def get_global_route_def\<close>)
  then show ?thesis using assms(2) finish by (simp add: stop_finish_def sys_inv_def paths_ok_def)
next
  case turn
  have "rm_inv E (expire_once E (mem c))" using assms(2) expire_once_inv by (auto simp: sys_inv_def)
  moreover have "control_kept (mem c) (expire_once E (mem c))"
    by (rule control_kept_frame [OF expire_once_effect(1) [OF refl]])
  ultimately show ?thesis using sys_inv_mem [OF assms(2)] turn(1) by simp
next
  case leave
  then show ?thesis using assms(2) by (cases "stopping_at c") (auto simp: sys_inv_def split: if_splits)
next
  case (outside t fs k sc)
  have "rm_inv E ((mem c)\<lparr>clock := t, script := sc, kernel := k, files := fs\<rparr>)"
    by (rule rm_inv_cong [of E "mem c"]) (use assms(2) in \<open>simp_all add: sys_inv_def get_global_route_def\<close>)
  then show ?thesis using assms(2) outside by (simp add: sys_inv_def paths_ok_def)
qed

lemma reachable_inv: "reachable E c \<Longrightarrow> strict_order (acl_less E) \<Longrightarrow> sys_inv E c"
proof (induction rule: reachable.induct)
  case (reach_init c)
  then show ?case by (simp add: sys_inv_def initial_def rm_inv_def settings_inv_def paths_ok_def)
next
  case (reach_step c c')
  then show ?case using rstep_inv by blast
qed

subsection \<open>Stopping ends\<close>

text \<open>The steps of the worker and of \<open>stop\<close> that finish a stop once it is signalled.\<close>

definition drain :: "'k rsys \<Rightarrow> 'k rsys" where
  "drain c = stop_finish (c\<lparr>worker_thread := Absent, stopping_at := Joined\<rparr>)"

lemma stop_drains:
  assumes "sys_inv E c" and "stopping_at c = Signalled"
  shows "(rstep E)\<^sup>*\<^sup>* c (drain c)"
proof -
  let ?exited = "c\<lparr>worker_thread := Exited\<rparr>"
  let ?joined = "c\<lparr>worker_thread := Absent, stopping_at := Joined\<rparr>"
  have w: "worker_thread c = Running \<or> worker_thread c = Exited" and stop: "worker_stopping (mem c)"
    using assms by (cases "worker_thread c"; auto simp: sys_inv_def)+
  have "(rstep E)\<^sup>*\<^sup>* c ?exited"
  proof (cases "worker_thread c = Running")
    case True
    then show ?thesis using rstep.leave [OF True stop] by blast
  next
    case False
    then have "?exited = c" using w by simp
    then show ?thesis by simp
  qed
  moreover have "rstep E ?exited ?joined" using rstep.join [of ?exited E] assms(2) by simp
  moreover have "rstep E ?joined (drain c)" using rstep.finish [of ?joined E] by (simp add: drain_def)
  ultimately show ?thesis by (meson rtranclp.rtrancl_into_rtrancl)
qed

text \<open>While a stop is in progress the worker takes no further turn.\<close>

lemma no_turn_while_stopping:
  assumes "sys_inv E c" and "stopping_at c \<noteq> Idle"
  shows "worker_stopping (mem c)" and "\<not> (worker_thread c = Running \<and> \<not> worker_stopping (mem c))"
  using assms by (cases "stopping_at c"; auto simp: sys_inv_def)+

end
