(* ===== verification/Domain_Names.thy ===== *)
theory Domain_Names
  imports Domain_Manager
begin

text \<open>
  \<open>valid_domain\<close> against a grammar: the loop over characters accepts exactly the dot-separated lists
  of labels, and what it returns is in normal form and is safe as the name of a file.
\<close>

subsection \<open>The grammar\<close>

definition label_ok :: "string \<Rightarrow> bool" where
  "label_ok l \<longleftrightarrow>
     l \<noteq> [] \<and> length l \<le> 63 \<and> (\<forall>c\<in>set l. isalnum c \<or> c = CHR ''-'')
       \<and> hd l \<noteq> CHR ''-'' \<and> last l \<noteq> CHR ''-''"

definition domain_spec :: "string \<Rightarrow> string option" where
  "domain_spec value =
     (let d = trim_dots value in
      if d \<noteq> [] \<and> length d \<le> 253 \<and> (\<forall>l\<in>set (split_fields (CHR ''.'') d). label_ok l)
      then Some (map tolower d) else None)"

definition ok_part :: "'e + 'a \<Rightarrow> 'a option" where
  "ok_part r = (case r of Inl _ \<Rightarrow> None | Inr x \<Rightarrow> Some x)"

subsection \<open>The loop follows the grammar\<close>

lemma tolower_eq_iff: "\<not> isalnum d \<Longrightarrow> \<not> isupper d \<Longrightarrow> tolower c = d \<longleftrightarrow> c = d"
  by (metis isalnum_def isalnum_tolower tolower_def)

lemma not_alnum [simp]: "\<not> isalnum (CHR ''-'')" "\<not> isalnum (CHR ''.'')" "\<not> isalnum (CHR ''/'')"
  "\<not> isupper (CHR ''-'')" "\<not> isupper (CHR ''.'')" "\<not> isupper (CHR ''/'')"
  by (simp_all add: isalnum_def isdigit_def isupper_def islower_def)

lemma tolower_hyphen [simp]: "tolower c = CHR ''-'' \<longleftrightarrow> c = CHR ''-''"
  by (rule tolower_eq_iff) simp_all

lemma tolower_dot [simp]: "tolower c = CHR ''.'' \<longleftrightarrow> c = CHR ''.''"
  by (rule tolower_eq_iff) simp_all

text \<open>What the code checks of a label when it ends; \<open>p\<close> is the label so far.\<close>

definition loop_ok :: "string + string \<times> char \<times> nat \<Rightarrow> bool" where
  "loop_ok r = (case r of Inl _ \<Rightarrow> False | Inr (t, l, n) \<Rightarrow> \<not> (n = 0 \<or> n > 63 \<or> l = CHR ''-''))"

definition partial :: "string \<Rightarrow> char \<Rightarrow> nat \<Rightarrow> bool" where
  "partial p previous n \<longleftrightarrow>
     n = length p \<and> (\<forall>c\<in>set p. isalnum c \<or> c = CHR ''-'') \<and>
     (p \<noteq> [] \<longrightarrow> hd p \<noteq> CHR ''-'' \<and> (previous = CHR ''-'' \<longleftrightarrow> last p = CHR ''-''))"

lemma partial_label: "partial p previous n \<Longrightarrow> \<not> (n = 0 \<or> n > 63 \<or> previous = CHR ''-'') \<longleftrightarrow> label_ok p"
  by (auto simp: partial_def label_ok_def)

lemma split_from_prefix: "\<exists>f fs. split_from sep acc t = (rev acc @ f) # fs"
proof (induction sep acc t rule: split_from.induct)
  case (1 sep acc)
  then show ?case by simp
next
  case (2 sep acc c cs)
  then show ?case by (cases "c = sep") (auto split: if_splits)
qed

text \<open>A label with a character the code refuses, or a hyphen first, spoils every continuation.\<close>

lemma bad_prefix:
  assumes "\<not> (\<forall>c\<in>set p. isalnum c \<or> c = CHR ''-'') \<or> (p \<noteq> [] \<and> hd p = CHR ''-'')"
  shows "\<not> (\<forall>l\<in>set (split_from (CHR ''.'') (rev p) cs). label_ok l)"
proof -
  obtain f fs where s: "split_from (CHR ''.'') (rev p) cs = (p @ f) # fs"
    using split_from_prefix [of "CHR ''.''" "rev p" cs] by auto
  have "\<not> label_ok (p @ f)" using assms by (auto simp: label_ok_def hd_append)
  with s show ?thesis by simp
qed

lemma domain_loop_labels:
  "partial p previous n \<Longrightarrow>
     loop_ok (domain_loop v previous n cs) \<longleftrightarrow> (\<forall>l\<in>set (split_from (CHR ''.'') (rev p) cs). label_ok l)"
proof (induction v previous n cs arbitrary: p rule: domain_loop.induct)
  case (1 v previous n)
  then show ?case using partial_label [OF "1.prems"] by (simp add: loop_ok_def)
next
  case (2 v previous n c cs)
  note label = partial_label [OF "2.prems"]
  show ?case
  proof (cases "c = CHR ''.''")
    case True
    show ?thesis
    proof (cases "n = 0 \<or> n > 63 \<or> previous = CHR ''-''")
      case bad: True
      with True label show ?thesis by (auto simp: loop_ok_def)
    next
      case False
      have "partial [] c 0" by (simp add: partial_def)
      from "2.IH"(1) [OF True False this] True False label show ?thesis
        by (auto simp: loop_ok_def split: sum.splits prod.splits)
    qed
  next
    case other: False
    show ?thesis
    proof (cases "isalnum c \<or> c = CHR ''-''")
      case False
      then have "\<not> (\<forall>l\<in>set (split_from (CHR ''.'') (rev (p @ [c])) cs). label_ok l)"
        by (intro bad_prefix) auto
      with False other show ?thesis by (simp add: loop_ok_def)
    next
      case ok: True
      show ?thesis
      proof (cases "n = 0 \<and> c = CHR ''-''")
        case True
        then have "p = []" using "2.prems" by (simp add: partial_def)
        then have "\<not> (\<forall>l\<in>set (split_from (CHR ''.'') (rev (p @ [c])) cs). label_ok l)"
          using True by (intro bad_prefix) auto
        with True other show ?thesis by (simp add: loop_ok_def)
      next
        case False
        have "partial (p @ [c]) (tolower c) (Suc n)"
          using "2.prems" ok False by (auto simp: partial_def hd_append)
        from "2.IH"(2) [OF other _ False this] ok other False show ?thesis
          by (auto simp: loop_ok_def split: sum.splits prod.splits)
      qed
    qed
  qed
qed

lemma domain_loop_text: "domain_loop v previous n cs = Inr (t, l, m) \<Longrightarrow> t = map tolower cs"
  by (induction v previous n cs arbitrary: t l m rule: domain_loop.induct)
    (auto split: if_splits sum.splits prod.splits simp: tolower_def isupper_def)

lemma valid_domain_grammar: "ok_part (valid_domain (Some v)) = domain_spec v"
proof (cases "trim_dots v = [] \<or> length (trim_dots v) > 253")
  case True
  then show ?thesis by (auto simp: valid_domain_def domain_spec_def ok_part_def Let_def)
next
  case False
  then have ne: "v \<noteq> []" by (auto simp: trim_dots_def)
  have "partial [] nul 0" by (simp add: partial_def)
  from domain_loop_labels [OF this, of v "trim_dots v"]
  have ok: "loop_ok (domain_loop v nul 0 (trim_dots v)) \<longleftrightarrow>
      (\<forall>l\<in>set (split_fields (CHR ''.'') (trim_dots v)). label_ok l)"
    by (simp add: split_fields_def)
  show ?thesis
  proof (cases "domain_loop v nul 0 (trim_dots v)")
    case (Inl e)
    with False ne ok show ?thesis
      by (auto simp: valid_domain_def domain_spec_def ok_part_def loop_ok_def Let_def)
  next
    case (Inr r)
    obtain t l n where r: "r = (t, l, n)" by (cases r)
    have "t = map tolower (trim_dots v)" using domain_loop_text Inr r by blast
    with False ne ok Inr r show ?thesis
      by (auto simp: valid_domain_def domain_spec_def ok_part_def loop_ok_def Let_def)
  qed
qed

subsection \<open>Accepted names\<close>

lemma valid_domain_Inr:
  assumes "valid_domain v = Inr d"
  obtains x where "v = Some x" "domain_spec x = Some d"
proof (cases v)
  case None
  with assms show ?thesis by (simp add: valid_domain_def)
next
  case (Some x)
  have "domain_spec x = Some d" using assms valid_domain_grammar [of x] Some by (simp add: ok_part_def)
  with Some that show ?thesis by simp
qed

lemma trim_dots_last: "trim_dots t \<noteq> [] \<Longrightarrow> last (trim_dots t) \<noteq> CHR ''.''"
  unfolding trim_dots_def
  by (metis (mono_tags, lifting) hd_dropWhile last_rev rev_is_Nil_conv)

lemma trim_dots_id: "d = [] \<or> last d \<noteq> CHR ''.'' \<Longrightarrow> trim_dots d = d"
  by (cases d rule: rev_cases) (auto simp: trim_dots_def)

lemma split_from_tolower:
  "split_from (CHR ''.'') (map tolower acc) (map tolower t) = map (map tolower) (split_from (CHR ''.'') acc t)"
proof (induction t arbitrary: acc)
  case Nil
  then show ?case by (simp add: rev_map)
next
  case (Cons c t)
  show ?case using Cons.IH [of "[]"] Cons.IH [of "c # acc"] by (simp add: rev_map)
qed

lemma label_ok_tolower [simp]: "label_ok (map tolower l) \<longleftrightarrow> label_ok l"
proof (cases "l = []")
  case False
  then show ?thesis by (auto simp: label_ok_def hd_map last_map)
qed (simp add: label_ok_def)

lemma domain_spec_normal:
  assumes "domain_spec x = Some d"
  shows "domain_spec d = Some d"
proof -
  let ?t = "trim_dots x"
  have t: "?t \<noteq> []" "length ?t \<le> 253" "\<forall>l\<in>set (split_fields (CHR ''.'') ?t). label_ok l"
    and d: "d = map tolower ?t"
    using assms by (auto simp: domain_spec_def Let_def split: if_splits)
  have "trim_dots d = d"
    using trim_dots_last [OF t(1)] t(1) by (intro trim_dots_id) (simp add: d last_map)
  moreover have "split_fields (CHR ''.'') d = map (map tolower) (split_fields (CHR ''.'') ?t)"
    using split_from_tolower [of "[]" ?t] by (simp add: d split_fields_def)
  ultimately show ?thesis using t by (simp add: domain_spec_def Let_def d comp_def)
qed

lemma valid_domain_idem: "valid_domain v = Inr d \<Longrightarrow> valid_domain (Some d) = Inr d"
proof -
  assume "valid_domain v = Inr d"
  then obtain x where "domain_spec x = Some d" by (rule valid_domain_Inr)
  then have "ok_part (valid_domain (Some d)) = Some d"
    using domain_spec_normal valid_domain_grammar by simp
  then show ?thesis by (simp add: ok_part_def split: sum.splits)
qed

text \<open>Every character of a text is in one of its fields or is the separator.\<close>

lemma split_from_all: "c \<in> set acc \<union> set t \<Longrightarrow> c = sep \<or> (\<exists>f\<in>set (split_from sep acc t). c \<in> set f)"
proof (induction t arbitrary: acc)
  case Nil
  then show ?case by auto
next
  case (Cons x t)
  show ?case
  proof (cases "x = sep")
    case True
    with Cons.prems consider "c \<in> set acc" | "c = sep" | "c \<in> set [] \<union> set t" by auto
    then show ?thesis
    proof cases
      case 3
      with Cons.IH True show ?thesis by fastforce
    qed (use True in auto)
  next
    case False
    then show ?thesis using Cons.IH [of "x # acc"] Cons.prems by simp
  qed
qed

lemma accepted_name:
  assumes "valid_domain v = Inr d"
  shows "d \<noteq> []" "length d \<le> 253" "hd d \<noteq> CHR ''.''"
    and "\<forall>c\<in>set d. (isalnum c \<and> \<not> isupper c) \<or> c = CHR ''-'' \<or> c = CHR ''.''"
proof -
  obtain x where "domain_spec x = Some d" using assms by (rule valid_domain_Inr)
  then obtain t where t: "t \<noteq> []" "length t \<le> 253" "\<forall>l\<in>set (split_fields (CHR ''.'') t). label_ok l"
    and d: "d = map tolower t"
    by (auto simp: domain_spec_def Let_def split: if_splits)
  show "d \<noteq> []" "length d \<le> 253" using t d by simp_all
  have "hd t \<noteq> CHR ''.''"
  proof
    assume "hd t = CHR ''.''"
    then obtain u where "t = CHR ''.'' # u" using t(1) by (cases t) auto
    then have "[] \<in> set (split_fields (CHR ''.'') t)" by (simp add: split_fields_def)
    with t(3) show False by (auto simp: label_ok_def)
  qed
  then show "hd d \<noteq> CHR ''.''" using t(1) d by (simp add: hd_map)
  show "\<forall>c\<in>set d. (isalnum c \<and> \<not> isupper c) \<or> c = CHR ''-'' \<or> c = CHR ''.''"
  proof
    fix c assume "c \<in> set d"
    then obtain b where b: "b \<in> set t" "c = tolower b" using d by auto
    have "b = CHR ''.'' \<or> (\<exists>f\<in>set (split_fields (CHR ''.'') t). b \<in> set f)"
      using split_from_all [of b "[]" t "CHR ''.''"] b(1) by (simp add: split_fields_def)
    then have "b = CHR ''.'' \<or> isalnum b \<or> b = CHR ''-''" using t(3) by (auto simp: label_ok_def)
    then show "(isalnum c \<and> \<not> isupper c) \<or> c = CHR ''-'' \<or> c = CHR ''.''" using b(2) by auto
  qed
qed

lemma accepted_no_slash: "valid_domain v = Inr d \<Longrightarrow> CHR ''/'' \<notin> set d"
  using accepted_name(4) by fastforce

text \<open>The file of an accepted name is in the resolver directory and is not the temporary file.\<close>

lemma name_in_path_join: "CHR ''/'' \<notin> set n \<Longrightarrow> n \<noteq> [] \<Longrightarrow> name_in directory (path_join directory n) = Some n"
  by (auto simp: name_in_def path_join_def Let_def)

lemma path_join_inject [simp]: "path_join directory n = path_join directory m \<longleftrightarrow> n = m"
  by (simp add: path_join_def)

lemma path_join_append: "path_join directory n = path_join directory [] @ n"
  by (simp add: path_join_def)

lemma name_in_Some:
  assumes "name_in directory p = Some n"
  shows "p = path_join directory n"
proof -
  let ?k = "length (path_join directory [])"
  have "take ?k p = path_join directory []" "n = drop ?k p"
    using assms by (simp_all add: name_in_def Let_def split: if_splits)
  then show ?thesis unfolding path_join_append [of directory n] by (metis append_take_drop_id)
qed

lemma name_in_iff: "name_in directory p = Some n \<longleftrightarrow> p = path_join directory n \<and> n \<noteq> [] \<and> CHR ''/'' \<notin> set n"
proof
  assume a: "name_in directory p = Some n"
  then show "p = path_join directory n \<and> n \<noteq> [] \<and> CHR ''/'' \<notin> set n"
    using name_in_Some [OF a] by (auto simp: name_in_def Let_def split: if_splits)
next
  assume "p = path_join directory n \<and> n \<noteq> [] \<and> CHR ''/'' \<notin> set n"
  then show "name_in directory p = Some n" using name_in_path_join by simp
qed

lemma path_join_not_temporary:
  assumes "valid_domain v = Inr d"
  shows "path_join (resolver_directory cfg) d \<noteq> temporary_path cfg d'"
    and "path_join (resolver_directory cfg) d \<noteq> resolver_directory cfg"
  using accepted_name(1,3) [OF assms] accepted_no_slash [OF assms]
  by (cases d; auto simp: path_join_def temporary_path_def)+

end
