(* ===== verification/Domain_Effects.thy ===== *)
theory Domain_Effects
  imports Domain_Names
begin

text \<open>
  What \<open>add\<close>, \<open>remove\<close> and \<open>list\<close> of \<open>domain_manager\<close> do to the files: \<open>managed\<close> says a file carries
  the header; only managed files are replaced or deleted.
\<close>

subsection \<open>Managed files\<close>

definition managed_text :: "string \<Rightarrow> bool" where
  "managed_text t \<longleftrightarrow> (\<exists>rest. getlines t = managed_header # rest)"

definition managed :: "fnode option \<Rightarrow> bool" where
  "managed n \<longleftrightarrow> (\<exists>t. n = Some (Regular t) \<and> managed_text t)"

text \<open>The time of creation a managed file records.\<close>

definition recorded_at :: "string \<Rightarrow> int" where
  "recorded_at t = (case getlines t of _ # l # _ \<Rightarrow> line_created_at l | _ \<Rightarrow> 0)"

lemma terminated_from_getlines:
  "terminated_from acc (take n t) = h # rest \<Longrightarrow> \<exists>more. getlines_from acc t = h # more"
proof (induction t arbitrary: acc n)
  case Nil
  then show ?case by simp
next
  case (Cons c t)
  then show ?case by (cases n) (auto split: if_splits)
qed

lemma read_managed_sound:
  assumes "read_managed_file p s = (Some x, s')" and "file_at s p = Some (Regular t)"
  shows "managed_text t"
proof -
  obtain s1 ls c where o: "open_in p s = (Inr (), s1)" and r: "read_lines p s1 = ((ls, c), s')"
    and h: "\<exists>rest. ls = managed_header # rest"
    using assms(1) by (auto simp: read_managed_file_def split: prod.splits sum.splits list.splits if_splits)
  have "file_at s1 p = Some (Regular t)" using open_in_frame [OF o] assms(2) by (simp add: file_at_def)
  then consider "ls = getlines t" | n where "ls = terminated_from [] (take n t)"
    using r by (auto simp: read_lines_def next_io_files split: prod.splits io.splits)
  then show ?thesis
  proof cases
    case 1
    with h show ?thesis by (auto simp: managed_text_def)
  next
    case 2
    with h terminated_from_getlines [of "[]" n t] show ?thesis by (auto simp: managed_text_def getlines_def)
  qed
qed

lemma read_managed_quiet:
  assumes "script s = []" and "file_at s p = Some (Regular t)"
  shows "read_managed_file p s = (if managed_text t then Some (recorded_at t) else None, s)"
  using assms
  by (auto simp: read_managed_file_def open_in_def read_lines_def next_io_def managed_text_def recorded_at_def
      split: list.splits)

lemma read_managed_frame:
  assumes "read_managed_file p s = (x, s')"
  shows "file_frame s s' \<and> files s' = files s"
proof -
  obtain r s1 where o: "open_in p s = (r, s1)" by fastforce
  obtain ls c s2 where l: "read_lines p s1 = ((ls, c), s2)" by (metis prod.exhaust)
  have "s' = s1 \<or> s' = s2"
    using assms o l by (auto simp: read_managed_file_def split: sum.splits list.splits if_splits)
  then show ?thesis using open_in_frame [OF o] read_lines_frame [OF l] file_frame_trans by fastforce
qed

lemma lstat_frame: "lstat p s = (r, s') \<Longrightarrow> file_frame s s' \<and> files s' = files s"
  by (rule next_io_cases [of s])
    (auto simp: lstat_def file_frame_def split: io.splits)

lemma lstat_found:
  assumes "lstat p s = (r, s')"
  shows "r = Inr n \<Longrightarrow> file_at s p = Some n"
    and "Fault ENOENT \<notin> set (script s) \<Longrightarrow> r = Inl ENOENT \<Longrightarrow> file_at s p = None"
  using assms
  by (auto simp: lstat_def next_io_files split: prod.splits io.splits option.splits dest: next_io_not_fault)

subsection \<open>add\<close>

lemma next_io_script_subset: "next_io s = (x, s') \<Longrightarrow> set (script s') \<subseteq> set (script s)"
  by (cases "script s") (auto simp: next_io_def)

text \<open>
  The preparations of \<open>add\<close> change nothing but, possibly, that the missing resolver directory is there
  afterwards; they introduce no outcome that was not in the script.
\<close>

definition prepares :: "string \<Rightarrow> ('k, 'z) os_scheme \<Rightarrow> ('k, 'z) os_scheme \<Rightarrow> bool" where
  "prepares directory s s' \<longleftrightarrow>
     file_frame s s' \<and> set (script s') \<subseteq> set (script s) \<and>
     (\<forall>p. p \<noteq> directory \<or> file_at s p \<noteq> None \<longrightarrow> file_at s' p = file_at s p)"

lemma prepares_refl: "prepares d s s"
  by (simp add: prepares_def file_frame_refl)

lemma prepares_trans: "prepares d s t \<Longrightarrow> prepares d t u \<Longrightarrow> prepares d s u"
  unfolding prepares_def by (metis (no_types, lifting) file_frame_trans subset_trans)

lemma prepares_lstat: "lstat p s = (r, s') \<Longrightarrow> prepares d s s'"
  using lstat_frame [of p s] next_io_script_subset [of s]
  by (fastforce simp: prepares_def lstat_def file_at_def split: prod.splits io.splits)

lemma prepares_mkdir:
  assumes "make_directory d s = (r, s')"
  shows "prepares d s s'"
proof -
  obtain x s1 where io: "next_io s = (x, s1)" by fastforce
  note f1 = next_io_frame [OF io] and q1 = next_io_files [OF io] and sc1 = next_io_script_subset [OF io]
  have p1: "prepares d s s1" using f1 q1 sc1 by (simp add: prepares_def)
  have "prepares d s (set_file d Directory s1)" if "file_at s d = None"
    using file_frame_trans [OF f1 set_file_frame(1)] q1 sc1 that
    by (simp add: prepares_def file_at_set_file) (auto simp: set_file_def)
  then show ?thesis
    using assms p1 io q1 by (auto simp: make_directory_def split: io.splits if_splits)
qed

lemma ensure_directory_effect:
  assumes "ensure_directory E cfg s = (r, s')"
  shows "prepares (resolver_directory cfg) s s'"
proof -
  obtain x s1 where l: "lstat (resolver_directory cfg) s = (x, s1)" by fastforce
  obtain y s2 where m: "make_directory (resolver_directory cfg) s1 = (y, s2)" by fastforce
  have "s' = s1 \<or> s' = s2"
    using assms l m by (auto simp: ensure_directory_def split: sum.splits fnode.splits if_splits)
  then show ?thesis using prepares_lstat [OF l] prepares_trans [OF prepares_lstat [OF l] prepares_mkdir [OF m]] by blast
qed

lemma creation_time_effect:
  assumes "creation_time E p s = (r, s')"
  shows "file_frame s s' \<and> files s' = files s"
    and "Fault ENOENT \<notin> set (script s) \<Longrightarrow> r = Inr t \<Longrightarrow> file_at s p = None \<or> managed (file_at s p)"
proof -
  obtain x s1 where l: "lstat p s = (x, s1)" by fastforce
  obtain y s2 where m: "read_managed_file p s1 = (y, s2)" by fastforce
  note f1 = lstat_frame [OF l] and f2 = read_managed_frame [OF m]
  have "s' = s1 \<or> s' = s2"
    using assms l m by (auto simp: creation_time_def Let_def split: sum.splits fnode.splits if_splits option.splits)
  then show "file_frame s s' \<and> files s' = files s" using f1 f2 file_frame_trans by fastforce
  show "file_at s p = None \<or> managed (file_at s p)" if q: "Fault ENOENT \<notin> set (script s)" and r: "r = Inr t"
  proof (cases x)
    case (Inl e)
    then have "e = ENOENT" using assms l r by (simp add: creation_time_def split: if_splits)
    then show ?thesis using lstat_found(2) [OF l q] Inl by simp
  next
    case (Inr n)
    have n: "file_at s p = Some n" using lstat_found(1) [OF l Inr] .
    obtain u where u: "n = Regular u" using assms l r Inr by (cases n) (auto simp: creation_time_def)
    then obtain v where "y = Some v" using assms l r Inr m by (cases y) (auto simp: creation_time_def Let_def)
    moreover have "file_at s1 p = Some (Regular u)" using f1 n u by (simp add: file_at_def)
    ultimately show ?thesis using read_managed_sound [of p s1 v s2 u] m n u by (auto simp: managed_def)
  qed
qed

lemma read_managed_script: "read_managed_file p s = (x, s') \<Longrightarrow> set (script s') \<subseteq> set (script s)"
proof -
  assume m: "read_managed_file p s = (x, s')"
  obtain r s1 where o: "open_in p s = (r, s1)" by fastforce
  obtain ls c s2 where l: "read_lines p s1 = ((ls, c), s2)" by (metis prod.exhaust)
  have "set (script s1) \<subseteq> set (script s)" 
    using o next_io_script_subset [of s] by (fastforce simp: open_in_def split: prod.splits io.splits if_splits)
  moreover have "set (script s2) \<subseteq> set (script s1)"
    using l next_io_script_subset [of s1] by (fastforce simp: read_lines_def split: prod.splits io.splits option.splits)
  moreover have "s' = s1 \<or> s' = s2"
    using m o l by (auto simp: read_managed_file_def split: sum.splits list.splits if_splits)
  ultimately show ?thesis by blast
qed

lemma creation_time_script:
  assumes "creation_time E p s = (r, s')"
  shows "set (script s') \<subseteq> set (script s)"
proof -
  obtain x s1 where l: "lstat p s = (x, s1)" by fastforce
  obtain y s2 where m: "read_managed_file p s1 = (y, s2)" by fastforce
  have "s' = s1 \<or> s' = s2"
    using assms l m by (auto simp: creation_time_def Let_def split: sum.splits fnode.splits if_splits option.splits)
  moreover have "set (script s1) \<subseteq> set (script s)" using prepares_lstat [OF l] by (simp add: prepares_def)
  ultimately show ?thesis using read_managed_script [OF m] by blast
qed

lemma write_resolver_effect:
  assumes "write_resolver E cfg d p t s = (r, s')" and "p \<noteq> temporary_path cfg d"
  shows "replaces (temporary_path cfg d) p (resolver_text cfg t) (succeeds r) s s'"
proof -
  let ?tmp = "temporary_path cfg d"
  obtain r1 s1 where o1: "open_out ?tmp s = (r1, s1)" by fastforce
  obtain g s2 where o2: "write_out ?tmp (resolver_text cfg t) s1 = (g, s2)" by fastforce
  obtain r3 s3 where o3: "rename_file ?tmp p s2 = (r3, s3)" by fastforce
  note f1 = open_out_frame [OF o1] and q1 = open_out_result [OF o1]
  note f2 = file_frame_trans [OF f1 write_out_frame [OF o2]] and q2 = write_out_result [OF o2]
  note f3 = file_frame_trans [OF f2 rename_file_frame [OF o3]] and q3 = rename_file_result [OF o3]
  have un: "file_frame u (snd (unlink_file ?tmp u)) \<and> (\<forall>q. q \<noteq> ?tmp \<longrightarrow> file_at (snd (unlink_file ?tmp u)) q = file_at u q)" for u :: "('a, 'b) os_scheme"
    by (auto simp: unlink_file_result intro!: unlink_file_frame [OF surjective_pairing])
  show ?thesis
  proof (cases r1)
    case (Inl e)
    with assms o1 have "r = Inl (set_error E ''open temporary resolver file'' (int e))" "s' = s1"
      by (simp_all add: write_resolver_def)
    with f1 q1 assms(2) show ?thesis by (simp add: replaces_def)
  next
    case (Inr u)
    note ok1 = this
    show ?thesis
    proof (cases g)
      case False
      with assms o1 o2 Inr have rs: "\<not> succeeds r" "s' = snd (unlink_file ?tmp s2)"
        by (auto simp: write_resolver_def)
      have "file_frame s (snd (unlink_file ?tmp s2))" using file_frame_trans [OF f2] un by blast
      then show ?thesis using rs q1(1) q2(1) un [of s2] assms(2) by (simp add: replaces_def)
    next
      case True
      show ?thesis
      proof (cases r3)
        case (Inl e)
        with assms o1 o2 o3 ok1 True have rs: "\<not> succeeds r" "s' = snd (unlink_file ?tmp s3)"
          by (auto simp: write_resolver_def)
        have "file_frame s (snd (unlink_file ?tmp s3))" using file_frame_trans [OF f3] un by blast
        then show ?thesis using rs q1(1) q2(1) q3(1) [OF Inl] un [of s3] assms(2) by (simp add: replaces_def)
      next
        case (Inr v)
        with assms o1 o2 o3 ok1 True have "succeeds r" "s' = s3" by (auto simp: write_resolver_def)
        with f3 q1 q2 q3(2,3) [OF Inr] True assms(2) show ?thesis by (simp add: replaces_def)
      qed
    qed
  qed
qed

text \<open>
  The whole of \<open>add\<close>: nothing is written over a file that is not managed, and the rest of the file
  system keeps as it was, whatever fails.
\<close>

lemma add_domain_effect:
  assumes "add_domain E cfg v s = (r, s')"
  obtains (refused) e where "r = Inl e" "file_frame s s'"
      "\<forall>p. p \<noteq> resolver_directory cfg \<or> file_at s p \<noteq> None \<longrightarrow> file_at s' p = file_at s p"
  | (written) d t s1 where "valid_domain v = Inr d" "prepares (resolver_directory cfg) s s1"
      "Fault ENOENT \<notin> set (script s) \<Longrightarrow>
         file_at s (path_join (resolver_directory cfg) d) = None \<or> managed (file_at s (path_join (resolver_directory cfg) d))"
      "replaces (temporary_path cfg d) (path_join (resolver_directory cfg) d) (resolver_text cfg t) (succeeds r) s1 s'"
      "creation_time E (path_join (resolver_directory cfg) d) (snd (ensure_directory E cfg s)) = (Inr t, s1)"
proof (cases "valid_domain v")
  case (Inl e)
  with assms refused show ?thesis by (auto simp: add_domain_def file_frame_refl)
next
  case (Inr d)
  let ?p = "path_join (resolver_directory cfg) d"
  obtain x s1 where e: "ensure_directory E cfg s = (x, s1)" by fastforce
  note p1 = ensure_directory_effect [OF e]
  show ?thesis
  proof (cases x)
    case (Inl a)
    with assms \<open>valid_domain v = Inr d\<close> e have "r = Inl a" "s' = s1" by (simp_all add: add_domain_def)
    with p1 refused show ?thesis by (simp add: prepares_def)
  next
    case (Inr u)
    obtain y s2 where c: "creation_time E ?p s1 = (y, s2)" by fastforce
    note ce = creation_time_effect [OF c]
    have same2: "file_at s2 q = file_at s1 q" for q using ce(1) by (simp add: file_at_def)
    show ?thesis
    proof (cases y)
      case (Inl a)
      with assms \<open>valid_domain v = Inr d\<close> e \<open>x = Inr u\<close> c have "r = Inl a" "s' = s2"
        by (simp_all add: add_domain_def)
      with p1 ce(1) same2 refused show ?thesis using file_frame_trans by (auto simp: prepares_def)
    next
      case (Inr t)
      with assms \<open>valid_domain v = Inr d\<close> e \<open>x = Inr u\<close> c have w: "write_resolver E cfg d ?p t s2 = (r, s')"
        by (simp add: add_domain_def)
      have p2: "prepares (resolver_directory cfg) s s2"
      proof -
        have "file_frame s s2" using p1 ce(1) file_frame_trans by (auto simp: prepares_def)
        moreover have "set (script s2) \<subseteq> set (script s)"
          using p1 creation_time_script [OF c] by (auto simp: prepares_def)
        ultimately show ?thesis using p1 same2 by (simp add: prepares_def)
      qed
      have "file_at s ?p = file_at s1 ?p"
        using p1 path_join_not_temporary(2) [OF \<open>valid_domain v = Inr d\<close>] by (simp add: prepares_def)
      moreover have "Fault ENOENT \<notin> set (script s) \<Longrightarrow> Fault ENOENT \<notin> set (script s1)"
        using p1 by (auto simp: prepares_def)
      ultimately show ?thesis
        using written [OF \<open>valid_domain v = Inr d\<close> p2 _ write_resolver_effect [OF w]]
          path_join_not_temporary(1) [OF \<open>valid_domain v = Inr d\<close>] ce(2) [OF _ Inr] c e Inr by simp
    qed
  qed
qed

subsection \<open>remove\<close>

lemma remove_domain_effect:
  assumes "remove_domain E cfg v s = (r, s')"
  shows "file_frame s s'"
    and "\<not> succeeds r \<Longrightarrow> files s' = files s"
    and "succeeds r \<Longrightarrow> \<exists>d. valid_domain v = Inr d \<and> managed (file_at s (path_join (resolver_directory cfg) d)) \<and>
      (\<forall>p. file_at s' p = (if p = path_join (resolver_directory cfg) d then None else file_at s p))"
proof -
  have "file_frame s s' \<and> (\<not> succeeds r \<longrightarrow> files s' = files s) \<and>
    (succeeds r \<longrightarrow> (\<exists>d. valid_domain v = Inr d \<and> managed (file_at s (path_join (resolver_directory cfg) d)) \<and>
      (\<forall>p. file_at s' p = (if p = path_join (resolver_directory cfg) d then None else file_at s p))))"
  proof (cases "valid_domain v")
    case (Inl e)
    with assms show ?thesis by (auto simp: remove_domain_def file_frame_refl)
  next
    case (Inr d)
    let ?p = "path_join (resolver_directory cfg) d"
    obtain x s1 where l: "lstat ?p s = (x, s1)" by fastforce
    note f1 = lstat_frame [OF l]
    obtain y s2 where m: "read_managed_file ?p s1 = (y, s2)" by fastforce
    note f2 = read_managed_frame [OF m]
    have f12: "file_frame s s2" "files s2 = files s" using f1 f2 file_frame_trans by auto
    obtain z s3 where u: "unlink_file ?p s2 = (z, s3)" by fastforce
    have f3: "file_frame s s3" by (rule file_frame_trans [OF f12(1) unlink_file_frame [OF u]])
    show ?thesis
    proof (cases "\<exists>t a b. x = Inr (Regular t) \<and> y = Some a \<and> z = Inr b")
      case True
      then obtain t a b where xyz: "x = Inr (Regular t)" "y = Some a" "z = Inr b" by blast
      have t: "file_at s ?p = Some (Regular t)" using lstat_found(1) [OF l xyz(1)] .
      then have "managed (file_at s ?p)"
        using read_managed_sound [of ?p s1 a s2 t] m xyz(2) f1 by (simp add: managed_def file_at_def)
      moreover have "file_at s3 q = (if q = ?p then None else file_at s q)" for q
        using unlink_file_done [of ?p s2 b s3 q] u xyz(3) f12(2) by (simp add: file_at_def)
      moreover have "s' = s3" "succeeds r" using assms Inr l m u xyz by (auto simp: remove_domain_def)
      ultimately show ?thesis using Inr f3 by auto
    next
      case False
      have "\<not> succeeds r \<and> (s' = s1 \<or> s' = s2 \<or> s' = s3 \<and> \<not> succeeds z)"
        using assms Inr l m u False
        by (auto simp: remove_domain_def Let_def split: sum.splits fnode.splits option.splits)
      moreover have "files s3 = files s" if "\<not> succeeds z"
        using unlink_file_failed [of ?p s2 z s3] u that f12(2) by simp
      ultimately show ?thesis using f1 f12 f3 by auto
    qed
  qed
  then show "file_frame s s'"
    and "\<not> succeeds r \<Longrightarrow> files s' = files s"
    and "succeeds r \<Longrightarrow> \<exists>d. valid_domain v = Inr d \<and> managed (file_at s (path_join (resolver_directory cfg) d)) \<and>
      (\<forall>p. file_at s' p = (if p = path_join (resolver_directory cfg) d then None else file_at s p))"
    by blast+
qed

subsection \<open>What was written reads back\<close>

lemma stream_number_show_int:
  assumes "long_long_min \<le> n" and "n \<le> long_long_max"
  shows "stream_number (show_int n) = n"
proof (cases "n < 0")
  case True
  have "isspace (CHR ''-'') = False" by (simp add: isspace_def)
  with True assms show ?thesis
    by (simp add: stream_number_def show_int_def read_digits_show_nat)
next
  case False
  with assms show ?thesis
    by (simp add: stream_number_def show_int_def dropWhile_show_nat read_sign_show_nat read_digits_show_nat)
qed

lemma stream_number_bounds: "long_long_min \<le> stream_number t \<and> stream_number t \<le> long_long_max"
  by (auto simp: stream_number_def Let_def long_long_min_def long_long_max_def split: prod.splits)

lemma recorded_at_bounds: "long_long_min \<le> recorded_at t \<and> recorded_at t \<le> long_long_max"
proof -
  have "long_long_min \<le> (0::int) \<and> (0::int) \<le> long_long_max" by (simp add: long_long_min_def long_long_max_def)
  then show ?thesis
    using stream_number_bounds by (auto simp: recorded_at_def line_created_at_def split: list.splits)
qed

lemma resolver_text_lines:
  "\<exists>more. getlines (resolver_text cfg t) = managed_header # (created_prefix @ show_int t) # more"
proof -
  have h: "newline \<notin> set managed_header" by (simp add: managed_header_def)
  have "newline \<notin> set (created_prefix @ show_int t)"
    using plain_show_int [of t] by (auto simp: created_prefix_def)
  note l = getlines_line [OF this]
  show ?thesis
    using getlines_line [OF h] l by (simp add: resolver_text_def)
qed

lemma resolver_text_managed: "managed_text (resolver_text cfg t)"
  using resolver_text_lines [of cfg t] by (auto simp: managed_text_def)

lemma resolver_text_recorded:
  assumes "long_long_min \<le> t" and "t \<le> long_long_max"
  shows "recorded_at (resolver_text cfg t) = t"
  using resolver_text_lines [of cfg t] stream_number_show_int [OF assms]
  by (auto simp: recorded_at_def line_created_at_def)

lemma creation_time_quiet:
  assumes "script s = []"
  shows "creation_time E p s =
    (case file_at s p of
       None \<Rightarrow> (Inr (clock s), s)
     | Some (Regular t) \<Rightarrow>
         if managed_text t then (Inr (if recorded_at t > 0 then recorded_at t else clock s), s)
         else (Inl (''resolver file already exists and is not managed by ip-router: '' @ p), s)
     | Some _ \<Rightarrow> (Inl (''resolver file already exists and is not managed by ip-router: '' @ p), s))"
  using assms read_managed_quiet [of s p]
  by (auto simp: creation_time_def lstat_def next_io_def Let_def split: option.splits fnode.splits)

subsection \<open>list\<close>

lemma list_item_quiet:
  assumes "script s = []"
  shows "list_item cfg n s =
    ((case file_at s (path_join (resolver_directory cfg) n) of
        Some (Regular t) \<Rightarrow>
          if valid_domain (Some n) = Inr n \<and> managed_text t
          then Some \<lparr>de_domain = n, de_created_at = recorded_at t\<rparr> else None
      | _ \<Rightarrow> None), s)"
proof (cases "valid_domain (Some n) = Inr n")
  case True
  then have "\<not> (n \<noteq> [] \<and> hd n = CHR ''.'')" using accepted_name(3) by blast
  with True assms read_managed_quiet [of s "path_join (resolver_directory cfg) n"] show ?thesis
    by (auto simp: list_item_def lstat_def next_io_def Let_def split: option.splits fnode.splits)
next
  case False
  then show ?thesis by (auto simp: list_item_def split: option.splits fnode.splits)
qed

lemma list_item_quiet_iff:
  assumes "script s = []"
  shows "fst (list_item cfg n s) = Some \<lparr>de_domain = d, de_created_at = t\<rparr> \<longleftrightarrow>
    n = d \<and> valid_domain (Some d) = Inr d \<and>
    (\<exists>x. file_at s (path_join (resolver_directory cfg) d) = Some (Regular x) \<and> managed_text x \<and> t = recorded_at x)"
proof (cases "file_at s (path_join (resolver_directory cfg) n)")
  case None
  then show ?thesis by (auto simp: list_item_quiet [OF assms])
next
  case (Some y)
  then show ?thesis by (cases y) (auto simp: list_item_quiet [OF assms])
qed

lemma list_items_quiet:
  "script s = [] \<Longrightarrow> list_items cfg ns s = (List.map_filter (\<lambda>n. fst (list_item cfg n s)) ns, s)"
proof (induction ns)
  case Nil
  then show ?case by (simp add: List.map_filter_def)
next
  case (Cons n ns)
  have "list_item cfg n s = (fst (list_item cfg n s), s)" using list_item_quiet [OF Cons.prems] by simp
  then show ?case using Cons by (auto simp: List.map_filter_def split: prod.splits option.splits)
qed

lemma mem_names_in:
  "n \<in> set (names_in directory s) \<longleftrightarrow> n \<noteq> [] \<and> CHR ''/'' \<notin> set n \<and> file_at s (path_join directory n) \<noteq> None"
proof -
  have dom: "p \<in> fst ` set (AList.clearjunk (files s)) \<longleftrightarrow> file_at s p \<noteq> None" for p
    by (metis (no_types) dom_clearjunk map_of_eq_None_iff file_at_def)
  have "n \<in> set (names_in directory s) \<longleftrightarrow> (\<exists>p\<in>fst ` set (AList.clearjunk (files s)). name_in directory p = Some n)"
    by (force simp: names_in_def List.map_filter_def)
  also have "\<dots> \<longleftrightarrow> (\<exists>p. file_at s p \<noteq> None \<and> name_in directory p = Some n)" using dom by blast
  also have "\<dots> \<longleftrightarrow> n \<noteq> [] \<and> CHR ''/'' \<notin> set n \<and> file_at s (path_join directory n) \<noteq> None"
    unfolding name_in_iff by blast
  finally show ?thesis .
qed

lemma set_insert_entry [simp]: "set (insert_entry lt e es) = insert e (set es)"
  by (induction es) auto

lemma set_sort_entries [simp]: "set (sort_entries lt es) = set es"
proof -
  have "set (fold (insert_entry lt) es acc) = set es \<union> set acc" for acc
    by (induction es arbitrary: acc) auto
  then show ?thesis by (simp add: sort_entries_def)
qed

text \<open>No entry is followed by a smaller one.\<close>

definition entries_sorted :: "(string \<Rightarrow> string \<Rightarrow> bool) \<Rightarrow> domain_entry list \<Rightarrow> bool" where
  "entries_sorted lt es \<longleftrightarrow> sorted_wrt (\<lambda>a b. \<not> lt (de_domain b) (de_domain a)) es"

lemma insert_entry_sorted:
  assumes "strict_order lt"
  shows "entries_sorted lt es \<Longrightarrow> entries_sorted lt (insert_entry lt e es)"
proof (induction es)
  case Nil
  then show ?case by (simp add: entries_sorted_def)
next
  case (Cons x es)
  show ?case
  proof (cases "lt (de_domain e) (de_domain x)")
    case True
    have "\<not> lt (de_domain y) (de_domain e)" if "y \<in> set es" for y
    proof
      assume "lt (de_domain y) (de_domain e)"
      then have "lt (de_domain y) (de_domain x)" using strict_order_trans [OF assms] True by blast
      with Cons.prems that show False by (simp add: entries_sorted_def)
    qed
    with True Cons.prems show ?thesis
      by (auto simp: entries_sorted_def dest: strict_order_asym [OF assms])
  next
    case False
    with Cons show ?thesis by (simp add: entries_sorted_def)
  qed
qed

lemma sort_entries_sorted:
  assumes "strict_order lt"
  shows "entries_sorted lt (sort_entries lt es)"
proof -
  have "entries_sorted lt acc \<Longrightarrow> entries_sorted lt (fold (insert_entry lt) es acc)" for acc
    using insert_entry_sorted [OF assms] by (induction es arbitrary: acc) auto
  then show ?thesis by (simp add: sort_entries_def entries_sorted_def)
qed

lemma list_domains_quiet:
  assumes "script s = []" and "file_at s (resolver_directory cfg) = Some Directory"
    and "list_domains E cfg s = (r, s')"
  shows "s' = s" and "\<exists>es. r = Inr es \<and>
    (\<forall>d t. \<lparr>de_domain = d, de_created_at = t\<rparr> \<in> set es \<longleftrightarrow>
      valid_domain (Some d) = Inr d \<and>
      (\<exists>x. file_at s (path_join (resolver_directory cfg) d) = Some (Regular x) \<and> managed_text x \<and> t = recorded_at x))"
proof -
  let ?es = "List.map_filter (\<lambda>n. fst (list_item cfg n s)) (names_in (resolver_directory cfg) s)"
  have od: "open_directory (resolver_directory cfg) s = (Inr (names_in (resolver_directory cfg) s), s)"
    using assms(1,2) by (simp add: open_directory_def next_io_def)
  have "list_domains E cfg s = (Inr (sort_entries (acl_less E) ?es), s)"
    by (simp add: list_domains_def od list_items_quiet [OF assms(1)])
  then have r: "r = Inr (sort_entries (acl_less E) ?es)" "s' = s" using assms(3) by auto
  then show "s' = s" by simp
  have "\<lparr>de_domain = d, de_created_at = t\<rparr> \<in> set ?es \<longleftrightarrow> valid_domain (Some d) = Inr d \<and>
      (\<exists>x. file_at s (path_join (resolver_directory cfg) d) = Some (Regular x) \<and> managed_text x \<and> t = recorded_at x)"
    (is "?l \<longleftrightarrow> ?r") for d t
  proof -
    have "?l \<longleftrightarrow> (\<exists>n\<in>set (names_in (resolver_directory cfg) s).
        fst (list_item cfg n s) = Some \<lparr>de_domain = d, de_created_at = t\<rparr>)"
      by (force simp: List.map_filter_def)
    also have "\<dots> \<longleftrightarrow> d \<in> set (names_in (resolver_directory cfg) s) \<and> ?r"
      unfolding list_item_quiet_iff [OF assms(1)] by blast
    also have "\<dots> \<longleftrightarrow> ?r"
      using accepted_name(1) accepted_no_slash by (auto simp: mem_names_in)
    finally show ?thesis .
  qed
  then show "\<exists>es. r = Inr es \<and>
    (\<forall>d t. \<lparr>de_domain = d, de_created_at = t\<rparr> \<in> set es \<longleftrightarrow>
      valid_domain (Some d) = Inr d \<and>
      (\<exists>x. file_at s (path_join (resolver_directory cfg) d) = Some (Regular x) \<and> managed_text x \<and> t = recorded_at x))"
    using r by auto
qed

end
