(* ===== verification/Service_Effects.thy ===== *)
theory Service_Effects
  imports Route_Service Route_Worker Domain_Effects
begin

text \<open>
  What the handlers do: every request leaves the route manager's invariant in place, because the
  handlers check their parameters before they call it; the deletion of many routes removes exactly the
  selected ones; the dispatch finds a handler whatever the case of the path.
\<close>

subsection \<open>The state between requests\<close>

text \<open>
  What is assumed of ACL: its order on strings is a strict order, and the text of an address it
  accepts holds no NUL, tab or newline.
\<close>

definition env_ok :: "'k env \<Rightarrow> bool" where
  "env_ok E \<longleftrightarrow> strict_order (acl_less E) \<and> (\<forall>t. acl_inet_pton E t > 0 \<longrightarrow> plain t)"

definition service_inv :: "'k env \<Rightarrow> ('k, 'z) rm_s \<Rightarrow> bool" where
  "service_inv E s \<longleftrightarrow> rm_inv E s \<and> 0 \<le> clock s \<and> clock s \<le> long_long_max"

lemma service_inv_files:
  assumes "service_inv E s" and "file_frame s s'"
  shows "service_inv E s'"
  using assms by (auto simp: service_inv_def rm_inv_def settings_inv_def elim!: file_frameE)

lemma service_inv_net:
  assumes "service_inv E s" and "net_frame (s :: ('k, 'z) rm_s) s'"
  shows "service_inv E s'"
  using assms by (auto simp: service_inv_def rm_inv_def settings_inv_def elim!: net_frameE)

lemma serve_keeps:
  assumes "env_ok E" and "service_inv E s" and "accepts E q"
  shows "service_inv E (serve E q s)"
  using serve_inv [OF assms(3), of s] assms(1,2) by (auto simp: service_inv_def env_ok_def control_kept_def)

lemma write_reply_keeps: "service_inv E s \<Longrightarrow> service_inv E (snd (write_reply r s))"
  by (rule service_inv_files, assumption)
    (auto simp: write_reply_def intro: next_io_frame split: prod.splits io.splits)

lemma reply_keeps:
  "service_inv E s \<Longrightarrow> service_inv E (snd (reply_json a b c d e f g h s))"
  "service_inv E s \<Longrightarrow> service_inv E (snd (reply_object a m s))"
  by (simp_all add: reply_json_def reply_object_def write_reply_keeps)

text \<open>A handler that keeps it, whatever the request.\<close>

definition safe_handler :: "'k env \<Rightarrow> ('k, 'z) rm_s handler \<Rightarrow> bool" where
  "safe_handler E h \<longleftrightarrow> (\<forall>rq s. service_inv E s \<longrightarrow> service_inv E (snd (h rq s)))"

subsection \<open>Parameters\<close>

lemma parameter_no_nul: "parameter rq a b = Some v \<Longrightarrow> c_str v = v"
  by (auto simp: parameter_def get_parameter_def Let_def split: if_splits)

lemma valid_ipv4_plain:
  assumes "env_ok E" and "valid_ipv4 E (Some v)" and "c_str v = v"
  shows "plain v"
  using assms by (auto simp: env_ok_def valid_ipv4_def split: if_splits)

lemma valid_ipv4_the: "valid_ipv4 E v \<Longrightarrow> v = Some (the v)"
  by (cases v) (auto simp: valid_ipv4_def)

lemma valid_route_key_saved: "given key \<Longrightarrow> valid_route_key key \<Longrightarrow> valid_saved_key (the key)"
  by (auto simp: given_def valid_route_key_def valid_saved_key_def)

lemma resolved_gateway:
  assumes "env_ok E" and "service_inv E s" and "resolve_add_gateway E rq s = Inr (g, applied)"
  shows "valid_ipv4 E (Some g) \<and> plain g"
proof -
  let ?r = "parameter rq ''gateway'' ''route''"
  consider "g = c_str (global_gateway s)" "global_gateway s \<noteq> []" | "valid_ipv4 E ?r" "g = the ?r"
    using assms(3)
    by (auto simp: resolve_add_gateway_def get_global_route_def Let_def split: if_splits)
  then show ?thesis
  proof cases
    case 1
    then show ?thesis
      using assms(2) by (auto simp: service_inv_def rm_inv_def settings_inv_def settings_ok_def)
  next
    case 2
    then have "?r = Some g" using valid_ipv4_the by metis
    then show ?thesis using 2 valid_ipv4_plain [OF assms(1)] parameter_no_nul by metis
  qed
qed

lemma add_request_ok:
  assumes "env_ok E" "service_inv E s" "resolve_add_gateway E rq s = Inr (g, applied)"
    and "given key" "valid_route_key key" "valid_ipv4 E (Some d)" "c_str d = d"
  shows "request_ok E d g (the key)"
  using assms resolved_gateway [OF assms(1-3)] valid_ipv4_plain [OF assms(1,6,7)] valid_route_key_saved
  by (simp add: request_ok_def)

subsection \<open>Every handler keeps the invariant\<close>

lemma add_route_keeps:
  "env_ok E \<Longrightarrow> service_inv E s \<Longrightarrow> request_ok E d g k \<Longrightarrow> service_inv E (snd (add_route E d g k t s))"
  using serve_keeps [of E s "Add_route d g k t"] by simp

lemma remove_route_keeps:
  "env_ok E \<Longrightarrow> service_inv E s \<Longrightarrow> service_inv E (snd (remove_route E k d g s))"
  using serve_keeps [of E s "Remove_route k d g"] by simp

lemma change_route_safe:
  assumes "env_ok E"
  shows "safe_handler E (change_route E adding)"
  unfolding safe_handler_def
proof (intro allI impI)
  fix rq s assume inv: "service_inv E s"
  show "service_inv E (snd (change_route E adding rq s))"
  proof (cases adding)
    case True
    have "service_inv E (snd (add_route E (the d) g (the k) t s))"
      if "valid_ipv4 E d" "d = parameter rq ''ip'' ''target''" "resolve_add_gateway E rq s = Inr (g, a)"
        "given k" "valid_route_key k" for d g k t a
    proof -
      define x where "x = the d"
      have x: "d = Some x" unfolding x_def by (rule valid_ipv4_the [OF that(1)])
      then have "c_str x = x" using that(2) parameter_no_nul by metis
      then have "request_ok E x g (the k)" using add_request_ok [OF assms inv that(3-5)] that(1) x by simp
      then show ?thesis using add_route_keeps [OF assms inv] x by simp
    qed
    with True inv show ?thesis
      by (auto simp: change_route_def Let_def reply_keeps split: sum.splits prod.splits)
        (metis reply_keeps(1) snd_conv)+
  next
    case False
    with inv remove_route_keeps [OF assms inv] show ?thesis
      by (auto simp: change_route_def Let_def reply_keeps split: sum.splits prod.splits)
        (metis reply_keeps(1) snd_conv)+
  qed
qed

lemma add_all_keeps:
  assumes "env_ok E"
  shows "service_inv E s \<Longrightarrow> \<forall>d\<in>set ds. request_ok E (c_str d) g k \<Longrightarrow> service_inv E (snd (add_all E g k t ds s))"
proof (induction ds arbitrary: s)
  case Nil
  then show ?case by simp
next
  case (Cons d ds)
  obtain r s1 where r: "add_route E (c_str d) g k t s = (r, s1)" by fastforce
  have "service_inv E s1" using add_route_keeps [OF assms Cons.prems(1), of "c_str d" g k t] Cons.prems(2) r by simp
  then show ?case using Cons.IH [of s1] Cons.prems(2) r by (simp add: case_prod_beta)
qed

text \<open>The three ways through \<open>route_add\<close>.\<close>

definition bulk_reply ::
  "string \<Rightarrow> bool \<Rightarrow> string \<Rightarrow> int \<Rightarrow> (string \<times> (string + unit)) list \<Rightarrow> ('k, 'z) rm_s \<Rightarrow> (bool \<times> reply) \<times> ('k, 'z) rm_s" where
  "bulk_reply gateway applied key ttl results =
     reply_object (bulk_status (length results) (count_ok results))
       [(''success'', JBool (count_ok results = length results)),
        (''message'', JText (if count_ok results = length results then ''all routes added'' else ''one or more routes failed'')),
        (''gateway'', JText gateway), (''global_gateway_applied'', JBool applied), (''key'', JText key),
        (''ttl'', JNumber ttl), (''count'', JNumber (int (length results))),
        (''succeeded'', JNumber (int (count_ok results))),
        (''routes'', JArray (map (\<lambda>(d, r). JObject
           [(''ip'', JText (c_str d)), (''success'', JBool (succeeds r)),
            (''message'', JText (result_message ''route added'' r))]) results))]"

lemma length_add_all: "add_all E g k t ds s = (rs, s') \<Longrightarrow> length rs = length ds \<and> map fst rs = ds"
  by (induction ds arbitrary: s rs) (auto split: prod.splits)

lemma route_add_cases:
  obtains (single) "\<not> given (get_parameter rq ''ips'')" "route_add E rq s = change_route E True rq s"
  | (refused) e where "route_add E rq s = reply_error 400 e s"
  | (bulk) g applied ttl tokens rs s1 where
      "resolve_add_gateway E rq s = Inr (g, applied)" "given (get_route_key rq)" "valid_route_key (get_route_key rq)"
      "parse_ttl rq = Inr ttl" "tokens = acl_split2 E (the (get_parameter rq ''ips'')) separators"
      "tokens \<noteq> []" "length tokens \<le> 256" "\<forall>t\<in>set tokens. valid_ipv4 E (Some (c_str t))"
      "add_all E g (the (get_route_key rq)) ttl (unique_from [] tokens) s = (rs, s1)"
      "route_add E rq s = bulk_reply g applied (the (get_route_key rq)) ttl rs s1"
proof (cases "given (get_parameter rq ''ips'')")
  case False
  then show ?thesis using single by (simp add: route_add_def)
next
  case ips: True
  let ?key = "get_route_key rq" and ?tokens = "acl_split2 E (the (get_parameter rq ''ips'')) separators"
  show ?thesis
  proof (cases "resolve_add_gateway E rq s")
    case (Inl e)
    then show ?thesis using ips refused by (auto simp: route_add_def)
  next
    case (Inr ga)
    obtain g a where ga: "ga = (g, a)" by (cases ga)
    note step1 = route_add_def [of E rq s] ips Inr ga
    show ?thesis
    proof (cases "given ?key \<and> valid_route_key ?key")
      case False
      then have "route_add E rq s = reply_error 400 (if given ?key then bad_key else no_key) s"
        by (auto simp: step1 Let_def)
      then show ?thesis by (rule refused)
    next
      case key: True
      show ?thesis
      proof (cases "parse_ttl rq")
        case (Inl e)
        then have "route_add E rq s = reply_error 400 e s" using key by (simp add: step1 Let_def)
        then show ?thesis by (rule refused)
      next
        case ttl: (Inr t)
        show ?thesis
        proof (cases "?tokens = [] \<or> length ?tokens > 256")
          case True
          then have "route_add E rq s = reply_error 400
              (''parameter '' @ quoted ''ips'' @ '' must contain between 1 and 256 IPv4 addresses'') s"
            using key by (auto simp: step1 ttl Let_def)
          then show ?thesis by (rule refused)
        next
          case few: False
          show ?thesis
          proof (cases "List.find (\<lambda>t. \<not> valid_ipv4 E (Some (c_str t))) ?tokens")
            case (Some t)
            then have "route_add E rq s = reply_error 400 (''invalid IPv4 address in '' @ quoted ''ips'' @ '': '' @ c_str t) s"
              using key few by (simp add: step1 ttl Let_def)
            then show ?thesis by (rule refused)
          next
            case None
            obtain rs s1 where r: "add_all E g (the ?key) t (unique_from [] ?tokens) s = (rs, s1)" by fastforce
            have "\<forall>t\<in>set ?tokens. valid_ipv4 E (Some (c_str t))" using None by (auto simp: find_None_iff)
            moreover have "route_add E rq s = bulk_reply g a (the ?key) t rs s1"
              using key few None length_add_all [OF r] by (simp add: step1 ttl r Let_def bulk_reply_def)
            ultimately show ?thesis
              using bulk [OF Inr [unfolded ga] _ _ ttl refl _ _ _ r] key few by simp
          qed
        qed
      qed
    qed
  qed
qed

lemma route_add_safe:
  assumes "env_ok E"
  shows "safe_handler E (route_add E)"
  unfolding safe_handler_def
proof (intro allI impI)
  fix rq s assume inv: "service_inv E s"
  show "service_inv E (snd (route_add E rq s))"
  proof (cases rule: route_add_cases [of rq E s])
    case single
    then show ?thesis using change_route_safe [OF assms, unfolded safe_handler_def, rule_format, OF inv] by simp
  next
    case (refused e)
    then show ?thesis using inv reply_keeps(1) by simp
  next
    case (bulk g applied ttl tokens rs s1)
    have "service_inv E (snd (add_all E g (the (get_route_key rq)) ttl (unique_from [] tokens) s))"
    proof (rule add_all_keeps [OF assms inv], intro ballI)
      fix d assume "d \<in> set (unique_from [] tokens)"
      then have "valid_ipv4 E (Some (c_str d))" using bulk(8) by (simp add: set_unique_from)
      then show "request_ok E (c_str d) g (the (get_route_key rq))"
        using add_request_ok [OF assms inv bulk(1-3)] by simp
    qed
    then show ?thesis using bulk(9,10) by (simp add: bulk_reply_def reply_keeps)
  qed
qed

lemma delete_all_keeps:
  assumes "env_ok E"
  shows "service_inv E s \<Longrightarrow> service_inv E (snd (delete_all E deleted ts s))"
proof (induction ts arbitrary: s deleted)
  case Nil
  then show ?case by simp
next
  case (Cons p ts)
  obtain k t where p: "p = (k, t)" by (cases p)
  obtain r s1 where r: "(if rt_ip t @ newline # rt_gateway t \<in> set deleted then (Inr (), s)
      else remove_route E k (rt_ip t) (rt_gateway t) s) = (r, s1)" by fastforce
  have "service_inv E s1"
    using r remove_route_keeps [OF assms Cons.prems, of k "rt_ip t" "rt_gateway t"] Cons.prems
    by (auto split: if_splits)
  then show ?case using Cons.IH [of s1] r by (simp add: p Let_def case_prod_beta)
qed

lemma route_delete_safe: "env_ok E \<Longrightarrow> safe_handler E (route_delete E)"
  unfolding safe_handler_def
proof (intro allI impI)
  fix rq s assume a: "env_ok E" "service_inv E s"
  obtain rs s1 where d: "delete_all E [] (selected (get_route_key rq) (parameter rq ''ip'' ''target'') (list_routes s)) s = (rs, s1)"
    by fastforce
  have "service_inv E s1" using delete_all_keeps [OF a] d by (metis snd_conv)
  then show "service_inv E (snd (route_delete E rq s))"
    using a(2) by (simp add: route_delete_def Let_def d reply_keeps)
qed

lemma system_route_delete_safe: "env_ok E \<Longrightarrow> safe_handler E (system_route_delete E)"
  unfolding safe_handler_def
proof (intro allI impI)
  fix rq s assume a: "env_ok E" "service_inv E s"
  have "service_inv E (snd (remove_system E d g s))" for d g
    using serve_keeps [OF a, of "Remove_system d g"] by simp
  with a(2) show "service_inv E (snd (system_route_delete E rq s))"
    by (simp add: system_route_delete_def Let_def reply_keeps split: prod.split sum.split)
      (metis reply_keeps(1) snd_conv)
qed

lemma set_global_keeps:
  "env_ok E \<Longrightarrow> service_inv E s \<Longrightarrow> plain (wanted_gateway g) \<Longrightarrow> service_inv E (snd (set_global_route E g f s))"
  using serve_keeps [of E s "Set_global g f"] by simp

lemma write_settings_keeps: "service_inv E s \<Longrightarrow> service_inv E (snd (write_route_settings m s))"
  by (simp add: write_route_settings_def Let_def get_global_route_def reply_keeps)

lemma settings_handlers_safe:
  assumes "env_ok E"
  shows "safe_handler E route_settings_get" "safe_handler E (route_settings_set E)"
    "safe_handler E (route_settings_delete E)"
proof -
  show "safe_handler E route_settings_get"
    by (simp add: safe_handler_def route_settings_get_def write_settings_keeps)
  show "safe_handler E (route_settings_set E)"
    unfolding safe_handler_def
  proof (intro allI impI)
    fix rq s assume inv: "service_inv E s"
    let ?g = "parameter rq ''gateway'' ''route''"
    have "service_inv E (snd (set_global_route E ?g f s))" if "valid_ipv4 E ?g" for f
    proof -
      have "?g = Some (the ?g)" using valid_ipv4_the [OF that] .
      then have "plain (the ?g)" using valid_ipv4_plain [OF assms] parameter_no_nul that by metis
      then have "plain (wanted_gateway ?g)" using \<open>?g = Some (the ?g)\<close>
        by (cases ?g) (simp_all add: wanted_gateway_def)
      then show ?thesis by (rule set_global_keeps [OF assms inv])
    qed
    with inv show "service_inv E (snd (route_settings_set E rq s))"
      by (simp add: route_settings_set_def Let_def reply_keeps split: prod.split sum.split option.split)
        (metis reply_keeps(1) write_settings_keeps snd_conv)
  qed
  show "safe_handler E (route_settings_delete E)"
    unfolding safe_handler_def
  proof (intro allI impI)
    fix rq s assume inv: "service_inv E s"
    have "service_inv E (snd (set_global_route E (Some []) False s))"
      by (rule set_global_keeps [OF assms inv]) (simp add: wanted_gateway_def plain_def)
    then show "service_inv E (snd (route_settings_delete E rq s))"
      by (simp add: route_settings_delete_def split: prod.split sum.split)
        (metis reply_keeps(1) write_settings_keeps snd_conv)
  qed
qed

lemma domain_op_frame:
  "file_frame s (snd (add_domain E cfg v s))" "file_frame s (snd (remove_domain E cfg v s))"
proof -
  obtain r s' where a: "add_domain E cfg v s = (r, s')" by fastforce
  then have "file_frame s s'"
  proof (cases rule: add_domain_effect)
    case (refused e)
    then show ?thesis by simp
  next
    case (written d t s1)
    then show ?thesis using file_frame_trans by (auto simp: prepares_def replaces_def)
  qed
  with a show "file_frame s (snd (add_domain E cfg v s))" by simp
  show "file_frame s (snd (remove_domain E cfg v s))"
    by (rule remove_domain_effect(1)) (rule surjective_pairing)
qed

lemma change_domains_frame: "file_frame s (snd (change_domains E cfg adding ds s))"
proof (induction ds arbitrary: s)
  case Nil
  then show ?case by (simp add: file_frame_refl)
next
  case (Cons d ds)
  obtain r s1 where r: "(if adding then add_domain E cfg (Some d) s else remove_domain E cfg (Some d) s) = (r, s1)"
    by fastforce
  have "file_frame s s1"
    using r domain_op_frame [of s E cfg "Some d"] by (cases adding) auto
  then show ?case using file_frame_trans [OF _ Cons.IH [of s1]] r by (simp add: case_prod_beta)
qed

lemma wait_program_frame: "wait_program status s = (r, s') \<Longrightarrow> file_frame s s'"
proof (induction status s arbitrary: r s' rule: wait_program.induct)
  case (1 status s)
  obtain x s1 where io: "next_io s = (x, s1)" by fastforce
  note f = next_io_frame [OF io]
  show ?case
  proof (cases x)
    case Done
    then show ?thesis using 1 io f by simp
  next
    case (Fault e)
    show ?thesis
    proof (cases "e = EINTR")
      case True
      then have "wait_program status s1 = (r, s')" using "1.prems" io Fault by simp
      then show ?thesis using "1.IH" [OF io [symmetric]] Fault True file_frame_trans [OF f] by simp
    next
      case False
      then show ?thesis using "1.prems" io Fault f by simp
    qed
  qed
qed

lemma run_program_frame: "run_program E as s = (r, s') \<Longrightarrow> file_frame s s'"
  by (auto simp: run_program_def Let_def split: prod.splits io.splits sum.splits if_splits
      intro: next_io_frame file_frame_trans [OF next_io_frame wait_program_frame]
      simp del: wait_program.simps)

lemma refresh_system_frame: "file_frame s (snd (refresh_system E s))"
proof -
  obtain r s1 where a: "run_program E [''/usr/bin/dscacheutil'', ''-flushcache''] s = (r, s1)" by fastforce
  obtain r' s2 where b: "run_program E [''/usr/bin/killall'', ''-HUP'', ''mDNSResponder''] s1 = (r', s2)" by fastforce
  show ?thesis
    using run_program_frame [OF a] file_frame_trans [OF run_program_frame [OF a] run_program_frame [OF b]] a b
    by (auto simp: refresh_system_def file_frame_refl split: sum.splits)
qed

lemma domain_change_safe: "safe_handler E (domain_change E cf adding)"
  unfolding safe_handler_def
proof (intro allI impI)
  fix rq s assume inv: "service_inv E s"
  show "service_inv E (snd (domain_change E cf adding rq s))"
  proof (cases "collect_domains E rq")
    case (Inl e)
    with inv show ?thesis by (simp add: domain_change_def reply_keeps)
  next
    case (Inr ds)
    obtain rs s1 where c: "change_domains E (cf_resolver cf) adding ds s = (rs, s1)" by fastforce
    obtain r s2 where f: "(if count_ok rs > 0 then refresh_system E s1 else (Inr (), s1)) = (r, s2)" by fastforce
    have "file_frame s s1" using change_domains_frame [of s E "cf_resolver cf" adding ds] c by simp
    moreover have "file_frame s1 s2"
      using f refresh_system_frame [of s1 E] file_frame_refl by (auto split: if_splits)
    ultimately have "service_inv E s2" using service_inv_files [OF inv] file_frame_trans by blast
    then show ?thesis by (simp add: domain_change_def Inr c f Let_def reply_keeps)
  qed
qed

lemma list_items_frame: "file_frame s (snd (list_items cfg ns s))"
proof (induction ns arbitrary: s)
  case Nil
  then show ?case by (simp add: file_frame_refl)
next
  case (Cons n ns)
  obtain e s1 where i: "list_item cfg n s = (e, s1)" by fastforce
  obtain x t where l: "lstat (path_join (resolver_directory cfg) n) s = (x, t)" by fastforce
  obtain y u where m: "read_managed_file (path_join (resolver_directory cfg) n) t = (y, u)" by fastforce
  have "s1 = s \<or> s1 = t \<or> s1 = u"
    using i l m by (auto simp: list_item_def Let_def split: if_splits sum.splits fnode.splits option.splits)
  then have "file_frame s s1"
    using lstat_frame [OF l] read_managed_frame [OF m] file_frame_trans file_frame_refl by metis
  then show ?case using file_frame_trans [OF _ Cons.IH [of s1]] i by (simp add: case_prod_beta)
qed

lemma domain_list_safe: "safe_handler E (domain_list E cf)"
  unfolding safe_handler_def
proof (intro allI impI)
  fix rq s assume inv: "service_inv E s"
  obtain r s1 where o: "open_directory (resolver_directory (cf_resolver cf)) s = (r, s1)" by fastforce
  have f1: "file_frame s s1"
    using o by (auto simp: open_directory_def intro: next_io_frame split: prod.splits io.splits option.splits fnode.splits)
  have "service_inv E (snd (list_domains E (cf_resolver cf) s))"
    using service_inv_files [OF inv] f1 file_frame_trans [OF f1 list_items_frame] o
    by (auto simp: list_domains_def case_prod_beta split: sum.splits)
  then show "service_inv E (snd (domain_list E cf rq s))"
    by (auto simp: domain_list_def reply_keeps split: prod.splits sum.splits)
qed

lemma read_handlers_safe:
  "safe_handler E tld_list" "safe_handler E route_page" "safe_handler E route_list" "safe_handler E health"
proof -
  show "safe_handler E route_list" "safe_handler E health"
    by (simp_all add: safe_handler_def route_list_def health_def Let_def reply_keeps)
  show "safe_handler E tld_list"
    unfolding safe_handler_def
  proof (intro allI impI)
    fix rq s assume inv: "service_inv E s"
    obtain r s1 where o: "open_in tld_file s = (r, s1)" by fastforce
    obtain ls c s2 where l: "read_lines tld_file s1 = ((ls, c), s2)" by (metis prod.exhaust)
    have "service_inv E s1" "service_inv E s2"
      using service_inv_files [OF inv] open_in_frame [OF o] read_lines_frame [OF l] file_frame_trans by blast+
    then show "service_inv E (snd (tld_list rq s))"
      by (simp add: tld_list_def o l Let_def case_prod_beta reply_keeps split: sum.split)
  qed
  show "safe_handler E route_page"
    unfolding safe_handler_def
  proof (intro allI impI)
    fix rq s assume inv: "service_inv E s"
    obtain r s1 where o: "open_in ''html/index.html'' s = (r, s1)" by fastforce
    obtain t s2 where l: "read_all ''html/index.html'' s1 = (t, s2)" by fastforce
    have "file_frame s1 s2" using l by (auto simp: read_all_def intro: next_io_frame split: prod.splits option.splits)
    then have "service_inv E s1" "service_inv E s2"
      using service_inv_files [OF inv] open_in_frame [OF o] file_frame_trans by blast+
    then show "service_inv E (snd (route_page rq s))"
      by (simp add: route_page_def load_html_template_def o l reply_keeps write_reply_keeps split: sum.split)
  qed
qed

lemma system_route_list_safe: "safe_handler E (system_route_list E)"
  unfolding safe_handler_def
proof (intro allI impI)
  fix rq s assume inv: "service_inv E s"
  obtain r s1 where l: "list_system E s = (r, s1)" by fastforce
  have "net_frame s s1" using l unfolding list_system_def by (rule list_system_routes_frame)
  then have "service_inv E s1" by (rule service_inv_net [OF inv])
  then show "service_inv E (snd (system_route_list E rq s))"
    by (simp add: system_route_list_def l reply_keeps split: sum.split)
qed

lemma dns_domain_lookup_safe: "safe_handler E (dns_domain_lookup E cf)"
  by (auto simp: safe_handler_def dns_domain_lookup_def Let_def reply_keeps write_reply_keeps
      split: upstream.split option.split)

subsection \<open>Dispatch\<close>

text \<open>The handler the table has for a type and a path in normal form.\<close>

definition find_handler :: "'s http_service \<Rightarrow> int \<Rightarrow> string \<Rightarrow> 's handler option" where
  "find_handler svc type q = map_find (handlers svc ! nat type) q"

definition type_ok :: "int \<Rightarrow> bool" where
  "type_ok type \<longleftrightarrow> http_handler_get \<le> type \<and> type < http_handler_max"

lemma length_add_service [simp]: "length (handlers (add_service E ty p fn svc)) = length (handlers svc)"
  by (simp add: add_service_def)

lemma default_add_service [simp]: "handler_default (add_service E ty p fn svc) = handler_default svc"
  by (simp add: add_service_def)

lemma find_add_service:
  assumes "length (handlers svc) = nat http_handler_max" and "type_ok type"
  shows "find_handler (add_service E ty p fn svc) type q =
    (if type_ok ty \<and> p \<noteq> [] \<and> type = ty \<and> q = normal_path E p then Some fn else find_handler svc type q)"
  using assms by (auto simp: add_service_def find_handler_def type_ok_def nth_list_update map_find_put)

text \<open>Registering a list: the last registration of a path wins.\<close>

lemma find_registered:
  assumes "length (handlers svc) = nat http_handler_max" and "type_ok type"
  shows "find_handler (fold (\<lambda>(ty, p, fn). add_service E ty p fn) regs svc) type q =
    (case List.find (\<lambda>(ty, p, fn). type_ok ty \<and> p \<noteq> [] \<and> type = ty \<and> q = normal_path E p) (rev regs) of
       Some (ty, p, fn) \<Rightarrow> Some fn | None \<Rightarrow> find_handler svc type q)"
  using assms(1)
proof (induction regs arbitrary: svc)
  case Nil
  then show ?case by simp
next
  case (Cons r regs)
  obtain ty p fn where r: "r = (ty, p, fn)" by (cases r)
  let ?P = "\<lambda>(ty, p, fn). type_ok ty \<and> p \<noteq> [] \<and> type = ty \<and> q = normal_path E p"
  have app: "List.find P (xs @ ys) = (case List.find P xs of None \<Rightarrow> List.find P ys | Some x \<Rightarrow> Some x)" for P xs and ys :: "'x list"
    by (induction xs) auto
  have "length (handlers (add_service E ty p fn svc)) = nat http_handler_max" using Cons.prems by simp
  from Cons.IH [OF this] find_add_service [OF Cons.prems assms(2), of E ty p fn q] show ?case
    by (simp add: r app split: option.split)
qed

lemma length_registered:
  "length (handlers (fold (\<lambda>(ty, p, fn). add_service E ty p fn) regs svc)) = length (handlers svc)"
  by (induction regs arbitrary: svc) auto

lemma default_registered:
  "handler_default (fold (\<lambda>(ty, p, fn). add_service E ty p fn) regs svc) = handler_default svc"
  by (induction regs arbitrary: svc) auto

lemma find_new_service: "type_ok type \<Longrightarrow> find_handler new_http_service type q = None"
proof -
  assume "type_ok type"
  then have "nat type < 13" by (simp add: type_ok_def nat_less_iff)
  then show "find_handler new_http_service type q = None"
    by (simp add: find_handler_def new_http_service_def map_find_Nil)
qed

lemma find_ip_router:
  assumes "type_ok type"
  shows "find_handler (ip_router E cf) type q =
    (case List.find (\<lambda>(ty, p, fn). type_ok ty \<and> p \<noteq> [] \<and> type = ty \<and> q = normal_path E p) (rev (registrations E cf)) of
       Some (ty, p, fn) \<Rightarrow> Some fn | None \<Rightarrow> None)"
proof -
  have n: "length (handlers (new_http_service :: ('a, 'b) rm_s http_service)) = nat http_handler_max"
    by (simp add: new_http_service_def)
  show ?thesis
    unfolding ip_router_def register_route_service_def find_registered [OF n assms] find_new_service [OF assms] ..
qed

lemma default_ip_router: "handler_default (ip_router E cf) = http_not_found"
  by (simp add: ip_router_def register_route_service_def default_registered new_http_service_def)

lemma find_member: "List.find P xs = Some x \<Longrightarrow> x \<in> set xs \<and> P x"
  by (induction xs) (auto split: if_splits)

lemma ip_router_handlers_safe:
  assumes "env_ok E" and "type_ok type" and "find_handler (ip_router E cf) type q = Some fn"
  shows "safe_handler E fn"
proof -
  obtain ty p where "(ty, p, fn) \<in> set (registrations E cf)"
    using assms(3) unfolding find_ip_router [OF assms(2), of E cf q]
    by (auto split: option.splits prod.splits dest!: find_member)
  then show ?thesis
    using route_add_safe [OF assms(1)] route_delete_safe [OF assms(1)] system_route_delete_safe [OF assms(1)]
      settings_handlers_safe [OF assms(1)] domain_change_safe domain_list_safe read_handlers_safe
      system_route_list_safe dns_domain_lookup_safe
    unfolding registrations_def by simp blast
qed

lemma http_not_found_keeps: "service_inv E s \<Longrightarrow> service_inv E (snd (http_not_found p rq s))"
  using write_reply_keeps by (simp add: http_not_found_def Let_def case_prod_beta)

lemma dispatch_path:
  assumes "type_ok type" and "rq_path rq = Some path" and "path \<noteq> []"
  shows "dispatch E svc type rq s =
    (case (case find_handler svc type (normal_path E path) of
             Some fn \<Rightarrow> fn rq s | None \<Rightarrow> handler_default svc (normal_path E path) rq s) of
       ((ok, r), s1) \<Rightarrow> ((ok \<and> rq_keep_alive rq, Some r), s1))"
  using assms by (simp add: dispatch_def type_ok_def find_handler_def Let_def split: option.split)

lemma dispatch_keeps:
  fixes s :: "('k, 'z) rm_s"
  assumes "env_ok E" and "service_inv E s"
  shows "service_inv E (snd (dispatch E (ip_router E cf) type rq s))"
proof (cases "type_ok type")
  case False
  with assms show ?thesis by (auto simp: dispatch_def type_ok_def)
next
  case ok: True
  let ?svc = "ip_router E cf :: ('k, 'z) rm_s http_service"
  show ?thesis
  proof (cases "rq_path rq = None \<or> rq_path rq = Some []")
    case True
    then have "snd (dispatch E ?svc type rq s) = snd (write_reply bad_request s) \<or>
        snd (dispatch E ?svc type rq s) = s"
      by (auto simp: dispatch_def Let_def case_prod_beta)
    then show ?thesis using write_reply_keeps [OF assms(2)] assms(2) by metis
  next
    case False
    then obtain path where path: "rq_path rq = Some path" "path \<noteq> []" by auto
    show ?thesis
    proof (cases "find_handler ?svc type (normal_path E path)")
      case None
      then show ?thesis
        using http_not_found_keeps [OF assms(2), of "normal_path E path" rq]
        by (simp add: dispatch_path [OF ok path] default_ip_router case_prod_beta)
    next
      case (Some fn)
      then show ?thesis
        using ip_router_handlers_safe [OF assms(1) ok Some, unfolded safe_handler_def, rule_format, OF assms(2), of rq]
        by (simp add: dispatch_path [OF ok path] case_prod_beta)
    qed
  qed
qed

lemma servlet_keeps:
  assumes "env_ok E" and "service_inv E s"
  shows "service_inv E (snd (servlet_do E (ip_router E cf) type rq s))"
proof -
  obtain x s1 where io: "next_io s = (x, s1)" by fastforce
  have s1: "service_inv E s1" by (rule service_inv_files [OF assms(2) next_io_frame [OF io]])
  note keeps = dispatch_keeps [OF assms(1) s1, of cf type rq] dispatch_keeps [OF assms, of cf type rq]
  then show ?thesis using s1 by (simp add: servlet_do_def io split: option.split io.split)
qed

end
