(* ===== verification/Route_Deletion.thy ===== *)
theory Route_Deletion
  imports Service_Effects
begin

text \<open>
  The deletion of many routes (\<open>route_delete\<close>): the loop over the listing removes exactly the
  destinations it reports as deleted, and never fails because an earlier turn of the same loop already
  removed a shared route.
\<close>

subsection \<open>The listing\<close>

definition holds_target :: "routes \<Rightarrow> string \<times> route_target \<Rightarrow> bool" where
  "holds_target m kt \<longleftrightarrow>
     (\<exists>md. find_route m (fst kt) (rt_ip (snd kt)) = Some md \<and> md_gateway md = rt_gateway (snd kt))"

lemma entry_plain:
  assumes "table_inv E m" and "find_route m k d = Some md"
  shows "plain k \<and> plain d \<and> plain (md_gateway md)"
proof -
  have ok: "table_ok m" and "entries_ok E m" using assms(1) by (simp_all add: table_inv_def)
  then have "entry_ok E (k, d, md)" using assms(2) entries_ok_find [OF ok] by blast
  then show ?thesis by (auto simp: entry_ok_def plain_saved_key)
qed

lemma selected_holds:
  assumes "table_inv E (installed_routes s)" and "kt \<in> set (selected key destination (list_routes s))"
  shows "holds_target (installed_routes s) kt"
proof -
  let ?m = "installed_routes s"
  have ok: "table_ok ?m" using assms(1) by (simp add: table_inv_def)
  obtain k g d md where g: "(k, g) \<in> set ?m" "(d, md) \<in> set g"
    and kt: "fst kt = c_str k" "rt_ip (snd kt) = c_str d" "rt_gateway (snd kt) = c_str (md_gateway md)"
    using assms(2) by (auto simp: selected_def list_routes_def split: if_splits)
  then have f: "find_route ?m k d = Some md" using mem_entries_find [OF ok, of k d md] by (auto simp: mem_entries)
  then show ?thesis using entry_plain [OF assms(1) f] kt by (simp add: holds_target_def)
qed

lemma mem_selected:
  "(k, t) \<in> set (selected key destination gs) \<longleftrightarrow>
     (\<exists>g\<in>set gs. (given key \<longrightarrow> key = Some k) \<and> k = re_key g \<and> t \<in> set (re_targets g) \<and>
        (given destination \<longrightarrow> destination = Some (rt_ip t)))"
  by (auto simp: selected_def split: if_splits)

text \<open>Conversely the selection misses no entry the request names.\<close>

lemma selected_complete:
  assumes "table_inv E (installed_routes s)" and "find_route (installed_routes s) k d = Some md"
    and "given key \<Longrightarrow> key = Some k" and "given destination \<Longrightarrow> destination = Some d"
  shows "\<exists>t. (k, t) \<in> set (selected key destination (list_routes s)) \<and> rt_ip t = d \<and> rt_gateway t = md_gateway md"
proof -
  let ?m = "installed_routes s"
  have ok: "table_ok ?m" using assms(1) by (simp add: table_inv_def)
  obtain g where g: "(k, g) \<in> set ?m" "(d, md) \<in> set g"
    using mem_entries_find [OF ok, of k d md] assms(2) by (auto simp: mem_entries)
  have p: "c_str k = k" "c_str d = d" "c_str (md_gateway md) = md_gateway md"
    using entry_plain [OF assms(1,2)] by simp_all
  let ?t = "\<lparr>rt_ip = d, rt_gateway = md_gateway md, rt_ttl = md_ttl md, rt_expires_at = md_expires_at md\<rparr>"
  let ?e = "\<lparr>re_key = c_str k, re_targets = map (\<lambda>(d, md). \<lparr>rt_ip = c_str d, rt_gateway = c_str (md_gateway md),
      rt_ttl = md_ttl md, rt_expires_at = md_expires_at md\<rparr>) g\<rparr>"
  have "?e \<in> set (list_routes s)" using g(1) by (force simp: list_routes_def)
  moreover have "?t \<in> set (re_targets ?e)" using g(2) p by force
  moreover have "re_key ?e = k" using p by simp
  ultimately have "(k, ?t) \<in> set (selected key destination (list_routes s))"
    unfolding mem_selected using assms(3,4) by (intro bexI [of _ ?e]) auto
  then show ?thesis by force
qed

subsection \<open>The loop\<close>

definition route_id :: "route_target \<Rightarrow> string" where
  "route_id t = rt_ip t @ newline # rt_gateway t"

lemma newline_split: "newline \<notin> set a \<Longrightarrow> newline \<notin> set b \<Longrightarrow> a @ newline # x = b @ newline # y \<longleftrightarrow> a = b \<and> x = y"
proof (induction a arbitrary: b)
  case Nil
  then show ?case by (cases b) auto
next
  case (Cons c a)
  then show ?case by (cases b) auto
qed

text \<open>The identifiers the loop has collected, and the table as it is then.\<close>

definition deleted_from :: "routes \<Rightarrow> string list \<Rightarrow> bool" where
  "deleted_from m ids \<longleftrightarrow>
     (\<forall>i\<in>set ids. \<exists>k d md. find_route m k d = Some md \<and> i = d @ newline # md_gateway md)"

definition table_without :: "routes \<Rightarrow> string list \<Rightarrow> routes \<Rightarrow> bool" where
  "table_without m ids m' \<longleftrightarrow>
     (\<forall>k d. find_route m' k d = (if \<exists>g. d @ newline # g \<in> set ids then None else find_route m k d))"

lemma collected_gateway:
  assumes "table_inv E m" "deleted_from m ids" "holds_target m (k, t)" "rt_ip t @ newline # g \<in> set ids"
  shows "g = rt_gateway t"
proof -
  obtain md where f: "find_route m k (rt_ip t) = Some md" "md_gateway md = rt_gateway t"
    using assms(3) by (auto simp: holds_target_def)
  obtain k' d md' where f': "find_route m k' d = Some md'" "rt_ip t @ newline # g = d @ newline # md_gateway md'"
    using assms(2,4) by (auto simp: deleted_from_def)
  have "newline \<notin> set (rt_ip t)" "newline \<notin> set d"
    using entry_plain [OF assms(1) f(1)] entry_plain [OF assms(1) f'(1)] by (auto simp: plain_def)
  then have "d = rt_ip t" "g = md_gateway md'" using f'(2) newline_split by blast+
  then show ?thesis
    using assms(1) f f'(1) unfolding table_inv_def gateways_agree_def by metis
qed

lemma delete_all_effect:
  assumes inv: "table_inv E m"
  shows "rm_inv E (s :: ('k, 'z) rm_s) \<Longrightarrow> deleted_from m ids \<Longrightarrow> table_without m ids (installed_routes s) \<Longrightarrow>
    \<forall>kt\<in>set ts. holds_target m kt \<Longrightarrow> delete_all E ids ts s = (rs, s') \<Longrightarrow>
    map fst rs = ts \<and>
    table_without m (map (route_id \<circ> snd \<circ> fst) (filter (\<lambda>r. succeeds (snd r)) rs) @ ids) (installed_routes s') \<and>
    (\<forall>kt e. (kt, Inl e) \<in> set rs \<longrightarrow> (\<exists>(u :: ('k, 'z) rm_s) u'. delete_everywhere E (rt_ip (snd kt)) (rt_gateway (snd kt)) u = (Inl e, u')))"
proof (induction ts arbitrary: s ids rs)
  case Nil
  then show ?case by simp
next
  case (Cons kt ts)
  have ok: "table_ok m" using inv by (simp add: table_inv_def)
  obtain k t where kt: "kt = (k, t)" by (cases kt)
  then have ht: "holds_target m (k, t)" using Cons.prems(4) by simp
  then obtain md where f: "find_route m k (rt_ip t) = Some md" "md_gateway md = rt_gateway t"
    by (auto simp: holds_target_def)
  obtain r s1 where r: "(if route_id t \<in> set ids then (Inr (), s) else remove_route E k (rt_ip t) (rt_gateway t) s) = (r, s1)"
    by fastforce
  let ?ids = "if succeeds r then route_id t # ids else ids"
  obtain rs1 s2 where d: "delete_all E ?ids ts s1 = (rs1, s2)" by fastforce
  have "delete_all E ids (kt # ts) s = (((k, t), r) # rs1, s2)"
    using r d by (cases r) (simp_all add: kt Let_def route_id_def)
  then have rest: "delete_all E ?ids ts s1 = (rs1, s')" "rs = (kt, r) # rs1"
    using Cons.prems(5) d kt by auto
  have del: "deleted_from m ?ids"
  proof -
    have "\<exists>k d md. find_route m k d = Some md \<and> route_id t = d @ newline # md_gateway md"
      using f unfolding route_id_def by metis
    then show ?thesis using Cons.prems(2) by (cases r) (simp_all add: deleted_from_def)
  qed
  have step: "rm_inv E s1 \<and> table_without m ?ids (installed_routes s1) \<and>
    (\<forall>e. r = Inl e \<longrightarrow> (\<exists>(u :: ('k, 'z) rm_s) u'. delete_everywhere E (rt_ip t) (rt_gateway t) u = (Inl e, u')))"
  proof (cases "route_id t \<in> set ids")
    case True
    then have "r = Inr ()" "s1 = s" using r by simp_all
    moreover have "set (route_id t # ids) = set ids" using True by auto
    ultimately show ?thesis using Cons.prems(1,3) by (simp add: table_without_def insert_absorb)
  next
    case False
    then have rm: "remove_route E k (rt_ip t) (rt_gateway t) s = (r, s1)" using r by simp
    have "\<nexists>g. rt_ip t @ newline # g \<in> set ids"
      using collected_gateway [OF inv Cons.prems(2) ht] False by (auto simp: route_id_def)
    then have here: "find_route (installed_routes s) k (rt_ip t) = Some md"
      using Cons.prems(3) f(1) by (simp add: table_without_def)
    have inv1: "rm_inv E s1" by (rule remove_op.invariant [OF Cons.prems(1) TrueI rm])
    from rm show ?thesis
    proof (cases rule: remove_route_cases)
      case (refused e)
      then show ?thesis using here f(2) by simp
    next
      case (found md')
      have eff: "installed_routes s1 = (if succeeds r then purge_route (rt_ip t) (rt_gateway t) (installed_routes s)
          else installed_routes s)"
        by (rule delete_everywhere_effect(2) [OF found(1)])
      have "table_without m ?ids (installed_routes s1)"
      proof (cases "succeeds r")
        case False
        then show ?thesis using eff Cons.prems(3) by simp
      next
        case True
        have mo: "map_ok (installed_routes s)" using Cons.prems(1) by (simp add: rm_inv_def table_inv_def table_ok_def)
        show ?thesis
          unfolding table_without_def
        proof (intro allI)
          fix j d
          have gw: "md_gateway x = rt_gateway t" if "find_route m j (rt_ip t) = Some x" for x
            using inv that f unfolding table_inv_def gateways_agree_def by metis
          have old: "find_route (installed_routes s) j d = (if \<exists>g. d @ newline # g \<in> set ids then None else find_route m j d)"
            using Cons.prems(3) by (simp add: table_without_def)
          have own: "find_route m j d = None \<or> ((\<exists>g. d @ newline # g = route_id t) \<longleftrightarrow> d = rt_ip t)"
          proof (cases "find_route m j d")
            case (Some x)
            then have "newline \<notin> set d" "newline \<notin> set (rt_ip t)"
              using entry_plain [OF inv Some] entry_plain [OF inv f(1)] by (auto simp: plain_def)
            then show ?thesis using newline_split by (auto simp: route_id_def)
          qed simp
          show "find_route (installed_routes s1) j d = (if \<exists>g. d @ newline # g \<in> set ?ids then None else find_route m j d)"
            using True eff old own gw
            by (auto simp: find_route_purge [OF mo] route_id_def split: option.splits if_splits)
        qed
      qed
      moreover have "\<exists>(u :: ('k, 'z) rm_s) u'. delete_everywhere E (rt_ip t) (rt_gateway t) u = (Inl e, u')" if "r = Inl e" for e
        using found(1) that by blast
      ultimately show ?thesis using inv1 by blast
    qed
  qed
  have IH: "map fst rs1 = ts \<and>
    table_without m (map (route_id \<circ> snd \<circ> fst) (filter (\<lambda>r. succeeds (snd r)) rs1) @ ?ids) (installed_routes s') \<and>
    (\<forall>kt e. (kt, Inl e) \<in> set rs1 \<longrightarrow> (\<exists>(u :: ('k, 'z) rm_s) u'. delete_everywhere E (rt_ip (snd kt)) (rt_gateway (snd kt)) u = (Inl e, u')))"
    by (rule Cons.IH) (use step del rest Cons.prems(4) in auto)
  show ?case using IH step rest(2) kt by (auto simp: table_without_def)
qed

subsection \<open>Adding many routes\<close>

lemma add_route_find:
  assumes "rm_inv E s" and "add_route E d g k ttl s = (r, s')"
  shows "find_route (installed_routes s') k' d' =
    (if succeeds r \<and> k' = k \<and> d' = d then Some (add_metadata g ttl (clock s)) else find_route (installed_routes s) k' d')"
  using add_op.memory [OF assms] by (auto simp: find_route_put)

lemma add_route_clock: "rm_inv E s \<Longrightarrow> add_route E d g k ttl s = (r, s') \<Longrightarrow> clock s' = clock s"
  using add_op.frame table_frame_fields(7) by blast

text \<open>The loop records what it reports as added, under the key and with the gateway of the request.\<close>

lemma add_all_effect:
  assumes "env_ok E"
  shows "service_inv E s \<Longrightarrow> \<forall>d\<in>set ds. request_ok E (c_str d) g k \<Longrightarrow> add_all E g k ttl ds s = (rs, s') \<Longrightarrow>
    find_route (installed_routes s') k' d' =
      (if k' = k \<and> (\<exists>d r. (d, r) \<in> set rs \<and> succeeds r \<and> c_str d = d')
       then Some (add_metadata g ttl (clock s)) else find_route (installed_routes s) k' d')"
proof (induction ds arbitrary: s rs)
  case Nil
  then show ?case by simp
next
  case (Cons d ds)
  obtain r s1 where r: "add_route E (c_str d) g k ttl s = (r, s1)" by fastforce
  obtain rs1 s2 where rest: "add_all E g k ttl ds s1 = (rs1, s2)" by fastforce
  have rs: "rs = (d, r) # rs1" "s2 = s'" using Cons.prems(3) r rest by simp_all
  have inv: "rm_inv E s" using Cons.prems(1) by (simp add: service_inv_def)
  have "service_inv E s1" using add_route_keeps [OF assms Cons.prems(1), of "c_str d" g k ttl] Cons.prems(2) r by simp
  then have "find_route (installed_routes s') k' d' =
      (if k' = k \<and> (\<exists>d r. (d, r) \<in> set rs1 \<and> succeeds r \<and> c_str d = d')
       then Some (add_metadata g ttl (clock s1)) else find_route (installed_routes s1) k' d')"
    using Cons.IH [of s1 rs1] Cons.prems(2) rest rs(2) by simp
  then show ?case
    using add_route_find [OF inv r, of k' d'] add_route_clock [OF inv r] rs(1) by auto
qed

lemma count_ok_all: "count_ok rs = length rs \<longleftrightarrow> (\<forall>x\<in>set rs. succeeds (snd x))"
proof (induction rs)
  case Nil
  then show ?case by (simp add: count_ok_def)
next
  case (Cons x rs)
  have "length (filter (\<lambda>(_, r). succeeds r) rs) \<noteq> Suc (length rs)"
    using length_filter_le [of "\<lambda>(_, r). succeeds r" rs] by linarith
  then show ?case using Cons by (cases x) (simp add: count_ok_def)
qed

text \<open>The lists of registrations: each path of its own, all types in range.\<close>

lemma find_distinct:
  assumes "distinct (map f xs)" and "x \<in> set xs"
  shows "List.find (\<lambda>y. f y = f x) (rev xs) = Some x"
proof -
  have "List.find (\<lambda>y. f y = f x) ys = Some x" if "distinct (map f ys)" "x \<in> set ys" for ys
    using that by (induction ys) (auto simp: image_iff)
  from this [of "rev xs"] assms show ?thesis by (simp add: rev_map [symmetric])
qed

definition registered_under :: "'k env \<Rightarrow> int \<times> string \<times> 'h \<Rightarrow> int \<times> string" where
  "registered_under E r = (fst r, normal_path E (fst (snd r)))"

lemma registrations_distinct:
  assumes "acl_lower E = map tolower"
  shows "distinct (map (registered_under E) (registrations E cf))"
    and "\<forall>(ty, p, fn)\<in>set (registrations E cf). type_ok ty \<and> p \<noteq> []"
  by (simp_all add: registrations_def registered_under_def normal_path_def assms type_ok_def tolower_def isupper_def)

lemma find_registration:
  fixes fn :: "('k, 'z) rm_s handler"
  assumes "acl_lower E = map tolower" and "(ty, p, fn) \<in> set (registrations E cf)"
    and "normal_path E q = normal_path E p"
  shows "type_ok ty \<and> find_handler (ip_router E cf) ty (normal_path E q) = Some fn"
proof -
  let ?regs = "registrations E cf :: (int \<times> string \<times> ('k, 'z) rm_s handler) list"
  have reg: "distinct (map (registered_under E) ?regs)" "\<forall>(ty, p, fn)\<in>set ?regs. type_ok ty \<and> p \<noteq> []"
    by (rule registrations_distinct [OF assms(1)])+
  have ty: "type_ok ty" and all: "\<forall>(ty, p, fn)\<in>set (rev ?regs). type_ok ty \<and> p \<noteq> []"
    using reg(2) assms(2) by auto
  have cong: "List.find P xs = List.find Q xs" if "\<forall>x\<in>set xs. P x = Q x" for P Q :: "int \<times> string \<times> 'x \<Rightarrow> bool" and xs
    using that by (induction xs) auto
  have "List.find (\<lambda>(ty', p', fn'). type_ok ty' \<and> p' \<noteq> [] \<and> ty = ty' \<and> normal_path E q = normal_path E p')
      (rev ?regs) =
    List.find (\<lambda>y. registered_under E y = registered_under E (ty, p, fn)) (rev ?regs)"
    by (rule cong) (use all assms(3) in \<open>auto simp: registered_under_def\<close>)
  then show ?thesis
    using find_distinct [OF reg(1) assms(2)] ty by (simp add: find_ip_router [OF ty])
qed

subsection \<open>What a 200 for several addresses means\<close>

lemma route_add_recorded:
  assumes "env_ok E" and "service_inv E s" and "given (get_parameter rq ''ips'')"
    and "route_add E rq s = ((sent, reply), s')" and "rp_status reply = 200"
    and "t \<in> set (acl_split2 E (the (get_parameter rq ''ips'')) separators)"
  shows "\<exists>g applied md. resolve_add_gateway E rq s = Inr (g, applied) \<and>
    find_route (installed_routes s') (the (get_route_key rq)) (c_str t) = Some md \<and> md_gateway md = g"
proof (cases rule: route_add_cases [of rq E s])
  case single
  then show ?thesis using assms(3) by simp
next
  case (refused e)
  then have "rp_status reply = 400"
    using assms(4) by (auto simp: reply_json_def write_reply_def split: prod.splits io.splits)
  then show ?thesis using assms(5) by simp
next
  case (bulk g applied ttl tokens rs s1)
  have status: "rp_status reply = bulk_status (length rs) (count_ok rs)" and mem: "installed_routes s' = installed_routes s1"
    using assms(4) bulk(10) next_io_frame [of s1]
    by (auto simp: bulk_reply_def reply_object_def write_reply_def split: prod.splits io.splits elim!: file_frameE)
  then have all: "\<forall>x\<in>set rs. succeeds (snd x)"
    using assms(5) by (auto simp: bulk_status_def count_ok_all [symmetric] split: if_splits)
  let ?key = "the (get_route_key rq)"
  have ok: "\<forall>d\<in>set (unique_from [] tokens). request_ok E (c_str d) g ?key"
    using add_request_ok [OF assms(1,2) bulk(1-3)] bulk(8) by (simp add: set_unique_from)
  have "t \<in> fst ` set rs"
    using assms(6) bulk(5) length_add_all [OF bulk(9)] set_unique_from [of "[]" tokens] by (metis Diff_empty list.set(1) set_map)
  then obtain r where "(t, r) \<in> set rs" "succeeds r" using all by force
  then have "find_route (installed_routes s1) ?key (c_str t) = Some (add_metadata g ttl (clock s))"
    using add_all_effect [OF assms(1,2) ok bulk(9), of ?key "c_str t"] by auto
  then show ?thesis using bulk(1) mem by (simp add: add_metadata_def)
qed

end
