(* ===== verification/Example_Env.thy ===== *)
theory Example_Env
  imports Route_Deletion
begin

text \<open>
  A concrete environment in which the hypotheses of the properties hold: decimal addresses, the
  byte-wise order of strings, and a routing socket that accepts what is written to it. The witnesses
  of the properties evaluate the model there.
\<close>

subsection \<open>The order of strings\<close>

lemma string_less_irrefl: "\<not> string_less x x"
  by (induction x) auto

lemma string_less_trans: "string_less x y \<Longrightarrow> string_less y z \<Longrightarrow> string_less x z"
proof (induction x y arbitrary: z rule: string_less.induct)
  case (2 d ds)
  then show ?case by (cases z) auto
next
  case (4 c cs d ds)
  then show ?case by (cases z) auto
qed auto

lemma string_less_total: "x \<noteq> y \<Longrightarrow> string_less x y \<or> string_less y x"
proof (induction x y rule: string_less.induct)
  case (4 c cs d ds)
  show ?case
  proof (cases "c = d")
    case True
    then show ?thesis using 4 by auto
  next
    case False
    then have "byte c < byte d \<or> byte d < byte c" using char_eq_iff_code linorder_neq_iff by blast
    then show ?thesis by auto
  qed
qed auto

lemma strict_order_string_less: "strict_order string_less"
  unfolding strict_order_def
  using string_less_irrefl string_less_trans string_less_total by blast

subsection \<open>Decimal addresses\<close>

definition octet_ok :: "string \<Rightarrow> bool" where
  "octet_ok f \<longleftrightarrow> f \<noteq> [] \<and> length f \<le> 3 \<and> (\<forall>c\<in>set f. isdigit c) \<and> fst (read_digits 0 f) < 256"

definition dotted :: "string \<Rightarrow> bytes option" where
  "dotted t =
     (let fs = split_fields (CHR ''.'') t in
      if length fs = 4 \<and> (\<forall>f\<in>set fs. octet_ok f) then Some (map (\<lambda>f. of_nat (fst (read_digits 0 f))) fs) else None)"

lemma dotted_plain:
  assumes "dotted t = Some b"
  shows "plain t"
proof -
  have ok: "\<forall>f\<in>set (split_fields (CHR ''.'') t). octet_ok f"
    using assms by (auto simp: dotted_def Let_def split: if_splits)
  have "isdigit c \<or> c = CHR ''.''" if "c \<in> set t" for c
    using split_from_all [of c "[]" t "CHR ''.''"] that ok by (auto simp: split_fields_def octet_ok_def)
  moreover have "\<not> isdigit nul" "\<not> isdigit tab" "\<not> isdigit newline" by (simp_all add: isdigit_def)
  ultimately show ?thesis unfolding plain_def by fastforce
qed

definition show_address :: "bytes \<Rightarrow> string option" where
  "show_address b =
     (case b of
        [x, y, z, w] \<Rightarrow>
          Some (show_nat (unat x) @ ''.'' @ show_nat (unat y) @ ''.'' @ show_nat (unat z) @ ''.'' @ show_nat (unat w))
      | _ \<Rightarrow> None)"

subsection \<open>The environment\<close>

definition demo_env :: "unit env" where
  "demo_env =
     \<lparr>acl_inet_pton = (\<lambda>t. if dotted t \<noteq> None then 1 else 0),
      inet_pton = dotted, inet_ntop = show_address, acl_less = string_less,
      strerror = (\<lambda>e. ''error''), if_indextoname = (\<lambda>n. ''eth0''),
      platform_of = BSD, is_apple = False, acl_lower = map tolower,
      acl_split2 = tokens,
      acl_url_encode = (\<lambda>t. t), acl_get = (\<lambda>a t u k. Response 200 (Some ''{}'')),
      run_status = (\<lambda>as. 0), nl_serve = (\<lambda>m k. ([], k)),
      stray_ack = (\<lambda>m. Inl ''stray''), stray_dump = (\<lambda>m. Inl ''stray''),
      pf_write = (\<lambda>m k. (Inr 132, k)), pf_size = 132, pf_dump = (\<lambda>k. []), pf_hdr_rest = 76, pf_align = 4\<rparr>"

lemma demo_env_ok: "env_ok demo_env"
  using dotted_plain by (auto simp: env_ok_def demo_env_def strict_order_string_less split: if_splits)

lemma demo_order: "strict_order (acl_less demo_env)"
  by (simp add: demo_env_def strict_order_string_less)

definition demo_state :: "unit rm" where
  "demo_state =
     \<lparr>files = [], script = [], clock = 1000, kernel = (), open_fds = 0, route_sequence = 0,
      worker_started = False, worker_stopping = False, routes_file = ''routes.db'',
      global_route_file = ''routes.db.global'', global_gateway = [], force_global_gateway = False,
      installed_routes = []\<rparr>"

lemma demo_rm_inv: "rm_inv demo_env demo_state"
  by (simp add: rm_inv_def settings_inv_def demo_state_def)

lemma demo_service_inv: "service_inv demo_env demo_state"
  using demo_rm_inv by (simp add: service_inv_def demo_state_def long_long_max_def)

text \<open>One route in the table, saved.\<close>

definition demo_added :: "unit rm" where
  "demo_added = snd (add_route demo_env ''10.0.0.1'' ''192.168.1.1'' ''home'' 60 demo_state)"

lemma demo_add_succeeds: "add_route demo_env ''10.0.0.1'' ''192.168.1.1'' ''home'' 60 demo_state = (Inr (), demo_added)"
proof -
  have "fst (add_route demo_env ''10.0.0.1'' ''192.168.1.1'' ''home'' 60 demo_state) = Inr ()" by code_simp
  then show ?thesis unfolding demo_added_def by (metis prod.collapse)
qed

lemma demo_request: "request_ok demo_env ''10.0.0.1'' ''192.168.1.1'' ''home''"
  by code_simp

text \<open>A configuration of the domain manager and of the service, and a request.\<close>

definition demo_resolver :: resolver where
  "demo_resolver = configure 42 (Some ''/etc/resolver'') (Some ''127.0.0.1'') 53 1"

definition demo_config :: config where
  "demo_config = \<lparr>cf_resolver = demo_resolver, cf_dns_gate_http_addr = Some ''127.0.0.1:8053'',
                  cf_dns_gate_http_timeout = 8\<rparr>"

definition demo_request_add :: http_request where
  "demo_request_add = \<lparr>rq_path = Some ''/Route'', rq_keep_alive = True, rq_expect = None,
     rq_parameters = [(''ips'', ''10.0.0.1,10.0.0.2,10.0.0.1''), (''gateway'', ''192.168.1.1''), (''key'', ''home'')]\<rparr>"

end
