(* ===== verification/Route_Properties.thy ===== *)
theory Route_Properties
  imports Example_Env
begin

text \<open>
  The properties of the route manager: its operations, its files, its worker. Each follows from the
  lemmas of the component it is about; the witnesses run the model in \<open>demo_env\<close>.
\<close>

subsection \<open>The system of threads\<close>











subsection \<open>add\<close>

text \<open>
  C8: \<open>add\<close> on the memory. A success records exactly the requested entry, with the gateway, the
  non-negative time to live and the time of expiry it implies, in the group of the key, and leaves every
  other entry as it was; a failure leaves the whole table as it was. The global settings, the other
  files and the open descriptors are never touched.
\<close>

theorem add_route_effect_on_table:
  assumes "rm_inv E s" and "add_route E d g k ttl s = (r, s')"
  shows "(if succeeds r
          then \<forall>k' d'. find_route (installed_routes s') k' d' =
            (if k' = k \<and> d' = d
             then Some \<lparr>md_gateway = g, md_ttl = max ttl 0, md_expires_at = (if ttl > 0 then clock s + ttl else 0),
                        md_last_attempt = 0\<rparr>
             else find_route (installed_routes s) k' d')
          else installed_routes s' = installed_routes s) \<and>
    get_global_route s' = get_global_route s \<and> open_fds s' = open_fds s \<and>
    (\<forall>p. p \<noteq> routes_file s \<and> p \<noteq> routes_file s @ ''.tmp'' \<longrightarrow> file_at s' p = file_at s p)"
proof -
  have "add_metadata g ttl (clock s) = \<lparr>md_gateway = g, md_ttl = max ttl 0,
      md_expires_at = (if ttl > 0 then clock s + ttl else 0), md_last_attempt = 0\<rparr>"
    by (simp add: add_metadata_def new_metadata_def)
  then show ?thesis
    using add_op.memory [OF assms] add_op.settings_kept [OF assms] add_op.no_descriptor_leaks [OF assms]
      add_op.other_files_kept [OF assms]
    by (simp add: find_route_put)
qed

theorem add_route_effect_on_table_witness:
  "find_route (installed_routes demo_added) ''home'' ''10.0.0.1'' =
     Some \<lparr>md_gateway = ''192.168.1.1'', md_ttl = 60, md_expires_at = 1060, md_last_attempt = 0\<rparr>"
  using add_route_effect_on_table [OF demo_rm_inv demo_add_succeeds] by (simp add: demo_state_def)


definition demo_stored :: "unit rm" where
  "demo_stored = demo_state\<lparr>files := [(''routes.db'', Regular (routes_text []))]\<rparr>"




lemma demo_added_inv: "rm_inv demo_env demo_added"
proof (rule add_op.invariant [OF demo_rm_inv _ demo_add_succeeds])
  show "add_ready demo_env ''10.0.0.1'' ''192.168.1.1'' ''home'' demo_state"
    using demo_order demo_request by (simp add: add_ready_def demo_state_def long_long_max_def)
qed

lemma demo_added_entry:
  "find_route (installed_routes demo_added) ''home'' ''10.0.0.1'' = Some (add_metadata ''192.168.1.1'' 60 1000)"
  using add_op.memory [OF demo_rm_inv demo_add_succeeds] by (simp add: find_route_put demo_state_def)


text \<open>
  C11: the time of expiry never overflows: for a clock in the range of \<open>time_t\<close>, a time to live whose
  end is out of range is refused without any change, and a recorded time of expiry is the clock plus
  the time to live, within \<open>long long\<close>.
\<close>

theorem add_route_expiry_bounds:
  assumes "rm_inv E s" and "0 \<le> clock s" and "clock s \<le> long_long_max"
  shows "(clock s + ttl > long_long_max \<longrightarrow> (\<exists>e. add_route E d g k ttl s = (Inl e, s))) \<and>
    (\<forall>u s'. add_route E d g k ttl s = (Inr u, s') \<longrightarrow>
       (\<exists>md. find_route (installed_routes s') k d = Some md \<and> 0 \<le> md_expires_at md \<and>
          md_expires_at md \<le> long_long_max \<and> (ttl > 0 \<longrightarrow> md_expires_at md = clock s + ttl)))"
proof (intro conjI impI allI)
  assume "clock s + ttl > long_long_max"
  with assms(3) have "ttl_too_large ttl (clock s)" by (simp add: ttl_too_large_def)
  then show "\<exists>e. add_route E d g k ttl s = (Inl e, s)" by (auto simp: add_route_def ttl_too_large_def)
next
  fix u s' assume run: "add_route E d g k ttl s = (Inr u, s')"
  have ok: "table_ok (installed_routes s)" using assms(1) by (simp add: rm_inv_def table_inv_def)
  have small: "\<not> ttl_too_large ttl (clock s)"
    using ok run by (cases rule: add_route_cases) auto
  have "find_route (installed_routes s') k d = Some (add_metadata g ttl (clock s))"
    using add_op.memory [OF assms(1) run] by (simp add: find_route_put)
  then show "\<exists>md. find_route (installed_routes s') k d = Some md \<and> 0 \<le> md_expires_at md \<and>
      md_expires_at md \<le> long_long_max \<and> (ttl > 0 \<longrightarrow> md_expires_at md = clock s + ttl)"
    using small assms(2,3) by (auto simp: add_metadata_def ttl_too_large_def long_long_max_def)
qed

theorem add_route_expiry_bounds_witness:
  "\<exists>e. add_route demo_env ''10.0.0.1'' ''192.168.1.1'' ''home'' long_long_max demo_state = (Inl e, demo_state)"
  using add_route_expiry_bounds [OF demo_rm_inv, of long_long_max "''10.0.0.1''" "''192.168.1.1''" "''home''"]
  by (simp add: demo_state_def long_long_max_def)

subsection \<open>Restart\<close>







text \<open>
  C13: the global settings survive a restart: after a successful \<open>set_global_route\<close>, loading the settings
  file gives the gateway and the flag that were set.
\<close>

theorem settings_survive_restart:
  assumes "set_global_route E gateway force s = (Inr u, s1)" and "plain (wanted_gateway gateway)"
    and "load_global_route_locked E (s1\<lparr>global_gateway := g0, force_global_gateway := f0, script := []\<rparr>) = (r, s2)"
  shows "r = Inr () \<and>
    get_global_route s2 = (wanted_gateway gateway, wanted_gateway gateway \<noteq> [] \<and> force)"
proof -
  let ?g = "wanted_gateway gateway" and ?s = "s1\<lparr>global_gateway := g0, force_global_gateway := f0, script := []\<rparr>"
  have "get_global_route s1 = (?g, ?g \<noteq> [] \<and> force)" and "global_durable s1"
    using set_global_effect(5,6) [OF assms(1)] by simp_all
  then have stored: "file_at ?s (global_route_file ?s) = Some (Regular (global_text ?g (?g \<noteq> [] \<and> force)))"
    by (simp add: global_durable_def get_global_route_def file_at_def)
  have "?g \<noteq> [] \<Longrightarrow> valid_ipv4 E (Some ?g)"
    using assms(1) by (cases rule: set_global_cases) (cases gateway; auto simp: wanted_gateway_def)+
  then have "?g = [] \<and> \<not> (?g \<noteq> [] \<and> force) \<or> settings_ok E (?g, ?g \<noteq> [] \<and> force)"
    using assms(2) by (auto simp: settings_ok_def)
  from load_after_save_global [OF this stored _ assms(3)] show ?thesis by simp
qed

definition demo_forced :: "unit rm" where
  "demo_forced = snd (set_global_route demo_env (Some ''192.168.1.254'') True demo_state)"

lemma demo_set_global: "set_global_route demo_env (Some ''192.168.1.254'') True demo_state = (Inr (), demo_forced)"
proof -
  have "fst (set_global_route demo_env (Some ''192.168.1.254'') True demo_state) = Inr ()" by code_simp
  then show ?thesis unfolding demo_forced_def by (metis prod.collapse)
qed

theorem settings_survive_restart_witness:
  "get_global_route (snd (load_global_route_locked demo_env
     (demo_forced\<lparr>global_gateway := [], force_global_gateway := False, script := []\<rparr>))) = (''192.168.1.254'', True)"
  using settings_survive_restart [OF demo_set_global _ prod.collapse [symmetric]]
  by (simp add: wanted_gateway_def plain_def)

text \<open>
  Whatever the database file contains, as long as it holds no NUL byte (a power failure or an editor
  may have left anything), and whatever fails on the way, starting gives a table and settings that
  satisfy the invariant, and marks the worker as started.
\<close>

theorem start_establishes_invariant:
  assumes "strict_order (acl_less E)" and "nul_free (routes_file s) s" and "\<not> worker_started s"
  shows "rm_inv E (start_routes E s) \<and> worker_started (start_routes E s) \<and> \<not> worker_stopping (start_routes E s)"
  using start_routes_effect [OF assms] by simp

theorem start_establishes_invariant_witness:
  "rm_inv demo_env (start_routes demo_env (demo_state\<lparr>files := [(''routes.db'', Regular ''a garbled line'')]\<rparr>))"
  using start_establishes_invariant [OF demo_order, of "demo_state\<lparr>files := [(''routes.db'', Regular ''a garbled line'')]\<rparr>"]
  by (simp add: demo_state_def nul_free_def file_at_def)

subsection \<open>Saving\<close>

text \<open>
  C14: a save never leaves the database half written. Whatever fails, the file is the old one or the
  complete new text, the latter exactly when success is reported, and no other file than the temporary
  one changes.
\<close>

theorem save_is_atomic:
  assumes "save_routes_locked E s = (r, s')"
  shows "file_at s' (routes_file s) =
      (if succeeds r then Some (Regular (routes_text (installed_routes s))) else file_at s (routes_file s)) \<and>
    (\<forall>p. p \<noteq> routes_file s \<and> p \<noteq> routes_file s @ ''.tmp'' \<longrightarrow> file_at s' p = file_at s p) \<and>
    installed_routes s' = installed_routes s"
  using save_routes_replaces [OF assms] save_routes_effect(1) [OF assms] by (simp add: replaces_def)

theorem save_is_atomic_witness:
  "file_at (snd (save_routes_locked demo_env (demo_stored\<lparr>script := [Done, Fault 3]\<rparr>))) ''routes.db'' =
     Some (Regular (routes_text []))"
proof -
  have "\<not> succeeds (fst (save_routes_locked demo_env (demo_stored\<lparr>script := [Done, Fault 3]\<rparr>)))" by code_simp
  then show ?thesis
    using save_is_atomic [of demo_env "demo_stored\<lparr>script := [Done, Fault 3]\<rparr>", OF prod.collapse [symmetric]]
    by (simp add: demo_stored_def demo_state_def file_at_def)
qed

subsection \<open>remove and remove_system\<close>





text \<open>
  \<open>remove_system\<close> only deletes what the system lists: a success means the listing held the address
  with this gateway, and the table loses exactly the references to it, whichever their keys; a failure
  keeps the table.
\<close>

theorem remove_system_effect:
  assumes "rm_inv E s" and "remove_system E d g s = (r, s')"
  shows "if succeeds r
    then (\<exists>rs t. list_system_routes E s = (Inr rs, t) \<and> (\<exists>x\<in>set rs. sr_ip x = d \<and> sr_gateway x = g)) \<and>
      durable s' \<and>
      (\<forall>k' d'. find_route (installed_routes s') k' d' =
         (case find_route (installed_routes s) k' d' of
            None \<Rightarrow> None | Some md \<Rightarrow> if d' = d \<and> md_gateway md = g then None else Some md))
    else installed_routes s' = installed_routes s"
proof -
  have ok: "map_ok (installed_routes s)" using assms(1) by (simp add: rm_inv_def table_inv_def table_ok_def)
  have mem: "installed_routes s' = (if succeeds r then purge_route d g (installed_routes s) else installed_routes s)"
    by (rule remove_system_op.memory [OF assms])
  show ?thesis
  proof (cases "succeeds r")
    case False
    with mem show ?thesis by simp
  next
    case True
    then obtain u where u: "r = Inr u" by (cases r) auto
    have "\<exists>rs t. list_system_routes E s = (Inr rs, t) \<and> (\<exists>x\<in>set rs. sr_ip x = d \<and> sr_gateway x = g)"
      using assms(2) by (cases rule: remove_system_cases) (use u in auto)
    moreover have "durable s'" using remove_system_op.saved [OF assms(1)] assms(2) u by blast
    ultimately show ?thesis using True mem find_route_purge [OF ok] by simp
  qed
qed

theorem remove_system_effect_witness:
  "installed_routes (snd (remove_system demo_env ''10.0.0.1'' ''192.168.1.1'' demo_added)) = installed_routes demo_added"
proof -
  have "\<not> succeeds (fst (remove_system demo_env ''10.0.0.1'' ''192.168.1.1'' demo_added))" by code_simp
  then show ?thesis using remove_system_effect [OF demo_added_inv prod.collapse [symmetric]] by simp
qed

subsection \<open>Expiry\<close>

text \<open>
  C16: one turn of the expiry worker. An entry that is not due (no time of expiry, not yet reached, or
  tried less than 30 seconds ago) stays exactly as it is; every entry still there was there before, with
  the same gateway, time to live and time of expiry.
\<close>

theorem expire_keeps_live_routes:
  assumes "rm_inv E s"
  shows "(\<forall>k d md. find_route (installed_routes s) k d = Some md \<longrightarrow> not_due (clock s) md \<longrightarrow>
      find_route (installed_routes (expire_once E s)) k d = Some md) \<and>
    (\<forall>k d md'. find_route (installed_routes (expire_once E s)) k d = Some md' \<longrightarrow>
      (\<exists>md. find_route (installed_routes s) k d = Some md \<and> md_gateway md' = md_gateway md \<and>
         md_ttl md' = md_ttl md \<and> md_expires_at md' = md_expires_at md))"
proof -
  obtain c where sw: "swept_table (clock s) (installed_routes s) (installed_routes (expire_once E s)) c"
    using expire_once_effect(2) [OF refl] by blast
  have ok: "table_ok (installed_routes s)" using assms by (simp add: rm_inv_def table_inv_def)
  have ok': "table_ok (installed_routes (expire_once E s))" by (rule swept_table_ok [OF sw ok])
  show ?thesis
  proof (intro conjI allI impI)
    fix k d md assume "find_route (installed_routes s) k d = Some md" "not_due (clock s) md"
    then show "find_route (installed_routes (expire_once E s)) k d = Some md"
      using swept_table_not_due [OF sw, of k d md] mem_entries_find [OF ok] mem_entries_find [OF ok'] by simp
  next
    fix k d md' assume "find_route (installed_routes (expire_once E s)) k d = Some md'"
    then obtain md where "find_route (installed_routes s) k d = Some md" "kept_as (clock s) md md'"
      using swept_table_from [OF sw, of k d md'] mem_entries_find [OF ok] mem_entries_find [OF ok'] by auto
    then show "\<exists>md. find_route (installed_routes s) k d = Some md \<and> md_gateway md' = md_gateway md \<and>
         md_ttl md' = md_ttl md \<and> md_expires_at md' = md_expires_at md"
      using kept_as_fields by blast
  qed
qed

theorem expire_keeps_live_routes_witness:
  "find_route (installed_routes (expire_once demo_env demo_added)) ''home'' ''10.0.0.1'' =
     Some (add_metadata ''192.168.1.1'' 60 1000)"
proof -
  have "not_due (clock demo_added) (add_metadata ''192.168.1.1'' 60 1000)" by code_simp
  then show ?thesis using expire_keeps_live_routes [OF demo_added_inv] demo_added_entry by blast
qed



subsection \<open>The global settings\<close>

text \<open>
  \<open>set_global_route\<close> is a transaction: it succeeds only for an empty or valid gateway, the flag is
  kept only with a gateway, and the settings file then holds the new settings; a failure leaves the
  settings in memory and on disk as they were. The route table and its file are never touched.
\<close>

theorem set_global_route_transaction:
  assumes "paths_ok s" and "set_global_route E gateway force s = (r, s')"
  shows "installed_routes s' = installed_routes s \<and> file_at s' (routes_file s) = file_at s (routes_file s) \<and>
    (if succeeds r
     then (gateway = None \<or> gateway = Some [] \<or> valid_ipv4 E gateway) \<and> global_durable s' \<and>
       get_global_route s' = (case gateway of None \<Rightarrow> ([], False) | Some g \<Rightarrow> (g, g \<noteq> [] \<and> force))
     else get_global_route s' = get_global_route s \<and>
       file_at s' (global_route_file s) = file_at s (global_route_file s))"
proof -
  note e = set_global_effect [OF assms(2)]
  have "routes_file s \<noteq> global_route_file s" "routes_file s \<noteq> global_route_file s @ ''.tmp''"
    using assms(1) by (simp_all add: paths_ok_def)
  then have "file_at s' (routes_file s) = file_at s (routes_file s)" by (rule e(8))
  moreover have "gateway = None \<or> gateway = Some [] \<or> valid_ipv4 E gateway" if "succeeds r"
    using assms(2) by (cases rule: set_global_cases) (use that in \<open>auto simp: wanted_gateway_def split: option.splits\<close>)
  moreover have "(wanted_gateway gateway, wanted_gateway gateway \<noteq> [] \<and> force) =
      (case gateway of None \<Rightarrow> ([], False) | Some g \<Rightarrow> (g, g \<noteq> [] \<and> force))"
    by (auto simp: wanted_gateway_def split: option.splits)
  ultimately show ?thesis using e(1,5-7) by (cases "succeeds r") auto
qed

theorem set_global_route_transaction_witness:
  "get_global_route demo_forced = (''192.168.1.254'', True) \<and> global_durable demo_forced"
proof -
  have "paths_ok demo_state" by (simp add: paths_ok_def demo_state_def)
  from set_global_route_transaction [OF this demo_set_global] show ?thesis by simp
qed

subsection \<open>A route that could not be restored\<close>




end
