(* ===== verification/Service_Properties.thy ===== *)
theory Service_Properties
  imports Route_Properties
begin

text \<open>
  The properties of the domain manager, the HTTP dispatch and the handlers.
\<close>

subsection \<open>Domain names\<close>

text \<open>
  C28: \<open>valid_domain\<close> accepts exactly the grammar: after trailing dots are removed, 1 to 253 characters
  that split at the dots into labels of 1 to 63 letters, digits and hyphens, none beginning or ending
  with a hyphen; the result is that text in lower case.
\<close>

theorem valid_domain_is_grammar:
  "(case valid_domain (Some v) of Inl _ \<Rightarrow> None | Inr d \<Rightarrow> Some d) = domain_spec v"
  using valid_domain_grammar [of v] by (simp add: ok_part_def)

text \<open>
  An accepted name is in normal form: it is accepted again as it is, so that adding, listing and
  deleting a domain name the same file.
\<close>

theorem valid_domain_normal_form:
  assumes "valid_domain v = Inr d"
  shows "valid_domain (Some d) = Inr d"
  using assms by (rule valid_domain_idem)

theorem valid_domain_normal_form_witness:
  "valid_domain (Some ''www.example.com'') = Inr ''www.example.com''"
  by (rule valid_domain_normal_form [of "Some ''WWW.Example.com.''"]) code_simp

text \<open>
  C29: an accepted name cannot leave the resolver directory: it holds no slash and does not begin with a
  dot, the file it names lies directly in the directory under exactly this name, and it is neither the
  directory itself nor a temporary file of any domain.
\<close>

theorem domain_path_is_safe:
  assumes "valid_domain v = Inr d"
  shows "CHR ''/'' \<notin> set d \<and> hd d \<noteq> CHR ''.'' \<and>
    name_in (resolver_directory cfg) (path_join (resolver_directory cfg) d) = Some d \<and>
    path_join (resolver_directory cfg) d \<noteq> resolver_directory cfg \<and>
    path_join (resolver_directory cfg) d \<noteq> temporary_path cfg d'"
  using accepted_no_slash [OF assms] accepted_name(1,3) [OF assms] name_in_path_join
    path_join_not_temporary [OF assms]
  by blast

theorem domain_path_is_safe_witness:
  "CHR ''/'' \<notin> set ''corp.lan'' \<and> hd ''corp.lan'' \<noteq> CHR ''.''"
proof -
  have v: "valid_domain (Some ''corp.lan'') = Inr ''corp.lan''" by code_simp
  show ?thesis using domain_path_is_safe [OF v] by blast
qed

subsection \<open>Resolver files\<close>

definition demo_domains :: "unit rm" where
  "demo_domains = demo_state\<lparr>files := [(''/etc/resolver'', Directory),
     (''/etc/resolver/lab.lan'', Regular ''nameserver 10.1.1.1''),
     (''/etc/resolver/old.lan'', Regular (resolver_text demo_resolver 77))]\<rparr>"



text \<open>
  Re-adding a domain keeps its time of creation: when the file of a domain records one, a successful
  \<open>add\<close> writes the file with the new settings and that same time, and the file then reads back with it.
\<close>

theorem add_domain_keeps_creation_time:
  assumes "script s = []" and "file_at s (resolver_directory cfg) = Some Directory"
    and "valid_domain v = Inr d" and "file_at s (path_join (resolver_directory cfg) d) = Some (Regular t)"
    and "managed_text t" and "recorded_at t > 0" and "add_domain E cfg v s = (Inr u, s')"
  shows "file_at s' (path_join (resolver_directory cfg) d) = Some (Regular (resolver_text cfg (recorded_at t))) \<and>
    managed_text (resolver_text cfg (recorded_at t)) \<and> recorded_at (resolver_text cfg (recorded_at t)) = recorded_at t"
proof -
  have dir: "ensure_directory E cfg s = (Inr (), s)"
    using assms(1,2) by (simp add: ensure_directory_def lstat_def next_io_def)
  have read: "recorded_at (resolver_text cfg (recorded_at t)) = recorded_at t"
    using recorded_at_bounds [of t] by (intro resolver_text_recorded) simp_all
  from assms(7) show ?thesis
  proof (cases rule: add_domain_effect)
    case (refused e)
    then show ?thesis by simp
  next
    case (written d' c s1)
    then have d': "d' = d" using assms(3) by simp
    have "creation_time E (path_join (resolver_directory cfg) d) s = (Inr (recorded_at t), s)"
      using creation_time_quiet [OF assms(1)] assms(4-6) by simp
    then have "c = recorded_at t" using written(5) dir d' by simp
    then show ?thesis using written(4) d' resolver_text_managed read by (simp add: replaces_def)
  qed
qed

theorem add_domain_keeps_creation_time_witness:
  "file_at (snd (add_domain demo_env demo_resolver (Some ''old.lan'') demo_domains)) ''/etc/resolver/old.lan'' =
     Some (Regular (resolver_text demo_resolver 77))"
proof -
  have v: "valid_domain (Some ''old.lan'') = Inr ''old.lan''" by code_simp
  have p: "path_join (resolver_directory demo_resolver) ''old.lan'' = ''/etc/resolver/old.lan''" by code_simp
  have dir: "file_at demo_domains (resolver_directory demo_resolver) = Some Directory" by code_simp
  have f: "file_at demo_domains ''/etc/resolver/old.lan'' = Some (Regular (resolver_text demo_resolver 77))" by code_simp
  have rec: "recorded_at (resolver_text demo_resolver 77) = 77"
    by (rule resolver_text_recorded) (simp_all add: long_long_min_def long_long_max_def)
  have "fst (add_domain demo_env demo_resolver (Some ''old.lan'') demo_domains) = Inr ()" by code_simp
  then have run: "add_domain demo_env demo_resolver (Some ''old.lan'') demo_domains =
      (Inr (), snd (add_domain demo_env demo_resolver (Some ''old.lan'') demo_domains))"
    by (metis prod.collapse)
  have q: "script demo_domains = []" by (simp add: demo_domains_def demo_state_def)
  show ?thesis
    using add_domain_keeps_creation_time [OF q dir v f [folded p] resolver_text_managed _ run] by (simp add: p rec)
qed

text \<open>
  C31: \<open>remove\<close> deletes a resolver file only when it carries the header: a success means that it did, and
  the only change is that its path is gone; a failure leaves all files as they were. This holds whatever
  system calls fail.
\<close>

theorem remove_domain_only_managed:
  assumes "remove_domain E cfg v s = (r, s')"
  shows "if succeeds r
    then \<exists>d. valid_domain v = Inr d \<and> managed (file_at s (path_join (resolver_directory cfg) d)) \<and>
      (\<forall>p. file_at s' p = (if p = path_join (resolver_directory cfg) d then None else file_at s p))
    else files s' = files s"
  using remove_domain_effect [OF assms] by simp

theorem remove_domain_only_managed_witness:
  "files (snd (remove_domain demo_env demo_resolver (Some ''lab.lan'') demo_domains)) = files demo_domains"
proof -
  have "\<not> succeeds (fst (remove_domain demo_env demo_resolver (Some ''lab.lan'') demo_domains))" by code_simp
  then show ?thesis
    using remove_domain_only_managed [of demo_env demo_resolver "Some ''lab.lan''" demo_domains, OF prod.collapse [symmetric]]
    by simp
qed

text \<open>
  C32: \<open>list\<close> is exact: with no failing call it returns, sorted, exactly the names in normal form whose
  files carry the header, each with the time of creation its file records.
\<close>

theorem list_domains_exact:
  assumes "script s = []" and "file_at s (resolver_directory cfg) = Some Directory" and "strict_order (acl_less E)"
  shows "\<exists>es. list_domains E cfg s = (Inr es, s) \<and> entries_sorted (acl_less E) es \<and>
    (\<forall>d t. \<lparr>de_domain = d, de_created_at = t\<rparr> \<in> set es \<longleftrightarrow>
      valid_domain (Some d) = Inr d \<and>
      (\<exists>x. file_at s (path_join (resolver_directory cfg) d) = Some (Regular x) \<and> managed_text x \<and> t = recorded_at x))"
proof -
  obtain r s' where run: "list_domains E cfg s = (r, s')" by (rule prod.exhaust)
  obtain es where es: "r = Inr es" and exact: "\<forall>d t. \<lparr>de_domain = d, de_created_at = t\<rparr> \<in> set es \<longleftrightarrow>
      valid_domain (Some d) = Inr d \<and>
      (\<exists>x. file_at s (path_join (resolver_directory cfg) d) = Some (Regular x) \<and> managed_text x \<and> t = recorded_at x)"
    using list_domains_quiet(2) [OF assms(1,2) run] by blast
  have "entries_sorted (acl_less E) es"
    using run es sort_entries_sorted [OF assms(3)]
    by (auto simp: list_domains_def entries_sorted_def split: prod.splits sum.splits if_splits)
  then show ?thesis using run list_domains_quiet(1) [OF assms(1,2) run] es exact by blast
qed

theorem list_domains_exact_witness:
  "\<exists>es. list_domains demo_env demo_resolver demo_domains = (Inr es, demo_domains) \<and>
     \<lparr>de_domain = ''old.lan'', de_created_at = 77\<rparr> \<in> set es"
proof -
  have q: "script demo_domains = []" by (simp add: demo_domains_def demo_state_def)
  have dir: "file_at demo_domains (resolver_directory demo_resolver) = Some Directory" by code_simp
  have v: "valid_domain (Some ''old.lan'') = Inr ''old.lan''" by code_simp
  have f: "file_at demo_domains (path_join (resolver_directory demo_resolver) ''old.lan'') =
      Some (Regular (resolver_text demo_resolver 77))" by code_simp
  have "recorded_at (resolver_text demo_resolver 77) = 77"
    by (rule resolver_text_recorded) (simp_all add: long_long_min_def long_long_max_def)
  then show ?thesis
    using list_domains_exact [OF q dir demo_order] v f resolver_text_managed by fastforce
qed

subsection \<open>The HTTP service\<close>

text \<open>
  No request can break the manager. Whatever its type, path, headers and parameters, and whatever
  calls fail while it is served, the invariant of the route manager holds after it: the handlers check
  every parameter that reaches the managers.
\<close>

theorem requests_keep_invariant:
  assumes "env_ok E" and "service_inv E s"
  shows "service_inv E (snd (servlet_do E (ip_router E cf) type rq s))"
  using assms by (rule servlet_keeps)

theorem requests_keep_invariant_witness:
  "service_inv demo_env (snd (servlet_do demo_env (ip_router demo_env demo_config) http_handler_post demo_request_add demo_state))"
  by (rule requests_keep_invariant [OF demo_env_ok demo_service_inv])



text \<open>
  A path nobody registered for the type of the request gets a 404, an empty path a 400, and in both
  cases the only effect is the attempt to write the reply.
\<close>

theorem dispatch_unknown_path:
  fixes s :: "('k, 'z) rm_s"
  assumes "type_ok type"
    and "\<forall>(ty, p, fn)\<in>set (registrations E cf :: (int \<times> string \<times> ('k, 'z) rm_s handler) list). ty = type \<longrightarrow> normal_path E p \<noteq> normal_path E (the (rq_path rq))"
  shows "snd (dispatch E (ip_router E cf) type rq s) = snd (next_io s) \<and>
    map_option rp_status (snd (fst (dispatch E (ip_router E cf) type rq s))) =
      Some (if rq_path rq = None \<or> rq_path rq = Some [] then 400 else 404)"
proof (cases "rq_path rq = None \<or> rq_path rq = Some []")
  case True
  obtain x s1 where io: "next_io s = (x, s1)" by fastforce
  from True assms(1) show ?thesis
    by (cases x) (auto simp: dispatch_def type_ok_def Let_def write_reply_def io bad_request_def)
next
  case False
  then obtain path where path: "rq_path rq = Some path" "path \<noteq> []" by auto
  let ?regs = "registrations E cf :: (int \<times> string \<times> ('k, 'z) rm_s handler) list"
  have none: "find_handler (ip_router E cf :: ('k, 'z) rm_s http_service) type (normal_path E path) = None"
  proof (cases "List.find (\<lambda>(ty, p, fn). type_ok ty \<and> p \<noteq> [] \<and> type = ty \<and> normal_path E path = normal_path E p)
      (rev ?regs)")
    case None
    then show ?thesis by (simp add: find_ip_router [OF assms(1)])
  next
    case (Some r)
    then show ?thesis using find_member [OF Some] assms(2) path(1) by (cases r) fastforce
  qed
  obtain x s1 where io: "next_io s = (x, s1)" by fastforce
  from none path show ?thesis
    by (cases x) (simp_all add: io dispatch_path [OF assms(1) path] default_ip_router http_not_found_def Let_def write_reply_def)
qed

theorem dispatch_unknown_path_witness:
  "map_option rp_status (snd (fst (dispatch demo_env (ip_router demo_env demo_config) http_handler_get
     (demo_request_add\<lparr>rq_path := Some ''/admin''\<rparr>) demo_state))) = Some 404"
proof -
  have t: "type_ok http_handler_get" by (simp add: type_ok_def)
  have n: "\<forall>(ty, p, fn)\<in>set (registrations demo_env demo_config). ty = http_handler_get \<longrightarrow>
      normal_path demo_env p \<noteq> normal_path demo_env (the (rq_path (demo_request_add\<lparr>rq_path := Some ''/admin''\<rparr>)))"
    by (simp add: registrations_def normal_path_def demo_env_def tolower_def isupper_def)
  show ?thesis using dispatch_unknown_path [OF t n, of demo_state] by simp
qed

subsection \<open>Requests on routes\<close>

text \<open>
  C26: a 200 for an addition of several addresses means that all of them are recorded: every address of
  the list is in the table under the key of the request, with the gateway that was resolved.
\<close>

theorem route_add_200_means_recorded:
  assumes "env_ok E" and "service_inv E s" and "given (get_parameter rq ''ips'')"
    and "route_add E rq s = ((sent, reply), s')" and "rp_status reply = 200"
    and "t \<in> set (acl_split2 E (the (get_parameter rq ''ips'')) separators)"
  shows "\<exists>g applied md. resolve_add_gateway E rq s = Inr (g, applied) \<and>
    find_route (installed_routes s') (the (get_route_key rq)) (c_str t) = Some md \<and> md_gateway md = g"
  using assms by (rule route_add_recorded)

theorem route_add_200_means_recorded_witness:
  "\<exists>md. find_route (installed_routes (snd (route_add demo_env demo_request_add demo_state))) ''home'' ''10.0.0.2'' = Some md"
proof -
  have run: "route_add demo_env demo_request_add demo_state =
      ((fst (fst (route_add demo_env demo_request_add demo_state)), snd (fst (route_add demo_env demo_request_add demo_state))),
       snd (route_add demo_env demo_request_add demo_state))" by simp
  have st: "rp_status (snd (fst (route_add demo_env demo_request_add demo_state))) = 200" by code_simp
  have gi: "given (get_parameter demo_request_add ''ips'')" by code_simp
  have t: "''10.0.0.2'' \<in> set (acl_split2 demo_env (the (get_parameter demo_request_add ''ips'')) separators)" by code_simp
  have k: "the (get_route_key demo_request_add) = ''home''" by code_simp
  have c: "c_str ''10.0.0.2'' = ''10.0.0.2''" by code_simp
  show ?thesis
    using route_add_200_means_recorded [OF demo_env_ok demo_service_inv gi run st t] k c by auto
qed



end
