(* ===== verification/Master_Service.thy ===== *)
theory Master_Service
  imports Route_Service Route_Worker
begin

text \<open>
  The process of \<open>ip-router\<close> (\<open>main.cpp\<close>, \<open>master_service.cpp\<close>): the configuration tables, what
  \<open>proc_on_init\<close> sets up, a connection from \<open>on_accept\<close> to its end, and \<open>proc_on_exit\<close>. The framework
  that reads the configuration file and accepts connections is the ACL library's: its \<open>get\<close> functions are
  arguments. A call of a TLS library takes the next outcome of the script.
\<close>

subsection \<open>Configuration\<close>

text \<open>Name and default of the settings; an integer has its bounds too.\<close>

definition str_table :: "(string \<times> string) list" where
  "str_table =
     [(''libcrypto_path'', ''''), (''libx509_path'', ''''), (''libssl_path'', ''''), (''crt_file'', ''''),
      (''key_file'', ''''), (''key_pass'', ''''), (''routes_file'', ''routes.db''),
      (''resolver_dir'', ''/etc/resolver''), (''dns_gate_nameserver'', ''127.0.0.1''),
      (''dns_gate_http_addr'', ''127.0.0.1:8053'')]"

definition bool_table :: "(string \<times> bool) list" where
  "bool_table = [(''ssl_session_cache'', True)]"

definition int_table :: "(string \<times> int \<times> int \<times> int) list" where
  "int_table =
     [(''io_timeout'', 120, 0, 0), (''dns_gate_port'', 53, 1, 65535), (''resolver_search_order'', 1, 0, 1000000),
      (''dns_gate_http_timeout'', 8, 1, 300)]"

text \<open>The variables the tables fill; a string is null when the framework left it so.\<close>

record settings =
  cfg_libcrypto_path :: string
  cfg_libx509_path :: string
  cfg_libssl_path :: string
  cfg_crt_file :: "string option"
  cfg_key_file :: "string option"
  cfg_key_pass :: string
  cfg_routes_file :: "string option"
  cfg_resolver_dir :: "string option"
  cfg_dns_gate_nameserver :: "string option"
  cfg_dns_gate_http_addr :: "string option"
  cfg_ssl_session_cache :: bool
  cfg_io_timeout :: int
  cfg_dns_gate_port :: int
  cfg_resolver_search_order :: int
  cfg_dns_gate_http_timeout :: int

definition load_settings ::
  "(string \<Rightarrow> string \<Rightarrow> string) \<Rightarrow> (string \<Rightarrow> bool \<Rightarrow> bool) \<Rightarrow> (string \<Rightarrow> int \<times> int \<times> int \<Rightarrow> int) \<Rightarrow> settings" where
  "load_settings get_str get_bool get_int =
     (let str = (\<lambda>n. get_str n (the (map_of str_table n)));
          int = (\<lambda>n. get_int n (the (map_of int_table n)))
      in \<lparr>cfg_libcrypto_path = str ''libcrypto_path'', cfg_libx509_path = str ''libx509_path'',
          cfg_libssl_path = str ''libssl_path'', cfg_crt_file = Some (str ''crt_file''),
          cfg_key_file = Some (str ''key_file''), cfg_key_pass = str ''key_pass'',
          cfg_routes_file = Some (str ''routes_file''), cfg_resolver_dir = Some (str ''resolver_dir''),
          cfg_dns_gate_nameserver = Some (str ''dns_gate_nameserver''),
          cfg_dns_gate_http_addr = Some (str ''dns_gate_http_addr''),
          cfg_ssl_session_cache = get_bool ''ssl_session_cache'' (the (map_of bool_table ''ssl_session_cache'')),
          cfg_io_timeout = int ''io_timeout'', cfg_dns_gate_port = int ''dns_gate_port'',
          cfg_resolver_search_order = int ''resolver_search_order'',
          cfg_dns_gate_http_timeout = int ''dns_gate_http_timeout''\<rparr>)"

subsection \<open>The command line\<close>

text \<open>
  The arguments of \<open>main\<close>, the name of the program first, on systems other than Windows. \<open>Alone\<close> has the
  address and the configuration file.
\<close>

datatype launch = Alone string "string option" | Daemon "string list"

definition launch_mode :: "string list \<Rightarrow> launch" where
  "launch_mode argv =
     (if length argv = 1 \<or> length argv \<ge> 2 \<and> same_ignoring_case (argv ! 1) ''alone''
      then Alone (if length argv \<ge> 4 then argv ! 3 else ''127.0.0.1|8088'')
             (if length argv \<ge> 3 then Some (argv ! 2) else None)
      else Daemon argv)"

subsection \<open>Start\<close>

datatype tls_library = Mbedtls | Polarssl | Openssl

record tls_conf =
  tls_library_of :: tls_library
  tls_cache :: bool
  tls_certificate :: "string \<times> string \<times> string"

text \<open>\<open>strstr (text, word) != NULL\<close>\<close>

fun strstr :: "string \<Rightarrow> string \<Rightarrow> bool" where
  "strstr [] w \<longleftrightarrow> w = []"
| "strstr (c # cs) w \<longleftrightarrow> take (length w) (c # cs) = w \<or> strstr cs w"

definition library_for :: "string \<Rightarrow> tls_library option" where
  "library_for path =
     (if strstr path ''mbedtls'' then Some Mbedtls
      else if strstr path ''polarssl'' then Some Polarssl
      else if strstr path ''libssl'' then Some Openssl
      else None)"

text \<open>
  The second half of \<open>proc_on_init\<close>; \<open>conf\<close> is \<open>conf_\<close>. The two outcomes are those of \<open>load\<close> and
  \<open>add_cert\<close>.
\<close>

definition init_tls ::
  "settings \<Rightarrow> tls_conf option \<Rightarrow> ('k, 'z) os_scheme \<Rightarrow> tls_conf option \<times> ('k, 'z) os_scheme" where
  "init_tls st conf s =
     (if \<not> given (cfg_crt_file st) \<or> \<not> given (cfg_key_file st) then (conf, s)
      else case library_for (cfg_libssl_path st) of
        None \<Rightarrow> (conf, s)
      | Some lib \<Rightarrow>
          (case next_io s of
             (Fault _, s1) \<Rightarrow> (conf, s1)
           | (Done, s1) \<Rightarrow>
               (case next_io s1 of
                  (Fault _, s2) \<Rightarrow> (None, s2)
                | (Done, s2) \<Rightarrow>
                    (Some \<lparr>tls_library_of = lib, tls_cache = cfg_ssl_session_cache st,
                           tls_certificate = (the (cfg_crt_file st), the (cfg_key_file st), cfg_key_pass st)\<rparr>,
                     s2))))"

text \<open>The state of the process: the route manager with its threads, the domain manager, \<open>conf_\<close>.\<close>

record 'k master =
  m_routes :: "'k rsys"
  m_resolver :: resolver
  m_tls :: "tls_conf option"

definition proc_on_init :: "'k env \<Rightarrow> nat \<Rightarrow> settings \<Rightarrow> 'k master \<Rightarrow> 'k master" where
  "proc_on_init E pid st m =
     (let r = configure pid (cfg_resolver_dir st) (cfg_dns_gate_nameserver st) (cfg_dns_gate_port st)
                (cfg_resolver_search_order st);
          c1 = (m_routes m)\<lparr>mem := set_storage_path (cfg_routes_file st) (mem (m_routes m))\<rparr>;
          c2 = start_worker E c1;
          (conf, s) = init_tls st (m_tls m) (mem c2)
      in m\<lparr>m_routes := c2\<lparr>mem := s\<rparr>, m_resolver := r, m_tls := conf\<rparr>)"

text \<open>
  \<open>route_manager::stop\<close> with nothing else running: the worker sees the flag and leaves, it is joined,
  and the manager is no longer started.
\<close>

definition stop_routes :: "'k rsys \<Rightarrow> 'k rsys" where
  "stop_routes c =
     (if \<not> worker_started (mem c) then c
      else stop_finish ((stop_signal c)\<lparr>worker_thread := Absent, stopping_at := Joined\<rparr>))"

definition proc_on_exit :: "'k master \<Rightarrow> 'k master" where
  "proc_on_exit m = m\<lparr>m_routes := stop_routes (m_routes m), m_tls := None\<rparr>"

subsection \<open>A connection\<close>

text \<open>
  \<open>setup_ssl\<close>: whether it returns a hook; \<open>hooked\<close> is whether the connection has one already. The
  outcomes are those of \<open>setup_hook\<close>, \<open>handshake\<close> and \<open>handshake_ok\<close>.
\<close>

definition setup_ssl :: "bool \<Rightarrow> ('k, 'z) os_scheme \<Rightarrow> bool \<times> ('k, 'z) os_scheme" where
  "setup_ssl hooked s =
     (if hooked then (True, s)
      else case next_io s of
        (Fault _, s1) \<Rightarrow> (False, s1)
      | (Done, s1) \<Rightarrow>
          (case next_io s1 of
             (Fault _, s2) \<Rightarrow> (False, s2)
           | (Done, s2) \<Rightarrow>
               (case next_io s2 of
                  (Fault _, s3) \<Rightarrow> (False, s3)
                | (Done, s3) \<Rightarrow> (True, s3))))"

text \<open>The requests the client sends, with the function each arrives at, and the replies written.\<close>

definition on_accept ::
  "'k env \<Rightarrow> ('k, 'z) os_scheme http_service \<Rightarrow> tls_conf option \<Rightarrow> bool \<Rightarrow> (http_call \<times> http_request) list
     \<Rightarrow> ('k, 'z) os_scheme \<Rightarrow> reply option list \<times> ('k, 'z) os_scheme" where
  "on_accept E svc conf hooked qs s =
     (let serve = serve_while (\<lambda>(call, rq). servlet_call E svc call rq) qs in
      case conf of
        None \<Rightarrow> serve s
      | Some _ \<Rightarrow> (case setup_ssl hooked s of (False, s1) \<Rightarrow> ([], s1) | (True, s1) \<Rightarrow> serve s1))"

end
