(* ===== verification/Master_Effects.thy ===== *)
theory Master_Effects
  imports Master_Service Service_Effects
begin

text \<open>
  The life of the process and of a connection: \<open>proc_on_init\<close> leaves a reachable state of the system of
  threads, \<open>proc_on_exit\<close> runs the steps of \<open>stop\<close>, a connection keeps the invariant, and with TLS no
  request is served before the handshake.
\<close>

subsection \<open>Outcomes\<close>

lemma next_io_fields:
  assumes "next_io s = (x, s')"
  shows "s' = s\<lparr>script := tl (script s)\<rparr>"
  using assms by (cases "script s") (auto simp: next_io_def)

lemma next_io_keeps: "next_io s = (x, s') \<Longrightarrow> service_inv E s \<Longrightarrow> service_inv E s'"
  using service_inv_files next_io_frame by blast

lemma setup_ssl_outcomes:
  "setup_ssl False s =
    (if \<exists>e. Fault e \<in> set (take 3 (script s))
     then (False, s\<lparr>script := drop (Suc (length (takeWhile (\<lambda>x. x = Done) (script s)))) (script s)\<rparr>)
     else (True, s\<lparr>script := drop 3 (script s)\<rparr>))"
proof (cases "script s")
  case Nil
  then show ?thesis by (simp add: setup_ssl_def next_io_def)
next
  case 1: (Cons x xs)
  show ?thesis
  proof (cases x)
    case (Fault e)
    then show ?thesis using 1 by (auto simp: setup_ssl_def next_io_def)
  next
    case x: Done
    show ?thesis
    proof (cases xs)
      case Nil
      then show ?thesis using 1 x by (simp add: setup_ssl_def next_io_def)
    next
      case 2: (Cons y ys)
      show ?thesis
      proof (cases y)
        case (Fault e)
        then show ?thesis using 1 2 x by (auto simp: setup_ssl_def next_io_def)
      next
        case y: Done
        show ?thesis
        proof (cases ys)
          case Nil
          then show ?thesis using 1 2 x y by (simp add: setup_ssl_def next_io_def)
        next
          case (Cons z zs)
          then show ?thesis using 1 2 x y by (cases z) (auto simp: setup_ssl_def next_io_def)
        qed
      qed
    qed
  qed
qed

lemma setup_ssl_keeps:
  assumes "setup_ssl hooked s = (b, s')" and "service_inv E s"
  shows "service_inv E s'"
proof (cases hooked)
  case True
  then show ?thesis using assms by (simp add: setup_ssl_def)
next
  case False
  obtain x1 s1 where 1: "next_io s = (x1, s1)" by fastforce
  obtain x2 s2 where 2: "next_io s1 = (x2, s2)" by fastforce
  obtain x3 s3 where 3: "next_io s2 = (x3, s3)" by fastforce
  have "s' \<in> {s1, s2, s3}" using assms(1) 1 2 3 False by (auto simp: setup_ssl_def split: io.splits)
  then show ?thesis
    using next_io_keeps [OF 1 assms(2)] next_io_keeps [OF 2] next_io_keeps [OF 3] by blast
qed

subsection \<open>A connection\<close>

lemma servlet_call_keeps:
  assumes "env_ok E" and "service_inv E s"
  shows "service_inv E (snd (servlet_call E (ip_router E cf) call rq s))"
proof -
  have other: "service_inv E (snd (servlet_other n s))" for n
  proof -
    obtain x1 s1 where 1: "next_io s = (x1, s1)" by fastforce
    obtain x2 s2 where 2: "next_io s1 = (x2, s2)" by fastforce
    show ?thesis
      using next_io_keeps [OF 2 next_io_keeps [OF 1 assms(2)]] by (simp add: servlet_other_def Let_def 1 2)
  qed
  show ?thesis
    using servlet_keeps [OF assms, of cf] other by (simp add: servlet_call_def split: http_call.split)
qed

lemma on_accept_keeps:
  assumes "env_ok E" and "service_inv E s" and "on_accept E (ip_router E cf) conf hooked qs s = (rs, s')"
  shows "service_inv E s'"
proof -
  have step: "service_inv E t'"
    if "(case q of (call, rq) \<Rightarrow> servlet_call E (ip_router E cf) call rq) t = ((k, r), t')" "service_inv E t" for q t k r t'
    using that servlet_call_keeps [OF assms(1) that(2), of cf "fst q" "snd q"] by (cases q) simp
  have serve: "service_inv E t'"
    if "serve_while (\<lambda>(call, rq). servlet_call E (ip_router E cf) call rq) qs t = (rs', t')" "service_inv E t" for t t' rs'
    by (rule serve_while_inv [where P = "service_inv E", OF that]) (use step in blast)
  show ?thesis
  proof (cases conf)
    case None
    then show ?thesis using assms serve by (simp add: on_accept_def)
  next
    case (Some c)
    obtain b s1 where b: "setup_ssl hooked s = (b, s1)" by fastforce
    show ?thesis
      using assms(3) Some b serve setup_ssl_keeps [OF b assms(2)] by (cases b) (auto simp: on_accept_def)
  qed
qed

lemma on_accept_prefix:
  assumes "on_accept E svc conf hooked qs s = (rs, s')"
  shows "length rs \<le> length qs \<and> on_accept E svc conf hooked (take (length rs) qs) s = (rs, s')"
proof (cases conf)
  case None
  then show ?thesis using assms serve_while_prefix [of "\<lambda>(call, rq). servlet_call E svc call rq" qs s rs s']
    by (simp add: on_accept_def)
next
  case (Some c)
  obtain b s1 where b: "setup_ssl hooked s = (b, s1)" by fastforce
  show ?thesis
    using assms Some b serve_while_prefix [of "\<lambda>(call, rq). servlet_call E svc call rq" qs s1 rs s']
    by (cases b) (auto simp: on_accept_def)
qed

subsection \<open>Start and exit\<close>

lemma init_tls_mem:
  assumes "init_tls st conf s = (conf', s')"
  shows "\<exists>sc. s' = s\<lparr>script := sc\<rparr>"
proof -
  obtain x1 s1 where 1: "next_io s = (x1, s1)" by fastforce
  obtain x2 s2 where 2: "next_io s1 = (x2, s2)" by fastforce
  have "s' = s \<or> s' = s1 \<or> s' = s2" using assms 1 2 by (auto simp: init_tls_def split: if_splits option.splits io.splits)
  then show ?thesis
  proof (elim disjE)
    assume "s' = s"
    then show ?thesis by (intro exI [of _ "script s"]) simp
  qed (use next_io_fields [OF 1] next_io_fields [OF 2] in auto)
qed

lemma init_tls_conf:
  "fst (init_tls st None s) = None \<longleftrightarrow>
     \<not> given (cfg_crt_file st) \<or> \<not> given (cfg_key_file st) \<or> library_for (cfg_libssl_path st) = None
       \<or> (\<exists>e. Fault e \<in> set (take 2 (script s)))"
proof (cases "script s")
  case Nil
  then show ?thesis by (auto simp: init_tls_def next_io_def split: option.splits)
next
  case 1: (Cons x xs)
  show ?thesis
  proof (cases x)
    case (Fault e)
    then show ?thesis using 1 by (auto simp: init_tls_def next_io_def split: option.splits)
  next
    case Done
    then show ?thesis using 1
      by (cases xs; cases "hd xs") (auto simp: init_tls_def next_io_def split: option.splits)
  qed
qed

lemma proc_on_init_reachable:
  assumes "strict_order (acl_less E)" and "initial (m_routes m)"
    and "nul_free (routes_file (set_storage_path (cfg_routes_file st) (mem (m_routes m)))) (mem (m_routes m))"
  shows "reachable E (m_routes (proc_on_init E pid st m))"
    and "worker_started (mem (m_routes (proc_on_init E pid st m)))"
    and "worker_thread (m_routes (proc_on_init E pid st m)) = Running"
proof -
  let ?c = "m_routes m"
  define c1 where "c1 = ?c\<lparr>mem := set_storage_path (cfg_routes_file st) (mem ?c)\<rparr>"
  define c2 where "c2 = start_worker E c1"
  obtain conf s where t: "init_tls st (m_tls m) (mem c2) = (conf, s)" by fastforce
  obtain sc where s: "s = (mem c2)\<lparr>script := sc\<rparr>" using init_tls_mem [OF t] by blast
  have m': "m_routes (proc_on_init E pid st m) = c2\<lparr>mem := s\<rparr>"
    by (simp add: proc_on_init_def Let_def t flip: c1_def c2_def)
  have idle: "stopping_at ?c = Idle" using assms(2) by (simp add: initial_def)
  have "reachable E c1"
    unfolding c1_def by (rule reach_step [OF reach_init [OF assms(2)] rstep.storage [OF idle]])
  moreover have c1: "stopping_at c1 = Idle" "nul_free (routes_file (mem c1)) (mem c1)"
    using idle assms(3) by (simp_all add: c1_def set_storage_path_def nul_free_def file_at_def Let_def)
  ultimately have r2: "reachable E c2" unfolding c2_def by (rule reach_step [OF _ rstep.start])
  have same: "(mem c2)\<lparr>clock := clock (mem c2), script := sc, kernel := kernel (mem c2), files := files (mem c2)\<rparr> =
      (mem c2)\<lparr>script := sc\<rparr>" by simp
  have "rstep E c2 (c2\<lparr>mem := (mem c2)\<lparr>script := sc\<rparr>\<rparr>)" if "clock (mem c2) \<le> long_long_max"
    using rstep.outside [where c = c2 and t = "clock (mem c2)" and sc = sc and k = "kernel (mem c2)" and fs = "files (mem c2)" and E = E] that unfolding same by simp
  moreover have started: "\<not> worker_started (mem c1)" using assms(2) by (simp add: initial_def c1_def set_storage_effect)
  moreover have "clock (mem c2) = clock (mem c1)"
    using started start_routes_clock [of E "mem c1"] by (simp add: c2_def start_worker_def)
  moreover have "clock (mem c1) \<le> long_long_max"
    using assms(2) by (simp add: initial_def c1_def set_storage_effect)
  ultimately show "reachable E (m_routes (proc_on_init E pid st m))"
    unfolding m' s using reach_step [OF r2] by simp
  show "worker_started (mem (m_routes (proc_on_init E pid st m)))"
    and "worker_thread (m_routes (proc_on_init E pid st m)) = Running"
    unfolding m' s using started start_routes_effect(2) [OF assms(1) c1(2) started] by (simp_all add: c2_def start_worker_def)
qed

text \<open>\<open>stop_routes\<close> is a run of the system in which nothing else happens.\<close>

lemma stop_routes_run:
  assumes "reachable E c" and "worker_started (mem c)" and "stopping_at c = Idle" and "worker_thread c = Running"
  shows "reachable E (stop_routes c)"
proof -
  have 1: "reachable E (stop_signal c)" by (rule reach_step [OF assms(1) rstep.signal [OF assms(3)]])
  let ?c1 = "stop_signal c"
  have f1: "worker_thread ?c1 = Running" "worker_stopping (mem ?c1)" "stopping_at ?c1 = Signalled"
    using assms(2,4) by (simp_all add: stop_signal_def)
  have 2: "reachable E (?c1\<lparr>worker_thread := Exited\<rparr>)" by (rule reach_step [OF 1 rstep.leave [OF f1(1,2)]])
  have "rstep E (?c1\<lparr>worker_thread := Exited\<rparr>)
      ((?c1\<lparr>worker_thread := Exited\<rparr>)\<lparr>worker_thread := Absent, stopping_at := Joined\<rparr>)"
    by (rule rstep.join) (use f1 in simp_all)
  from reach_step [OF 2 this] have 3: "reachable E (?c1\<lparr>worker_thread := Absent, stopping_at := Joined\<rparr>)" by simp
  have "rstep E (?c1\<lparr>worker_thread := Absent, stopping_at := Joined\<rparr>)
      (stop_finish (?c1\<lparr>worker_thread := Absent, stopping_at := Joined\<rparr>))"
    by (rule rstep.finish) simp
  from reach_step [OF 3 this] show ?thesis using assms(2) by (simp add: stop_routes_def)
qed

end
