(* ===== verification/Service_Replies.thy ===== *)
theory Service_Replies
  imports Service_Effects
begin

text \<open>
  What every reply of the service looks like, and what a request may change: a reply is sound, a client
  error changes nothing, and only \<open>POST\<close> and \<open>DELETE\<close> change the table, the settings or a file.
\<close>

subsection \<open>Sound replies\<close>

text \<open>
  A document is an object of the JSON type whose member \<open>success\<close> is true exactly under status 200; a text
  has its own length, if it gives one.
\<close>

definition known_statuses :: "int set" where
  "known_statuses = {200, 207, 400, 404, 500, 502, 503}"

fun sound_body :: "reply \<Rightarrow> body \<Rightarrow> bool" where
  "sound_body r (Json_body (JObject ms)) \<longleftrightarrow>
     rp_type r = json_type \<and> rp_status r \<in> known_statuses \<and>
     map_of ms ''success'' = Some (JBool (rp_status r = 200))"
| "sound_body r (Json_body j) \<longleftrightarrow> False"
| "sound_body r (Text_body t) \<longleftrightarrow> rp_status r > 0 \<and> (rp_length r = None \<or> rp_length r = Some (int (length t)))"

definition sound_reply :: "reply \<Rightarrow> bool" where
  "sound_reply r \<longleftrightarrow> sound_body r (rp_body r)"

text \<open>Nothing but outcomes is consumed.\<close>

definition script_frame :: "('k, 'z) os_scheme \<Rightarrow> ('k, 'z) os_scheme \<Rightarrow> bool" where
  "script_frame s s' \<longleftrightarrow> s' = s\<lparr>script := script s'\<rparr>"

lemma script_frame_refl [simp]: "script_frame s s"
  by (simp add: script_frame_def)

lemma script_frame_trans: "script_frame s t \<Longrightarrow> script_frame t u \<Longrightarrow> script_frame s u"
proof -
  assume "script_frame s t" and u: "script_frame t u"
  then obtain sc where "t = s\<lparr>script := sc\<rparr>" unfolding script_frame_def by blast
  then show "script_frame s u" using u by (simp add: script_frame_def)
qed

lemma next_io_script_frame: "next_io s = (x, s') \<Longrightarrow> script_frame s s'"
  by (rule next_io_cases [of s]) (auto simp: script_frame_def)

lemma script_frame_net: "script_frame s s' \<Longrightarrow> net_frame (s :: ('k, 'z) rm_s) s'"
proof -
  assume "script_frame s s'"
  then obtain sc where "s' = s\<lparr>script := sc\<rparr>" unfolding script_frame_def by blast
  then show "net_frame s s'" by (simp add: net_frame_def)
qed

definition client_error :: "reply \<Rightarrow> bool" where
  "client_error r \<longleftrightarrow> 400 \<le> rp_status r \<and> rp_status r < 500"

text \<open>What is shown of each handler.\<close>

definition honest :: "('k, 'z) rm_s handler \<Rightarrow> bool" where
  "honest h \<longleftrightarrow>
     (\<forall>rq s k r s'. h rq s = ((k, r), s') \<longrightarrow> sound_reply r \<and> (client_error r \<longrightarrow> script_frame s s'))"

definition only_reads :: "('k, 'z) rm_s handler \<Rightarrow> bool" where
  "only_reads h \<longleftrightarrow> (\<forall>rq s k r s'. h rq s = ((k, r), s') \<longrightarrow> net_frame s s')"

lemma write_reply_outcome:
  "write_reply r s = ((k, r'), s') \<Longrightarrow> r' = r \<and> script_frame s s'"
  by (auto simp: write_reply_def intro: next_io_script_frame split: prod.splits io.splits)

lemma reply_json_outcome:
  assumes "reply_json st good m d g ky t a s = ((k, r), s')"
  shows "rp_status r = st \<and> script_frame s s' \<and> (st \<in> known_statuses \<longrightarrow> good = (st = 200) \<longrightarrow> sound_reply r)"
  using write_reply_outcome [OF assms [unfolded reply_json_def]] by (auto simp: sound_reply_def)

lemma reply_object_outcome:
  assumes "reply_object st ms s = ((k, r), s')"
  shows "rp_status r = st \<and> script_frame s s' \<and>
    (st \<in> known_statuses \<longrightarrow> map_of ms ''success'' = Some (JBool (st = 200)) \<longrightarrow> sound_reply r)"
  using write_reply_outcome [OF assms [unfolded reply_object_def]] by (auto simp: sound_reply_def)

lemma known_statuses_simps [simp]:
  "200 \<in> known_statuses" "207 \<in> known_statuses" "400 \<in> known_statuses" "404 \<in> known_statuses"
  "500 \<in> known_statuses" "502 \<in> known_statuses" "503 \<in> known_statuses"
  by (simp_all add: known_statuses_def)

lemmas replies = reply_json_outcome reply_object_outcome write_reply_outcome

text \<open>The two ways a handler ends: a refusal in the state it began in, or a reply that is no client error.\<close>

lemma refusal_honest:
  assumes "reply_error 400 e s = ((k, r), s')"
  shows "sound_reply r \<and> (client_error r \<longrightarrow> script_frame s s')"
  using reply_json_outcome [OF assms] by simp

lemma json_honest:
  assumes "reply_json st good m d g ky t a s1 = ((k, r), s')" and "st \<in> {200, 500, 502, 503}" and "good = (st = 200)"
  shows "sound_reply r \<and> (client_error r \<longrightarrow> script_frame s s')"
  using reply_json_outcome [OF assms(1)] assms(2,3) by (auto simp: client_error_def)

lemma object_honest:
  assumes "reply_object st ms s1 = ((k, r), s')" and "st \<in> {200, 207, 500}"
    and "map_of ms ''success'' = Some (JBool (st = 200))"
  shows "sound_reply r \<and> (client_error r \<longrightarrow> script_frame s s')"
  using reply_object_outcome [OF assms(1)] assms(2,3) by (auto simp: client_error_def)

subsection \<open>The handlers are honest\<close>

lemma change_route_honest: "honest (change_route E adding)"
  unfolding honest_def
proof (intro allI impI)
  fix rq s k r s' assume run: "change_route E adding rq s = ((k, r), s')"
  show "sound_reply r \<and> (client_error r \<longrightarrow> script_frame s s')"
    using run
    by (auto simp: change_route_def Let_def simp del: de_Morgan_conj split: if_splits sum.splits prod.splits
        dest!: refusal_honest json_honest [where s = s])
qed

lemma bulk_status_cases:
  "bulk_status n m \<in> {200, 207, 500}" "(bulk_status n m = 200) = (m = n)"
  by (auto simp: bulk_status_def)

lemma route_add_honest: "honest (route_add E)"
  unfolding honest_def
proof (intro allI impI)
  fix rq s k r s' assume run: "route_add E rq s = ((k, r), s')"
  show "sound_reply r \<and> (client_error r \<longrightarrow> script_frame s s')"
  proof (cases rule: route_add_cases [of rq E s])
    case single
    then show ?thesis
      using run change_route_honest [of E True, unfolded honest_def, rule_format, of rq s k r s'] by simp
  next
    case (refused e)
    then show ?thesis using run refusal_honest by metis
  next
    case (bulk g applied ttl tokens rs s1)
    show ?thesis
      by (rule object_honest [OF run [unfolded bulk(10) bulk_reply_def] bulk_status_cases(1)])
        (simp add: bulk_status_cases)
  qed
qed

lemma route_delete_honest: "honest (route_delete E)"
  unfolding honest_def
proof (intro allI impI)
  fix rq s k r s' assume run: "route_delete E rq s = ((k, r), s')"
  let ?key = "get_route_key rq" and ?ip = "parameter rq ''ip'' ''target''"
  obtain rs s1 where d: "delete_all E [] (selected ?key ?ip (list_routes s)) s = (rs, s1)" by fastforce
  show "sound_reply r \<and> (client_error r \<longrightarrow> script_frame s s')"
  proof (cases "rs = []")
    case True
    then have "s1 = s" using d by (cases "selected ?key ?ip (list_routes s)") (auto simp: Let_def split: prod.splits)
    then show ?thesis using run True
      by (auto simp: route_delete_def Let_def d split: if_splits dest!: refusal_honest reply_object_outcome)
  next
    case False
    then show ?thesis using run
      by (auto simp: route_delete_def Let_def d bulk_status_cases split: if_splits
          dest!: refusal_honest object_honest [where s = s, OF _ bulk_status_cases(1)])
  qed
qed

lemma settings_honest: "honest route_settings_get" "honest (route_settings_set E)" "honest (route_settings_delete E)"
  by (auto simp: honest_def route_settings_get_def route_settings_set_def route_settings_delete_def
      write_route_settings_def get_global_route_def Let_def split: if_splits sum.splits prod.splits option.splits
      dest!: refusal_honest json_honest object_honest)

lemma system_route_delete_honest: "honest (system_route_delete E)"
  unfolding honest_def
proof (intro allI impI)
  fix rq s k r s' assume run: "system_route_delete E rq s = ((k, r), s')"
  then show "sound_reply r \<and> (client_error r \<longrightarrow> script_frame s s')"
    by (auto simp: system_route_delete_def Let_def split: if_splits sum.splits prod.splits
        dest!: refusal_honest json_honest [where s = s])
qed

lemma domain_change_honest: "honest (domain_change E cf adding)"
  unfolding honest_def
proof (intro allI impI)
  fix rq s k r s' assume run: "domain_change E cf adding rq s = ((k, r), s')"
  show "sound_reply r \<and> (client_error r \<longrightarrow> script_frame s s')"
  proof (cases "collect_domains E rq")
    case (Inl e)
    then show ?thesis using run refusal_honest [of e s k r s'] by (simp add: domain_change_def)
  next
    case (Inr ds)
    obtain rs s1 where c: "change_domains E (cf_resolver cf) adding ds s = (rs, s1)" by fastforce
    obtain x s2 where f: "(if count_ok rs > 0 then refresh_system E s1 else (Inr (), s1)) = (x, s2)" by fastforce
    show ?thesis using run
      by (auto simp: domain_change_def Inr c f Let_def bulk_status_cases
          dest!: object_honest [where s = s, OF _ bulk_status_cases(1)])
  qed
qed

text \<open>A handler that has no refusal is honest when its replies are.\<close>

lemma read_handlers_honest:
  "honest (domain_list E cf)" "honest tld_list" "honest route_page" "honest route_list" "honest (system_route_list E)"
  "honest health"
  by (auto simp: honest_def domain_list_def tld_list_def route_page_def route_list_def system_route_list_def
      health_def sound_reply_def client_error_def Let_def split: prod.splits sum.splits option.splits if_splits
      dest!: json_honest object_honest write_reply_outcome)

lemma dns_domain_lookup_honest: "honest (dns_domain_lookup E cf)"
  by (auto simp: honest_def dns_domain_lookup_def sound_reply_def Let_def split: if_splits upstream.splits option.splits
      dest!: refusal_honest json_honest write_reply_outcome)

lemma http_not_found_honest: "honest (http_not_found path)"
  by (auto simp: honest_def http_not_found_def sound_reply_def Let_def split: prod.splits dest!: write_reply_outcome)

subsection \<open>Reading\<close>

lemma read_only_files:
  fixes s :: "('k, 'z) rm_s"
  assumes "file_frame s s'" and "files s' = files s"
  shows "script_frame s s'"
  using assms unfolding script_frame_def by (elim file_frameE) simp

lemma list_items_reads: "script_frame (s :: ('k, 'z) rm_s) (snd (list_items cfg ns s))"
proof (induction ns arbitrary: s)
  case Nil
  then show ?case by simp
next
  case (Cons n ns)
  obtain e s1 where i: "list_item cfg n s = (e, s1)" by fastforce
  obtain x t where l: "lstat (path_join (resolver_directory cfg) n) s = (x, t)" by fastforce
  obtain y u where m: "read_managed_file (path_join (resolver_directory cfg) n) t = (y, u)" by fastforce
  have "s1 = s \<or> s1 = t \<or> s1 = u"
    using i l m by (auto simp: list_item_def Let_def split: if_splits sum.splits fnode.splits option.splits)
  moreover have "script_frame s t" "script_frame t u"
    using lstat_frame [OF l] read_managed_frame [OF m] by (blast intro: read_only_files)+
  ultimately have "script_frame s s1" using script_frame_trans by auto
  then show ?case using script_frame_trans [OF _ Cons.IH [of s1]] i by (simp add: case_prod_beta)
qed

lemma list_domains_reads:
  fixes s :: "('k, 'z) rm_s"
  assumes "list_domains E cfg s = (r, s')"
  shows "script_frame s s'"
proof -
  obtain x s1 where o: "open_directory (resolver_directory cfg) s = (x, s1)" by fastforce
  have "script_frame s s1"
    using o by (auto simp: open_directory_def intro: next_io_script_frame
        split: prod.splits io.splits option.splits fnode.splits)
  then show ?thesis
    using assms script_frame_trans [OF _ list_items_reads]
    by (auto simp: list_domains_def o case_prod_beta split: sum.splits if_splits)
qed

lemma get_handlers_read:
  "only_reads (domain_list E cf)" "only_reads tld_list" "only_reads route_page" "only_reads route_list"
  "only_reads (system_route_list E)" "only_reads health" "only_reads (dns_domain_lookup E cf)"
  "only_reads route_settings_get"
proof -
  show "only_reads route_list" "only_reads health" "only_reads route_settings_get"
    by (auto simp: only_reads_def route_list_def health_def route_settings_get_def write_route_settings_def Let_def
        dest!: replies intro: script_frame_net split: prod.splits)
  show "only_reads (dns_domain_lookup E cf)"
    by (auto simp: only_reads_def dns_domain_lookup_def Let_def dest!: replies intro: script_frame_net
        split: if_splits upstream.splits option.splits)
  show "only_reads (domain_list E cf)"
    by (auto simp: only_reads_def domain_list_def dest!: replies list_domains_reads
        intro: script_frame_net script_frame_trans split: prod.splits sum.splits)
  show "only_reads (system_route_list E)"
    unfolding only_reads_def
  proof (intro allI impI)
    fix rq s k r s' assume run: "system_route_list E rq s = ((k, r), s')"
    obtain x s1 where l: "list_system E s = (x, s1)" by fastforce
    have "net_frame s s1" using l unfolding list_system_def by (rule list_system_routes_frame)
    moreover have "script_frame s1 s'"
      using run by (auto simp: system_route_list_def l dest!: replies split: sum.splits)
    ultimately show "net_frame s s'" using script_frame_net net_frame_trans by blast
  qed
  show "only_reads tld_list"
    unfolding only_reads_def
  proof (intro allI impI)
    fix rq s k r s' assume run: "tld_list rq s = ((k, r), s')"
    obtain x s1 where o: "open_in tld_file s = (x, s1)" by fastforce
    obtain ls c s2 where l: "read_lines tld_file s1 = ((ls, c), s2)" by (metis prod.exhaust)
    have "script_frame s s1" "script_frame s1 s2"
      using open_in_frame [OF o] read_lines_frame [OF l] by (blast intro: read_only_files)+
    moreover have "script_frame s1 s' \<or> script_frame s2 s'"
      using run by (auto simp: tld_list_def o l Let_def dest!: replies split: sum.splits prod.splits if_splits)
    ultimately show "net_frame s s'" using script_frame_trans script_frame_net by blast
  qed
  show "only_reads route_page"
    unfolding only_reads_def
  proof (intro allI impI)
    fix rq s k r s' assume run: "route_page rq s = ((k, r), s')"
    obtain x s1 where o: "open_in ''html/index.html'' s = (x, s1)" by fastforce
    obtain t s2 where l: "read_all ''html/index.html'' s1 = (t, s2)" by fastforce
    have "script_frame s s1" using open_in_frame [OF o] by (blast intro: read_only_files)
    moreover have "script_frame s1 s2"
      using l by (auto simp: read_all_def intro: next_io_script_frame split: prod.splits option.splits)
    moreover have "script_frame s1 s' \<or> script_frame s2 s'"
      using run by (auto simp: route_page_def load_html_template_def o l dest!: replies split: sum.splits)
    ultimately show "net_frame s s'" using script_frame_trans script_frame_net by blast
  qed
qed

subsection \<open>From the handlers to a request\<close>

lemma registered_handler:
  assumes "type_ok type" and "find_handler (ip_router E cf) type q = Some fn"
  obtains p where "(type, p, fn) \<in> set (registrations E cf)"
  using assms(2) unfolding find_ip_router [OF assms(1), of E cf q]
  by (auto split: option.splits prod.splits dest!: find_member)

lemma registered_honest: "(type, p, fn) \<in> set (registrations E cf) \<Longrightarrow> honest fn"
  using route_add_honest route_delete_honest settings_honest system_route_delete_honest domain_change_honest
    read_handlers_honest dns_domain_lookup_honest
  unfolding registrations_def by simp blast

lemma registered_reads:
  "(type, p, fn) \<in> set (registrations E cf) \<Longrightarrow> type \<noteq> http_handler_post \<Longrightarrow> type \<noteq> http_handler_delete \<Longrightarrow> only_reads fn"
  using get_handlers_read unfolding registrations_def by simp blast

text \<open>
  What holds of every handler, of the default and of the refusal without a path, and is not disturbed by
  the interim reply, holds of a request.
\<close>

lemma request_outcome:
  fixes s :: "('k, 'z) rm_s"
  assumes run: "servlet_call E (ip_router E cf) call rq s = ((k, ro), s')"
    and handlers: "\<And>p fn s k r s'. (handler_type call, p, fn) \<in> set (registrations E cf) \<Longrightarrow>
      fn rq s = ((k, r), s') \<Longrightarrow> Q s r s'"
    and default: "\<And>path s k r s'. http_not_found path rq s = ((k, r), s') \<Longrightarrow> Q s r s'"
    and refusal: "\<And>s r s'. script_frame s s' \<Longrightarrow> rp_status r = 400 \<Longrightarrow> sound_reply r \<Longrightarrow> Q s r s'"
    and prefix: "\<And>s s1 r s'. script_frame s s1 \<Longrightarrow> Q s1 r s' \<Longrightarrow> Q s r s'"
  shows "case ro of None \<Rightarrow> script_frame s s' | Some r \<Rightarrow> Q s r s'"
proof -
  have dispatch: "case ro of None \<Rightarrow> script_frame t s' | Some r \<Rightarrow> Q t r s'"
    if d: "dispatch E (ip_router E cf) (handler_type call) rq t = ((k, ro), s')" and ok: "type_ok (handler_type call)" for t
  proof (cases "rq_path rq = None \<or> rq_path rq = Some []")
    case True
    then obtain k' where "write_reply bad_request t = ((k', the ro), s')" "ro \<noteq> None"
      using d ok by (auto simp: dispatch_def type_ok_def Let_def split: prod.splits)
    moreover from write_reply_outcome [OF this(1)] have "Q t (the ro) s'"
      by (intro refusal) (auto simp: bad_request_def sound_reply_def Let_def)
    ultimately show ?thesis by auto
  next
    case False
    then obtain path where path: "rq_path rq = Some path" "path \<noteq> []" by auto
    show ?thesis
    proof (cases "find_handler (ip_router E cf :: ('k, 'z) rm_s http_service) (handler_type call) (normal_path E path)")
      case None
      then show ?thesis
        using d default by (auto simp: dispatch_path [OF ok path] default_ip_router split: prod.splits)
    next
      case (Some fn)
      obtain p where "(handler_type call, p, fn) \<in> set (registrations E cf)" by (rule registered_handler [OF ok Some])
      then show ?thesis
        using d Some handlers by (auto simp: dispatch_path [OF ok path] split: prod.splits)
    qed
  qed
  show ?thesis
  proof (cases "\<exists>name. call = Do_other name")
    case True
    then obtain name where name: "call = Do_other name" by blast
    obtain x1 s1 where 1: "next_io s = (x1, s1)" by fastforce
    obtain x2 s2 where 2: "next_io s1 = (x2, s2)" by fastforce
    have "script_frame s s2"
      by (rule script_frame_trans [OF next_io_script_frame [OF 1] next_io_script_frame [OF 2]])
    moreover have "ro \<noteq> None \<and> s' = s2 \<and> rp_status (the ro) = 400 \<and> sound_reply (the ro)"
      using run 1 2 by (auto simp: servlet_call_def name servlet_other_def Let_def sound_reply_def)
    ultimately show ?thesis using refusal by auto
  next
    case False
    then have ok: "type_ok (handler_type call)" and run': "servlet_do E (ip_router E cf) (handler_type call) rq s = ((k, ro), s')"
      using run by (cases call; simp add: servlet_call_def type_ok_def)+
    obtain x s1 where io: "next_io s = (x, s1)" by fastforce
    note f = next_io_script_frame [OF io]
    consider "dispatch E (ip_router E cf) (handler_type call) rq s = ((k, ro), s')"
      | "dispatch E (ip_router E cf) (handler_type call) rq s1 = ((k, ro), s')" | "ro = None" "s' = s1"
      using run' io by (auto simp: servlet_do_def split: option.splits if_splits io.splits)
    then show ?thesis
    proof cases
      case 2
      then show ?thesis
        using dispatch [OF 2 ok] prefix [OF f] script_frame_trans [OF f] by (auto split: option.splits)
    qed (use dispatch ok f in auto)
  qed
qed

lemma servlet_call_honest:
  fixes s :: "('k, 'z) rm_s"
  assumes "servlet_call E (ip_router E cf) call rq s = ((k, ro), s')"
  shows "case ro of None \<Rightarrow> script_frame s s' | Some r \<Rightarrow> sound_reply r \<and> (client_error r \<longrightarrow> script_frame s s')"
proof (rule request_outcome [OF assms])
  fix p fn and s :: "('k, 'z) rm_s" and k r s'
  assume "(handler_type call, p, fn) \<in> set (registrations E cf)" "fn rq s = ((k, r), s')"
  then show "sound_reply r \<and> (client_error r \<longrightarrow> script_frame s s')"
    using registered_honest unfolding honest_def by blast
next
  fix path and s :: "('k, 'z) rm_s" and k r s'
  assume "http_not_found path rq s = ((k, r), s')"
  then show "sound_reply r \<and> (client_error r \<longrightarrow> script_frame s s')"
    using http_not_found_honest unfolding honest_def by blast
qed (use script_frame_trans in blast)+

lemma servlet_call_reads:
  fixes s :: "('k, 'z) rm_s"
  assumes "servlet_call E (ip_router E cf) call rq s = ((k, ro), s')" and "call \<notin> {Do_post, Do_delete}"
  shows "net_frame s s'"
proof -
  have other: "handler_type call \<noteq> http_handler_post \<and> handler_type call \<noteq> http_handler_delete"
    using assms(2) by (cases call) auto
  have "case ro of None \<Rightarrow> script_frame s s' | Some r \<Rightarrow> net_frame s s'"
  proof (rule request_outcome [OF assms(1)])
    fix p fn and s :: "('k, 'z) rm_s" and k r s'
    assume "(handler_type call, p, fn) \<in> set (registrations E cf)" "fn rq s = ((k, r), s')"
    then show "net_frame s s'" using registered_reads other unfolding only_reads_def by blast
  next
    fix path and s :: "('k, 'z) rm_s" and k r s'
    assume "http_not_found path rq s = ((k, r), s')"
    then show "net_frame s s'"
      by (auto simp: http_not_found_def Let_def dest!: write_reply_outcome intro: script_frame_net split: prod.splits)
  qed (use script_frame_net net_frame_trans in blast)+
  then show ?thesis using script_frame_net by (auto split: option.splits)
qed

end
