(* ===== verification/Websocket.thy ===== *)
theory Websocket
  imports Environment
begin

text \<open>
  The demonstration servlet of \<open>websocket.cpp\<close>: it echoes what it receives. Framing is the ACL
  library's. A frame is what \<open>get_frame_opcode\<close>, \<open>get_frame_payload_len\<close> and the calls of
  \<open>read_frame_data\<close> return; the frames that will arrive are a list, and the calls that send take the next
  outcome of the script. No service registers \<open>websocket_run\<close>.
\<close>

subsection \<open>Frames\<close>

abbreviation (input) FRAME_CONTINUATION :: nat where "FRAME_CONTINUATION \<equiv> 0"
abbreviation (input) FRAME_TEXT :: nat where "FRAME_TEXT \<equiv> 1"
abbreviation (input) FRAME_BINARY :: nat where "FRAME_BINARY \<equiv> 2"
abbreviation (input) FRAME_CLOSE :: nat where "FRAME_CLOSE \<equiv> 8"
abbreviation (input) FRAME_PING :: nat where "FRAME_PING \<equiv> 9"
abbreviation (input) FRAME_PONG :: nat where "FRAME_PONG \<equiv> 10"

text \<open>
  The data as \<open>read_frame_data\<close> hands it out, not empty and at most 4095 bytes at a time; \<open>fr_broken\<close> is
  whether the connection fails before the end of the payload.
\<close>

record frame =
  fr_opcode :: nat
  fr_length :: nat
  fr_data :: "string list"
  fr_broken :: bool

text \<open>
  What goes out: \<open>Head\<close> is the header (final, operation code, length of the payload, mask), sent with the
  first data; \<open>Data\<close> is the payload of one call.
\<close>

datatype sent = Head bool nat nat "u32 option" | Data string

subsection \<open>One frame\<close>

text \<open>\<open>send_frame_data\<close>; \<open>head\<close> is the header if it is still to be sent.\<close>

definition send_data ::
  "sent list \<Rightarrow> string \<Rightarrow> sent list \<Rightarrow> ('k, 'z) os_scheme \<Rightarrow> (bool \<times> sent list) \<times> ('k, 'z) os_scheme" where
  "send_data head d out s =
     (case next_io s of
        (Fault _, s1) \<Rightarrow> ((False, out), s1)
      | (Done, s1) \<Rightarrow> ((True, out @ head @ [Data d]), s1))"

text \<open>The loop of \<open>ws_ping\<close> over the pieces of the payload.\<close>

fun pong_loop ::
  "sent list \<Rightarrow> string list \<Rightarrow> bool \<Rightarrow> sent list \<Rightarrow> ('k, 'z) os_scheme
     \<Rightarrow> (bool \<times> sent list) \<times> ('k, 'z) os_scheme" where
  "pong_loop head [] broken out s = ((\<not> broken, out), s)"
| "pong_loop head (d # ds) broken out s =
     (case send_data head d out s of
        ((False, out1), s1) \<Rightarrow> ((False, out1), s1)
      | ((True, out1), s1) \<Rightarrow> pong_loop [] ds broken out1 s1)"

definition ws_ping ::
  "frame \<Rightarrow> sent list \<Rightarrow> ('k, 'z) os_scheme \<Rightarrow> (bool \<times> sent list) \<times> ('k, 'z) os_scheme" where
  "ws_ping f out s =
     (if fr_length f = 0
      then (case next_io s of
              (Fault _, s1) \<Rightarrow> ((False, out), s1)
            | (Done, s1) \<Rightarrow> ((True, out @ [Head True FRAME_PONG 0 None]), s1))
      else pong_loop [Head True FRAME_PONG (fr_length f) None] (fr_data f) (fr_broken f) out s)"

text \<open>The data of a pong is read and dropped.\<close>

definition ws_pong :: "frame \<Rightarrow> bool" where
  "ws_pong f \<longleftrightarrow> fr_length f = 0 \<or> \<not> fr_broken f"

definition ws_close :: "frame \<Rightarrow> bool" where
  "ws_close f \<longleftrightarrow> False"

text \<open>The payload of a message is collected and sent back as one final binary frame, masked with \<open>~0\<close>.\<close>

definition ws_msg ::
  "frame \<Rightarrow> sent list \<Rightarrow> ('k, 'z) os_scheme \<Rightarrow> (bool \<times> sent list) \<times> ('k, 'z) os_scheme" where
  "ws_msg f out s =
     (if fr_broken f then ((False, out), s)
      else
        let tbuf = concat (fr_data f) in
        send_data [Head True FRAME_BINARY (length tbuf) (Some (- 1))] tbuf out s)"

subsection \<open>The session\<close>

definition ws_frame ::
  "frame \<Rightarrow> sent list \<Rightarrow> ('k, 'z) os_scheme \<Rightarrow> (bool \<times> sent list) \<times> ('k, 'z) os_scheme" where
  "ws_frame f out s =
     (if fr_opcode f = FRAME_PING then ws_ping f out s
      else if fr_opcode f = FRAME_PONG then ((ws_pong f, out), s)
      else if fr_opcode f = FRAME_CLOSE then ((ws_close f, out), s)
      else if fr_opcode f = FRAME_TEXT \<or> fr_opcode f = FRAME_BINARY then ws_msg f out s
      else ((False, out), s))"

text \<open>\<open>websocket_run\<close>; when no frame is left \<open>read_frame_head\<close> fails. It always returns false.\<close>

fun websocket_run ::
  "frame list \<Rightarrow> sent list \<Rightarrow> ('k, 'z) os_scheme \<Rightarrow> (bool \<times> sent list) \<times> ('k, 'z) os_scheme" where
  "websocket_run [] out s = ((False, out), s)"
| "websocket_run (f # fs) out s =
     (case ws_frame f out s of
        ((False, out1), s1) \<Rightarrow> ((False, out1), s1)
      | ((True, out1), s1) \<Rightarrow> websocket_run fs out1 s1)"

subsection \<open>What a peer should see\<close>

text \<open>The answer to one frame, and whether the session goes on.\<close>

definition answer_to :: "frame \<Rightarrow> sent list" where
  "answer_to f =
     (if fr_opcode f = FRAME_PING
      then if fr_length f = 0 then [Head True FRAME_PONG 0 None]
           else case fr_data f of [] \<Rightarrow> [] | d # ds \<Rightarrow> Head True FRAME_PONG (fr_length f) None # map Data (d # ds)
      else if fr_opcode f = FRAME_TEXT \<or> fr_opcode f = FRAME_BINARY
      then [Head True FRAME_BINARY (length (concat (fr_data f))) (Some (- 1)), Data (concat (fr_data f))]
      else [])"

definition session_goes_on :: "frame \<Rightarrow> bool" where
  "session_goes_on f \<longleftrightarrow> fr_opcode f \<in> {FRAME_PING, FRAME_PONG, FRAME_TEXT, FRAME_BINARY}"

text \<open>A frame that arrives whole.\<close>

definition whole :: "frame \<Rightarrow> bool" where
  "whole f \<longleftrightarrow> \<not> fr_broken f \<and> length (concat (fr_data f)) = fr_length f"

lemma pong_loop_quiet:
  assumes "script s = []"
  shows "pong_loop [] ds False out s = ((True, out @ map Data ds), s)"
  using assms by (induction ds arbitrary: out) (simp_all add: send_data_def next_io_def)

lemma ws_frame_quiet:
  assumes "script s = []" and "whole f"
  shows "ws_frame f out s = ((session_goes_on f, out @ answer_to f), s)"
proof (cases "fr_opcode f = FRAME_PING")
  case True
  then show ?thesis
    using assms pong_loop_quiet [OF assms(1)]
    by (cases "fr_data f")
      (simp_all add: ws_frame_def ws_ping_def answer_to_def session_goes_on_def whole_def next_io_def send_data_def)
next
  case False
  then show ?thesis
    using assms
    by (auto simp: ws_frame_def ws_msg_def ws_pong_def ws_close_def answer_to_def session_goes_on_def whole_def
        next_io_def send_data_def Let_def)
qed

lemma websocket_run_quiet:
  assumes "script s = []" and "\<forall>f\<in>set fs. whole f"
  shows "websocket_run fs out s =
    ((False, out @ concat (map answer_to (takeWhile session_goes_on fs))), s)"
  using assms(2)
proof (induction fs arbitrary: out)
  case Nil
  then show ?case by simp
next
  case (Cons f fs)
  have "\<not> session_goes_on f \<Longrightarrow> answer_to f = []" by (auto simp: session_goes_on_def answer_to_def)
  then show ?case
    using Cons ws_frame_quiet [OF assms(1), of f out] by (cases "session_goes_on f") simp_all
qed

text \<open>
  With failures the output is still an initial part of what is due, and the session ends with the first
  frame that is not answered in full.
\<close>

lemma pong_loop_prefix:
  assumes "pong_loop head ds broken out s = ((k, out'), s')"
  shows "\<exists>n. out' = out @ take n (if ds = [] then [] else head @ map Data ds)"
    and "k \<Longrightarrow> out' = out @ (if ds = [] then [] else head @ map Data ds)"
proof -
  have "(\<exists>n. out' = out @ take n (if ds = [] then [] else head @ map Data ds)) \<and>
      (k \<longrightarrow> out' = out @ (if ds = [] then [] else head @ map Data ds))"
    using assms
  proof (induction ds arbitrary: head out s)
    case Nil
    then show ?case by simp
  next
    case (Cons d ds)
    show ?case
    proof (cases "fst (next_io s)")
      case (Fault e)
      then have "out' = out" "\<not> k" using Cons.prems by (auto simp: send_data_def split: prod.splits)
      then show ?thesis by (auto intro: exI [of _ 0])
    next
      case Done
      then have run: "pong_loop [] ds broken (out @ head @ [Data d]) (snd (next_io s)) = ((k, out'), s')"
        using Cons.prems by (auto simp: send_data_def split: prod.splits)
      obtain n where n: "out' = (out @ head @ [Data d]) @ take n (map Data ds)"
        using Cons.IH [OF run] by (auto split: if_splits)
      have "out' = out @ take (length head + 1 + n) (head @ map Data (d # ds))" using n by simp
      moreover have "k \<Longrightarrow> out' = out @ head @ map Data (d # ds)" using Cons.IH [OF run] by (simp split: if_splits)
      ultimately show ?thesis by (intro conjI exI [of _ "length head + 1 + n"]) simp_all
    qed
  qed
  then show "\<exists>n. out' = out @ take n (if ds = [] then [] else head @ map Data ds)"
    and "k \<Longrightarrow> out' = out @ (if ds = [] then [] else head @ map Data ds)" by blast+
qed

lemma send_data_prefix:
  assumes "send_data head d out s = ((k, out'), s')"
  shows "\<exists>n. out' = out @ take n (head @ [Data d])" and "k \<Longrightarrow> out' = out @ head @ [Data d]"
proof -
  have "out' = out \<and> \<not> k \<or> out' = out @ head @ [Data d]"
    using assms by (auto simp: send_data_def split: prod.splits io.splits)
  then show "\<exists>n. out' = out @ take n (head @ [Data d])" and "k \<Longrightarrow> out' = out @ head @ [Data d]"
    using exI [of "\<lambda>n. out' = out @ take n (head @ [Data d])" 0]
      exI [of "\<lambda>n. out' = out @ take n (head @ [Data d])" "length (head @ [Data d])"] by auto
qed

lemma ws_frame_prefix:
  assumes "ws_frame f out s = ((k, out'), s')"
  shows "\<exists>n. out' = out @ take n (answer_to f)" and "k \<Longrightarrow> session_goes_on f \<and> out' = out @ answer_to f"
proof -
  have "(\<exists>n. out' = out @ take n (answer_to f)) \<and> (k \<longrightarrow> session_goes_on f \<and> out' = out @ answer_to f)"
  proof (cases "fr_opcode f = FRAME_PING")
    case ping: True
    then have run: "ws_ping f out s = ((k, out'), s')" using assms by (simp add: ws_frame_def)
    show ?thesis
    proof (cases "fr_length f = 0")
      case True
      then have "out' = out \<and> \<not> k \<or> out' = out @ [Head True FRAME_PONG 0 None]"
        using run by (auto simp: ws_ping_def split: prod.splits io.splits)
      moreover have "answer_to f = [Head True FRAME_PONG 0 None]" using ping True by (simp add: answer_to_def)
      ultimately show ?thesis
        using ping by (auto simp: session_goes_on_def intro: exI [of _ 0] exI [of _ 1])
    next
      case False
      have a: "answer_to f = (if fr_data f = [] then [] else [Head True FRAME_PONG (fr_length f) None] @ map Data (fr_data f))"
        using ping False by (simp add: answer_to_def split: list.split)
      have "pong_loop [Head True FRAME_PONG (fr_length f) None] (fr_data f) (fr_broken f) out s = ((k, out'), s')"
        using run False by (simp add: ws_ping_def)
      from pong_loop_prefix [OF this, folded a] show ?thesis using ping by (simp add: session_goes_on_def)
    qed
  next
    case noping: False
    show ?thesis
    proof (cases "fr_opcode f = FRAME_TEXT \<or> fr_opcode f = FRAME_BINARY")
      case msg: True
      let ?d = "concat (fr_data f)"
      have a: "answer_to f = [Head True FRAME_BINARY (length ?d) (Some (- 1))] @ [Data ?d]"
        using msg by (auto simp: answer_to_def)
      have run: "ws_msg f out s = ((k, out'), s')" using assms msg by (auto simp: ws_frame_def)
      show ?thesis
      proof (cases "fr_broken f")
        case True
        then have "out' = out" "\<not> k" using run by (auto simp: ws_msg_def)
        then show ?thesis by (auto intro: exI [of _ 0])
      next
        case False
        then have "send_data [Head True FRAME_BINARY (length ?d) (Some (- 1))] ?d out s = ((k, out'), s')"
          using run by (simp add: ws_msg_def Let_def)
        from send_data_prefix [OF this] show ?thesis using msg a by (auto simp: session_goes_on_def)
      qed
    next
      case False
      then have "answer_to f = []" using noping by (simp add: answer_to_def)
      moreover have "out' = out" "k \<Longrightarrow> fr_opcode f = FRAME_PONG"
        using assms False noping by (auto simp: ws_frame_def ws_close_def split: if_splits)
      ultimately show ?thesis by (simp add: session_goes_on_def)
    qed
  qed
  then show "\<exists>n. out' = out @ take n (answer_to f)" and "k \<Longrightarrow> session_goes_on f \<and> out' = out @ answer_to f"
    by blast+
qed

lemma websocket_run_prefix:
  "\<exists>n s'. websocket_run fs out s = ((False, out @ take n (concat (map answer_to (takeWhile session_goes_on fs)))), s')"
proof (induction fs arbitrary: out s)
  case Nil
  then show ?case by simp
next
  case (Cons f fs)
  obtain k out1 s1 where f: "ws_frame f out s = ((k, out1), s1)" by (metis prod.exhaust)
  show ?case
  proof (cases k)
    case True
    then have t: "session_goes_on f" "out1 = out @ answer_to f" using ws_frame_prefix(2) [OF f] by simp_all
    obtain n s' where "websocket_run fs out1 s1 =
        ((False, out1 @ take n (concat (map answer_to (takeWhile session_goes_on fs)))), s')" using Cons.IH by blast
    then show ?thesis using f True t by (auto intro: exI [of _ "length (answer_to f) + n"])
  next
    case False
    obtain n where n: "out1 = out @ take n (answer_to f)" using ws_frame_prefix(1) [OF f] by blast
    have "\<not> session_goes_on f \<Longrightarrow> answer_to f = []" by (auto simp: session_goes_on_def answer_to_def)
    then have "out1 = out @ take (min n (length (answer_to f))) (concat (map answer_to (takeWhile session_goes_on (f # fs))))"
      using n by (cases "session_goes_on f") (simp_all add: min_def)
    then show ?thesis using f False by (intro exI [of _ "min n (length (answer_to f))"] exI [of _ s1]) simp
  qed
qed

end
