(* ===== verification/Master_Properties.thy ===== *)
theory Master_Properties
  imports Master_Effects Service_Replies Websocket Route_Properties
begin

text \<open>
  The properties of the process of \<open>ip-router\<close>, of its connections and of its replies.
\<close>

subsection \<open>Replies\<close>

text \<open>
  C22: every reply \<open>ip-router\<close> writes, to whatever request in whatever state, is well typed: a document is a
  JSON object of the JSON type under one of seven statuses, whose member \<open>success\<close> is true exactly under
  200; a text has a positive status, and its length is the length it announces, if it announces one.
\<close>

theorem replies_are_sound:
  fixes s :: "('k, 'z) rm_s"
  assumes "servlet_call E (ip_router E cf) call rq s = ((k, Some r), s')"
  shows "case rp_body r of
      Json_body (JObject ms) \<Rightarrow> rp_type r = ''application/json; charset=utf-8'' \<and>
        rp_status r \<in> {200, 207, 400, 404, 500, 502, 503} \<and> map_of ms ''success'' = Some (JBool (rp_status r = 200))
    | Json_body _ \<Rightarrow> False
    | Text_body t \<Rightarrow> rp_status r > 0 \<and> rp_length r \<in> {None, Some (int (length t))}"
  using servlet_call_honest [OF assms]
  by (auto simp: sound_reply_def known_statuses_def split: body.split json.split)

definition demo_health :: http_request where
  "demo_health = \<lparr>rq_path = Some ''/health'', rq_keep_alive = True, rq_expect = None, rq_parameters = []\<rparr>"

lemma demo_health_run:
  obtains k r s' where "servlet_call demo_env (ip_router demo_env demo_config) Do_get demo_health demo_state = ((k, Some r), s')"
    and "rp_status r = 200" and "k"
proof -
  let ?x = "servlet_call demo_env (ip_router demo_env demo_config) Do_get demo_health demo_state"
  have "(case fst ?x of (k, Some r) \<Rightarrow> k \<and> rp_status r = 200 | _ \<Rightarrow> False)" by code_simp
  then show thesis using that by (cases ?x) (auto split: option.splits)
qed

theorem replies_are_sound_witness:
  "\<exists>k r s'. servlet_call demo_env (ip_router demo_env demo_config) Do_get demo_health demo_state = ((k, Some r), s') \<and>
     (\<forall>ms. rp_body r = Json_body (JObject ms) \<longrightarrow> map_of ms ''success'' = Some (JBool True))"
proof -
  obtain k r s' where run: "servlet_call demo_env (ip_router demo_env demo_config) Do_get demo_health demo_state = ((k, Some r), s')"
    and st: "rp_status r = 200" by (rule demo_health_run)
  have "\<forall>ms. rp_body r = Json_body (JObject ms) \<longrightarrow> map_of ms ''success'' = Some (JBool True)"
    using replies_are_sound [OF run] st by auto
  then show ?thesis using run by blast
qed

text \<open>
  C23: requests that must not change anything do not. When a request is refused with a 4xx status, or gets no
  reply, the whole state is as before, up to the outcomes its writing consumed: no route, no setting, no
  file, nothing in the kernel. And whatever its status, a request that is neither \<open>POST\<close> nor \<open>DELETE\<close> leaves
  the routes, the settings, the files and the descriptors alone; it can only send the kernel a query.
\<close>

theorem harmless_requests:
  fixes s :: "('k, 'z) rm_s"
  assumes "servlet_call E (ip_router E cf) call rq s = ((k, ro), s')"
  shows "((case ro of None \<Rightarrow> True | Some r \<Rightarrow> 400 \<le> rp_status r \<and> rp_status r < 500) \<longrightarrow>
      s' = s\<lparr>script := script s'\<rparr>) \<and>
    (call \<noteq> Do_post \<and> call \<noteq> Do_delete \<longrightarrow>
      s' = s\<lparr>script := script s', kernel := kernel s', route_sequence := route_sequence s'\<rparr>)"
  using servlet_call_honest [OF assms] servlet_call_reads [OF assms]
  by (auto simp: client_error_def script_frame_def net_frame_def split: option.splits)

definition demo_bad_ttl :: http_request where
  "demo_bad_ttl = demo_request_add\<lparr>rq_parameters := (''ttl'', ''soon'') # rq_parameters demo_request_add\<rparr>"

theorem harmless_requests_witness:
  "installed_routes (snd (servlet_call demo_env (ip_router demo_env demo_config) Do_post demo_bad_ttl demo_state)) = [] \<and>
   files (snd (servlet_call demo_env (ip_router demo_env demo_config) Do_get demo_health demo_state)) = files demo_state"
proof -
  let ?x = "servlet_call demo_env (ip_router demo_env demo_config) Do_post demo_bad_ttl demo_state"
  let ?y = "servlet_call demo_env (ip_router demo_env demo_config) Do_get demo_health demo_state"
  have "case snd (fst ?x) of None \<Rightarrow> True | Some r \<Rightarrow> 400 \<le> rp_status r \<and> rp_status r < 500" by code_simp
  moreover have "?x = ((fst (fst ?x), snd (fst ?x)), snd ?x)" by simp
  ultimately have x: "snd ?x = demo_state\<lparr>script := script (snd ?x)\<rparr>"
    using harmless_requests [of demo_env demo_config Do_post demo_bad_ttl demo_state "fst (fst ?x)" "snd (fst ?x)" "snd ?x"]
    by blast
  have "?y = ((fst (fst ?y), snd (fst ?y)), snd ?y)" by simp
  from harmless_requests [OF this] have y: "snd ?y = demo_state\<lparr>script := script (snd ?y),
      kernel := kernel (snd ?y), route_sequence := route_sequence (snd ?y)\<rparr>" by blast
  have "installed_routes (snd ?x) = installed_routes demo_state" by (subst x) simp
  moreover have "files (snd ?y) = files demo_state" by (subst y) simp
  ultimately show ?thesis by (simp add: demo_state_def)
qed

subsection \<open>Connections\<close>


text \<open>
  C20: a connection cannot hurt the service. Whatever its requests are and wherever calls fail, the table and
  the settings stay well formed; the replies answer an initial part of the requests in order, and the
  requests behind that part have no effect: the outcome is the same without them.
\<close>

theorem connection_is_safe:
  assumes "env_ok E" and "service_inv E s" and "on_accept E (ip_router E cf) conf hooked qs s = (rs, s')"
  shows "service_inv E s' \<and> length rs \<le> length qs \<and>
    on_accept E (ip_router E cf) conf hooked (take (length rs) qs) s = (rs, s')"
  using on_accept_keeps [OF assms] on_accept_prefix [OF assms(3)] by blast

definition demo_session :: "(http_call \<times> http_request) list" where
  "demo_session = [(Do_post, demo_request_add), (Do_other ''LOCK'', demo_health), (Do_get, demo_health)]"

theorem connection_is_safe_witness:
  "service_inv demo_env (snd (on_accept demo_env (ip_router demo_env demo_config) None False demo_session demo_state)) \<and>
   length (fst (on_accept demo_env (ip_router demo_env demo_config) None False demo_session demo_state)) = 2"
proof -
  have "length (fst (on_accept demo_env (ip_router demo_env demo_config) None False demo_session demo_state)) = 2"
    by code_simp
  then show ?thesis using connection_is_safe [OF demo_env_ok demo_service_inv surjective_pairing] by blast
qed

subsection \<open>The life of the process\<close>






end
