(* ===== verification/Route_Kernel.thy ===== *)
theory Route_Kernel
  imports Route_Worker
begin

text \<open>
  The route table of the process against the table of the kernel. \<open>host_table\<close> is what the manager
  relies on when it calls \<open>add_system_route\<close> and \<open>delete_system_route\<close>; \<open>bsd_kernel\<close> and
  \<open>linux_kernel\<close> are the documented behaviour of the two routing sockets, and the code of the two
  branches provides the contract on top of them. A failed call may have taken effect (the Linux
  acknowledgement can be lost, a \<open>PF_ROUTE\<close> write can be short), so the contract says nothing about the
  destination of a failed call.
\<close>

subsection \<open>Agreement\<close>

text \<open>\<open>routed k d g\<close>: the kernel sends \<open>d\<close> through \<open>g\<close>. Entries for which \<open>A\<close> holds are exempt.\<close>

definition agrees_unless ::
  "(string \<Rightarrow> route_metadata \<Rightarrow> bool) \<Rightarrow> ('k \<Rightarrow> string \<Rightarrow> string \<Rightarrow> bool) \<Rightarrow> 'k \<Rightarrow> routes \<Rightarrow> bool" where
  "agrees_unless A routed k m \<longleftrightarrow>
     (\<forall>key d md. find_route m key d = Some md \<longrightarrow> \<not> A d md \<longrightarrow> routed k d (md_gateway md))"

abbreviation agrees :: "('k \<Rightarrow> string \<Rightarrow> string \<Rightarrow> bool) \<Rightarrow> 'k \<Rightarrow> routes \<Rightarrow> bool" where
  "agrees \<equiv> agrees_unless (\<lambda>d md. False)"

lemma agrees_unless_mono:
  "agrees_unless A routed k m \<Longrightarrow> (\<And>d md. A d md \<Longrightarrow> B d md) \<Longrightarrow> agrees_unless B routed k m"
  unfolding agrees_unless_def by blast

lemma agreesD: "agrees routed k m \<Longrightarrow> find_route m key d = Some md \<Longrightarrow> routed k d (md_gateway md)"
  unfolding agrees_unless_def by blast

subsection \<open>The contract\<close>

locale host_table =
  fixes routed :: "'k \<Rightarrow> string \<Rightarrow> string \<Rightarrow> bool"
    and add del :: "string \<Rightarrow> string \<Rightarrow> 'k rm \<Rightarrow> (string, unit, 'k rm) result"
  assumes add_done: "add d g s = (Inr u, s') \<Longrightarrow> routed (kernel s') d g"
    and add_other: "add d g s = (r, s') \<Longrightarrow> d' \<noteq> d \<Longrightarrow> routed (kernel s') d' g' = routed (kernel s) d' g'"
    and del_done: "del d g s = (Inr u, s') \<Longrightarrow> \<not> routed (kernel s') d g'"
    and del_other: "del d g s = (r, s') \<Longrightarrow> d' \<noteq> d \<Longrightarrow> routed (kernel s') d' g' = routed (kernel s) d' g'"
begin

lemma add_keeps:
  assumes "add d g s = (r, s')" and "agrees_unless A routed (kernel s) m"
  shows "agrees_unless (\<lambda>d' md. d' = d \<or> A d' md) routed (kernel s') m"
  using assms(2) add_other [OF assms(1)] unfolding agrees_unless_def by blast

lemma del_keeps:
  assumes "del d g s = (r, s')" and "agrees_unless A routed (kernel s) m"
  shows "agrees_unless (\<lambda>d' md. d' = d \<or> A d' md) routed (kernel s') m"
  using assms(2) del_other [OF assms(1)] unfolding agrees_unless_def by blast

lemma add_unreferenced:
  assumes "add d g s = (r, s')" and "agrees routed (kernel s) m" and "\<not> referenced m d"
  shows "agrees routed (kernel s') m"
  using add_keeps [OF assms(1,2)] assms(3) unfolding agrees_unless_def referenced_def by fastforce

lemma add_recorded:
  assumes "add d g s = (Inr u, s')" and "agrees routed (kernel s) m" and "\<not> referenced m d"
    and "md_gateway md = g"
  shows "agrees routed (kernel s') (put_route lt key d md m)"
  using add_unreferenced [OF assms(1,2,3)] add_done [OF assms(1)] assms(4)
  unfolding agrees_unless_def find_route_put by simp

end

text \<open>The manager's own calls; listing the routes changes none.\<close>

locale routed_system = host_table routed "add_system_route E" "delete_system_route E"
  for routed :: "'k \<Rightarrow> string \<Rightarrow> string \<Rightarrow> bool" and E :: "'k env" +
  assumes list_same: "list_system_routes E s = (l, s') \<Longrightarrow> routed (kernel s') d g = routed (kernel (s :: 'k rm)) d g"

lemma save_routes_kernel: "save_routes_locked E s = (r, s') \<Longrightarrow> kernel s' = kernel s"
  by (auto dest!: save_routes_frame)

lemma store_route_kernel: "store_route E k d md s = (r, s') \<Longrightarrow> kernel s' = kernel s"
  by (auto simp: store_route_def split: prod.splits sum.splits dest!: save_routes_kernel)

definition group_agrees :: "('k \<Rightarrow> string \<Rightarrow> string \<Rightarrow> bool) \<Rightarrow> int \<Rightarrow> 'k \<Rightarrow> key_routes \<Rightarrow> bool" where
  "group_agrees routed now k g \<longleftrightarrow> (\<forall>(d, md)\<in>set g. md_last_attempt md \<noteq> now \<longrightarrow> routed k d (md_gateway md))"

lemma remove_system_listing:
  "remove_system E d g s = (r, s') \<Longrightarrow> list_system_routes E s = (l, t) \<Longrightarrow>
     s' = t \<or> delete_everywhere E d g t = (r, s')"
  by (cases l) (simp_all add: remove_system_def split: if_splits)

fun removes :: "request \<Rightarrow> string \<Rightarrow> string \<Rightarrow> bool" where
  "removes (Remove_route k d g) d' g' \<longleftrightarrow> d' = d \<and> g' = g"
| "removes (Remove_system d g) d' g' \<longleftrightarrow> d' = d \<and> g' = g"
| "removes q d' g' \<longleftrightarrow> False"

context routed_system
begin

lemma add_new_agrees:
  fixes s s' :: "'k rm"
  assumes "add_new_route E d g k md s = (r, s')" and "agrees routed (kernel s) (installed_routes s)"
    and "\<not> referenced (installed_routes s) d" and "md_gateway md = g"
  shows "agrees routed (kernel s') (installed_routes s')"
proof -
  obtain x s1 where store: "store_route E k d md s = (x, s1)" by fastforce
  note k1 = store_route_kernel [OF store] and e = add_new_route_effect [OF assms(1)]
  show ?thesis
  proof (cases x)
    case (Inl err)
    then have "r = Inl err" "s' = s1" using assms(1) store by (simp_all add: add_new_route_def)
    then show ?thesis using e(2) k1 assms(2) by simp
  next
    case (Inr u)
    obtain y s2 where add: "add_system_route E d g s1 = (y, s2)" by fastforce
    have a1: "agrees routed (kernel s1) (installed_routes s)" using assms(2) k1 by simp
    show ?thesis
    proof (cases y)
      case (Inr v)
      then have "r = Inr ()" "s' = s2" using assms(1) store add \<open>x = Inr u\<close> by (simp_all add: add_new_route_def)
      then show ?thesis using e(2) add_recorded [OF add [unfolded Inr] a1 assms(3,4)] by simp
    next
      case (Inl err)
      obtain z s3 where save: "save_routes_locked E (s2\<lparr>installed_routes := installed_routes s\<rparr>) = (z, s3)" by fastforce
      then have "r = Inl err" "s' = s3" using assms(1) store add \<open>x = Inr u\<close> Inl by (simp_all add: add_new_route_def)
      then show ?thesis using e(2) save_routes_kernel [OF save] add_unreferenced [OF add a1 assms(3)] by simp
    qed
  qed
qed

lemma store_agrees:
  fixes s s' :: "'k rm"
  assumes "store_route E k d md s = (r, s')" and "agrees routed (kernel s) (installed_routes s)"
    and "find_route (installed_routes s) k' d = Some md'" and "md_gateway md' = md_gateway md"
  shows "agrees routed (kernel s') (installed_routes s')"
  using store_route_effect(2) [OF assms(1)] store_route_kernel [OF assms(1)] assms(2) agreesD [OF assms(2,3)] assms(4)
  unfolding agrees_unless_def by (simp add: find_route_put)

lemma add_route_agrees:
  fixes s s' :: "'k rm"
  assumes "add_route E d g k ttl s = (r, s')" and "table_ok (installed_routes s)"
    and "agrees routed (kernel s) (installed_routes s)"
  shows "agrees routed (kernel s') (installed_routes s')"
  using assms(2,1)
proof (cases rule: add_route_cases)
  case (refused e)
  then show ?thesis using assms(3) by simp
next
  case (shared k' md)
  then show ?thesis using store_agrees [OF shared(1) assms(3) shared(3)] by (simp add: add_metadata_def)
next
  case created
  show ?thesis by (rule add_new_agrees [OF created(1) assms(3) created(3)]) (simp add: add_metadata_def)
qed

text \<open>A deletion: every other destination is as before, and a success leaves no route to this one.\<close>

lemma delete_agrees:
  fixes s s' :: "'k rm"
  assumes "delete_everywhere E d g s = (r, s')" and "agrees routed (kernel s) (installed_routes s)"
  shows "agrees_unless (\<lambda>d' md. d' = d) routed (kernel s') (installed_routes s)"
    and "succeeds r \<Longrightarrow> \<not> routed (kernel s') d g'"
proof -
  obtain x s1 where del: "delete_system_route E d g s = (x, s1)" by fastforce
  have a1: "agrees_unless (\<lambda>d' md. d' = d) routed (kernel s1) (installed_routes s)"
    using del_keeps [OF del assms(2)] by simp
  obtain y s2 where save: "save_routes_locked E (s1\<lparr>installed_routes := purge_route d g (installed_routes s)\<rparr>) = (y, s2)"
    by fastforce
  have k2: "kernel s2 = kernel s1" using save_routes_kernel [OF save] by simp
  obtain z s3 where undo: "add_system_route E d g (s2\<lparr>installed_routes := installed_routes s\<rparr>) = (z, s3)" by fastforce
  have a3: "agrees_unless (\<lambda>d' md. d' = d) routed (kernel s3) (installed_routes s)"
    using add_keeps [OF undo, of "\<lambda>d' md. d' = d"] a1 k2 by simp
  have "agrees_unless (\<lambda>d' md. d' = d) routed (kernel s') (installed_routes s) \<and>
      (succeeds r \<longrightarrow> (\<forall>g'. \<not> routed (kernel s') d g'))"
  proof (cases x)
    case (Inl e)
    then show ?thesis using assms(1) del a1 by (auto simp: delete_everywhere_def)
  next
    case (Inr u)
    show ?thesis
    proof (cases y)
      case (Inl e)
      then show ?thesis using assms(1) del save undo a3 \<open>x = Inr u\<close> by (auto simp: delete_everywhere_def)
    next
      case ok: (Inr v)
      then show ?thesis
        using assms(1) del save a1 k2 Inr del_done [OF del [unfolded Inr]] by (auto simp: delete_everywhere_def)
    qed
  qed
  then show "agrees_unless (\<lambda>d' md. d' = d) routed (kernel s') (installed_routes s)"
    and "succeeds r \<Longrightarrow> \<not> routed (kernel s') d g'" by blast+
qed

text \<open>
  What a removal of \<open>d\<close> through \<open>g\<close> leaves: the other destinations agree, and an entry for \<open>d\<close> is left
  only by a removal that changed no memory, or under another gateway.
\<close>

lemma delete_leaves:
  fixes s s' :: "'k rm"
  assumes "delete_everywhere E d g s = (r, s')" and "agrees routed (kernel s) (installed_routes s)"
    and "table_ok (installed_routes s)" and "find_route (installed_routes s') k d' = Some md"
  shows "routed (kernel s') d' (md_gateway md) \<or>
    (d' = d \<and> (md_gateway md \<noteq> g \<or> installed_routes s' = installed_routes s))"
proof -
  have ok: "map_ok (installed_routes s)" using assms(3) by (simp add: table_ok_def)
  have old: "find_route (installed_routes s) k d' = Some md \<and>
      (d' = d \<longrightarrow> md_gateway md \<noteq> g \<or> installed_routes s' = installed_routes s)"
    using assms(4) delete_everywhere_effect(2) [OF assms(1)] find_route_purge [OF ok, of d g k d']
    by (auto split: if_splits option.splits)
  then show ?thesis using delete_agrees(1) [OF assms(1,2)] unfolding agrees_unless_def by blast
qed

text \<open>The destination a request removes, with the gateway.\<close>

lemma serve_leaves:
  fixes s s' :: "'k rm"
  assumes "serve E q s = s'" and "agrees routed (kernel s) (installed_routes s)"
    and "table_ok (installed_routes s)" and "find_route (installed_routes s') k d = Some md"
  shows "routed (kernel s') d (md_gateway md) \<or>
    (\<exists>g. removes q d g \<and> (md_gateway md \<noteq> g \<or> installed_routes s' = installed_routes s))"
proof (cases q)
  case (Add_route d1 g1 k1 ttl)
  obtain r where r: "add_route E d1 g1 k1 ttl s = (r, s')" using assms(1) Add_route by (metis serve.simps(1) prod.collapse)
  show ?thesis using agreesD [OF add_route_agrees [OF r assms(3,2)] assms(4)] ..
next
  case (Remove_route k1 d1 g1)
  obtain r where r: "remove_route E k1 d1 g1 s = (r, s')" using assms(1) Remove_route by (metis serve.simps(2) prod.collapse)
  then show ?thesis
  proof (cases rule: remove_route_cases)
    case (refused e)
    then show ?thesis using agreesD [OF assms(2)] assms(4) by simp
  next
    case (found md1)
    then show ?thesis using delete_leaves [OF found(1) assms(2,3,4)] Remove_route by auto
  qed
next
  case (Remove_system d1 g1)
  obtain r where r: "remove_system E d1 g1 s = (r, s')" using assms(1) Remove_system by (metis serve.simps(3) prod.collapse)
  obtain l t where l: "list_system_routes E s = (l, t)" by fastforce
  have m: "installed_routes t = installed_routes s" using list_system_routes_frame [OF l] by auto
  have a: "agrees routed (kernel t) (installed_routes t)"
    using assms(2) list_same [OF l] m unfolding agrees_unless_def by simp
  from remove_system_listing [OF r l] show ?thesis
  proof
    assume "s' = t"
    then show ?thesis using agreesD [OF a] assms(4) by simp
  next
    assume "delete_everywhere E d1 g1 t = (r, s')"
    from delete_leaves [OF this a _ assms(4)] show ?thesis using assms(3) m Remove_system by auto
  qed
next
  case (Set_global g1 f1)
  obtain r where "set_global_route E g1 f1 s = (r, s')" using assms(1) Set_global by (metis serve.simps(4) prod.collapse)
  from set_global_effect [OF this] show ?thesis using agreesD [OF assms(2)] assms(4) by simp
next
  case List_system
  obtain r where r: "list_system_routes E s = (r, s')"
    using assms(1) List_system by (metis serve.simps(5) list_system_def prod.collapse)
  have m: "installed_routes s' = installed_routes s" using list_system_routes_frame [OF r] by auto
  show ?thesis using list_same [OF r] agreesD [OF assms(2)] assms(4) m by simp
qed

subsection \<open>Expiry\<close>

text \<open>A turn deletes only destinations no other key holds.\<close>

lemma sweep_targets_other:
  fixes s s' :: "'k rm"
  assumes "sweep_targets E now others g s = ((g', ch), s')" and "d \<notin> fst ` set g \<or> referenced_in others d"
  shows "routed (kernel s') d gw = routed (kernel s) d gw"
  using assms
proof (induction g arbitrary: g' ch s)
  case Nil
  then show ?case by simp
next
  case (Cons p g)
  obtain d1 md where p: "p = (d1, md)" by (cases p)
  have rest: "d \<notin> fst ` set g \<or> referenced_in others d" using Cons.prems(2) by auto
  show ?case
  proof (cases "not_due now md \<or> referenced_in others d1")
    case True
    then obtain g1 c where "sweep_targets E now others g s = ((g1, c), s')"
      using Cons.prems(1) p by (auto split: prod.splits if_splits)
    from Cons.IH [OF this rest] show ?thesis .
  next
    case False
    obtain x s1 where del: "delete_system_route E d1 (md_gateway md) s = (x, s1)" by fastforce
    have "d \<noteq> d1" using Cons.prems(2) False p by auto
    obtain g1 c where "sweep_targets E now others g s1 = ((g1, c), s')"
      using Cons.prems(1) p False del by (cases x) (auto split: prod.splits)
    from Cons.IH [OF this rest] del_other [OF del \<open>d \<noteq> d1\<close>] show ?thesis by simp
  qed
qed

lemma sweep_targets_agrees:
  fixes s s' :: "'k rm"
  assumes "sweep_targets E now others g s = ((g', ch), s')" and "group_agrees routed now (kernel s) g" and "map_ok g"
  shows "group_agrees routed now (kernel s') g'"
  using assms
proof (induction g arbitrary: g' ch s)
  case Nil
  then show ?case by (simp add: group_agrees_def)
next
  case (Cons p g)
  obtain d1 md where p: "p = (d1, md)" by (cases p)
  have rest: "group_agrees routed now (kernel s) g" "map_ok g" "d1 \<notin> fst ` set g"
    using Cons.prems(2,3) p by (auto simp: group_agrees_def map_ok_Cons)
  show ?case
  proof (cases "not_due now md \<or> referenced_in others d1")
    case True
    then obtain g1 c where g1: "sweep_targets E now others g s = ((g1, c), s')" "g' = g1 \<or> g' = (d1, md) # g1"
      using Cons.prems(1) p by (auto split: prod.splits if_splits)
    have "routed (kernel s') d1 (md_gateway md) = routed (kernel s) d1 (md_gateway md)"
      by (rule sweep_targets_other [OF g1(1)]) (simp add: rest(3))
    with Cons.IH [OF g1(1) rest(1,2)] g1(2) Cons.prems(2) p show ?thesis by (auto simp: group_agrees_def)
  next
    case False
    obtain x s1 where del: "delete_system_route E d1 (md_gateway md) s = (x, s1)" by fastforce
    obtain g1 c where g1: "sweep_targets E now others g s1 = ((g1, c), s')"
        "g' = g1 \<or> g' = (d1, md\<lparr>md_last_attempt := now\<rparr>) # g1"
      using Cons.prems(1) p False del by (cases x) (auto split: prod.splits)
    have "group_agrees routed now (kernel s1) g"
      unfolding group_agrees_def
    proof (clarify)
      fix d md' assume e: "(d, md') \<in> set g" "md_last_attempt md' \<noteq> now"
      have "d \<noteq> d1" using e(1) rest(3) by force
      then show "routed (kernel s1) d (md_gateway md')"
        using del_other [OF del] e rest(1) unfolding group_agrees_def by blast
    qed
    from Cons.IH [OF g1(1) this rest(2)] g1(2) show ?thesis by (auto simp: group_agrees_def)
  qed
qed

text \<open>The groups that are not being swept keep what they had.\<close>

lemma sweep_targets_others:
  fixes s s' :: "'k rm"
  assumes "sweep_targets E now others g s = ((g', ch), s')" and "(k, g1) \<in> set others" and "map_ok g1"
    and "group_agrees routed now (kernel s) g1"
  shows "group_agrees routed now (kernel s') g1"
proof -
  have "referenced_in others d" if "(d, md) \<in> set g1" for d md
    using that assms(2,3) map_find_iff [OF assms(3)] unfolding referenced_in_def by force
  then show ?thesis
    using assms(4) sweep_targets_other [OF assms(1)] unfolding group_agrees_def by blast
qed

lemma sweep_groups_agrees:
  fixes s s' :: "'k rm"
  assumes "sweep_groups E now sw m s = ((m', ch), s')"
    and "\<forall>p\<in>set (sw @ m). map_ok (snd p) \<and> group_agrees routed now (kernel s) (snd p)"
  shows "\<forall>p\<in>set m'. group_agrees routed now (kernel s') (snd p)"
  using assms
proof (induction m arbitrary: sw m' ch s)
  case Nil
  then show ?case by simp
next
  case (Cons p m)
  obtain k g where p: "p = (k, g)" by (cases p)
  obtain g' c s1 where t: "sweep_targets E now (sw @ m) g s = ((g', c), s1)" by (metis prod.exhaust)
  obtain c' where r: "sweep_groups E now (if g' = [] then sw else sw @ [(k, g')]) m s1 = ((m', c'), s')"
    using Cons.prems(1) p t by (auto split: prod.splits)
  have g: "map_ok g" "group_agrees routed now (kernel s) g" using Cons.prems(2) p by auto
  have "group_agrees routed now (kernel s1) g'" by (rule sweep_targets_agrees [OF t g(2,1)])
  moreover have "map_ok g'" using swept_map_ok sweep_targets_effect [OF t] g(1) by blast
  moreover have "\<forall>q\<in>set (sw @ m). map_ok (snd q) \<and> group_agrees routed now (kernel s1) (snd q)"
  proof
    fix q assume q: "q \<in> set (sw @ m)"
    then have "map_ok (snd q)" "group_agrees routed now (kernel s) (snd q)" using Cons.prems(2) by auto
    then show "map_ok (snd q) \<and> group_agrees routed now (kernel s1) (snd q)"
      using sweep_targets_others [OF t, of "fst q" "snd q"] q by simp
  qed
  ultimately show ?case using Cons.IH [OF r] by auto
qed

lemma agrees_groups:
  assumes "table_ok m"
  shows "agrees_unless (\<lambda>d md. md_last_attempt md = now) routed k m \<longleftrightarrow> (\<forall>p\<in>set m. group_agrees routed now k (snd p))"
proof -
  have "(key, d, md) \<in> set (entries m) \<longleftrightarrow> find_route m key d = Some md" for key d md
    using assms by (rule mem_entries_find)
  then show ?thesis unfolding agrees_unless_def group_agrees_def by (fastforce simp: mem_entries)
qed

lemma expire_once_parts:
  assumes "sweep_groups E (clock s) [] (installed_routes s) s = ((m, c), s1)"
  shows "installed_routes (expire_once E s) = m \<and> kernel (expire_once E s) = kernel s1"
proof (cases c)
  case True
  obtain r s2 where save: "save_routes_locked E (s1\<lparr>installed_routes := m\<rparr>) = (r, s2)" by fastforce
  show ?thesis
    using True assms save save_routes_effect(1) [OF save] save_routes_kernel [OF save] by (simp add: expire_once_def)
qed (simp add: expire_once_def assms)

lemma expire_once_agrees:
  fixes s :: "'k rm"
  assumes "agrees_unless (\<lambda>d md. md_last_attempt md = clock s) routed (kernel s) (installed_routes s)"
    and "table_ok (installed_routes s)"
  shows "agrees_unless (\<lambda>d md. md_last_attempt md = clock s) routed (kernel (expire_once E s))
    (installed_routes (expire_once E s))"
proof -
  obtain m c s1 where g: "sweep_groups E (clock s) [] (installed_routes s) s = ((m, c), s1)" by (metis prod.exhaust)
  note m = expire_once_parts [OF g]
  have "table_ok m" using swept_table_ok sweep_groups_effect [OF g] assms(2) by fastforce
  moreover have "\<forall>p\<in>set m. group_agrees routed (clock s) (kernel s1) (snd p)"
    by (rule sweep_groups_agrees [OF g]) (use assms agrees_groups [OF assms(2)] in \<open>auto simp: table_ok_def\<close>)
  ultimately show ?thesis using agrees_groups m by simp
qed

subsection \<open>Starting\<close>

text \<open>While the database is restored, the kernel has the active routes and the table uses only those.\<close>

lemma restore_one_active:
  fixes s s' :: "'k rm"
  assumes "restore_one E now r l s = (l', s')" and "saved_ok E r"
    and "\<forall>d g. map_find (rs_active l) d = Some g \<longrightarrow> routed (kernel s) d g"
    and "\<forall>i\<in>set (rs_expired l). nul \<notin> set i"
  shows "(\<forall>d g. map_find (rs_active l') d = Some g \<longrightarrow> routed (kernel s') d g) \<and>
    (\<forall>i\<in>set (rs_expired l'). nul \<notin> set i)"
proof -
  have c: "c_str (sv_ip r) = sv_ip r" "c_str (sv_gateway r) = sv_gateway r"
    and n: "nul \<notin> set (sv_ip r)" "nul \<notin> set (sv_gateway r)"
    using assms(2) by (auto simp: saved_ok_def plain_def c_str_id)
  show ?thesis
  proof (cases "is_expired now r")
    case True
    then show ?thesis using assms(1,3,4) n by (auto simp: restore_one_def)
  next
    case live: False
    show ?thesis
    proof (cases "map_find (rs_active l) (sv_ip r)")
      case (Some gw)
      then have "l' = l" "kernel s' = kernel s"
        using assms(1) live by (auto simp: restore_one_def install_saved_def split: if_splits)
      then show ?thesis using assms(3,4) by simp
    next
      case None
      obtain x s1 where x: "add_system_route E (sv_ip r) (sv_gateway r) s = (x, s1)" by fastforce
      have other: "routed (kernel s1) d g = routed (kernel s) d g" if "d \<noteq> sv_ip r" for d g
        using add_other [OF x that] .
      show ?thesis
      proof (cases x)
        case (Inl e)
        then have l': "rs_active l' = rs_active l" "rs_expired l' = rs_expired l" "s' = s1"
          using assms(1) live None x c by (auto simp: restore_one_def)
        have "d \<noteq> sv_ip r" if "map_find (rs_active l) d = Some g" for d g using that None by auto
        then show ?thesis unfolding l' using assms(3,4) other by blast
      next
        case (Inr u)
        then have l': "rs_active l' = map_put string_less (sv_ip r) (sv_gateway r) (rs_active l)"
            "rs_expired l' = rs_expired l" "kernel s' = kernel s1"
          using assms(1) live None x c by (auto simp: restore_one_def install_saved_def)
        show ?thesis
          unfolding l' using assms(3,4) other add_done [OF x [unfolded Inr]] by (simp add: map_find_put)
      qed
    qed
  qed
qed

lemma restore_routes_active:
  fixes s s' :: "'k rm"
  assumes "restore_routes E now rs l s = (l', s')" and "\<forall>r\<in>set rs. saved_ok E r"
    and "\<forall>d g. map_find (rs_active l) d = Some g \<longrightarrow> routed (kernel s) d g"
    and "\<forall>i\<in>set (rs_expired l). nul \<notin> set i"
  shows "(\<forall>d g. map_find (rs_active l') d = Some g \<longrightarrow> routed (kernel s') d g) \<and>
    (\<forall>i\<in>set (rs_expired l'). nul \<notin> set i)"
  using assms
proof (induction rs arbitrary: l s)
  case Nil
  then show ?case by simp
next
  case (Cons r rs)
  obtain l1 s1 where one: "restore_one E now r l s = (l1, s1)" by fastforce
  have "saved_ok E r" using Cons.prems(2) by simp
  note a = restore_one_active [OF one this Cons.prems(3,4)]
  show ?case
    by (rule Cons.IH [of l1 s1]) (use Cons.prems(1,2) one a in auto)
qed

lemma clean_expired_active:
  fixes s :: "'k rm"
  assumes "\<forall>i\<in>set ids. nul \<notin> set i" and "map_find active d = Some g"
  shows "routed (kernel (clean_expired E active ids s)) d g' = routed (kernel s) d g'"
  using assms(1)
proof (induction ids arbitrary: s)
  case Nil
  then show ?case by simp
next
  case (Cons i ids)
  define e where "e = takeWhile (\<lambda>c. c \<noteq> newline) i"
  have step: "clean_expired E active (i # ids) s =
      (if map_find active e \<noteq> None then clean_expired E active ids s
       else clean_expired E active ids (snd (delete_system_route E (c_str e) (c_str (drop (length e + 1) i)) s)))"
    by (simp add: Let_def flip: e_def)
  have n: "\<forall>i\<in>set ids. nul \<notin> set i" using Cons.prems by simp
  show ?case
  proof (cases "map_find active e")
    case (Some x)
    then show ?thesis using step Cons.IH [OF n] by simp
  next
    case None
    obtain x s1 where del: "delete_system_route E (c_str e) (c_str (drop (length e + 1) i)) s = (x, s1)" by fastforce
    have "nul \<notin> set e" using Cons.prems unfolding e_def by (auto dest: set_takeWhileD)
    then have "c_str e = e" by (rule c_str_id)
    then have "d \<noteq> c_str e" using assms(2) None by auto
    from del_other [OF del this] show ?thesis
      using step None Cons.IH [OF n, of s1] del by simp
  qed
qed

lemma load_routes_agrees:
  fixes s s' :: "'k rm"
  assumes "load_routes_locked E s = (r, s')" and "installed_routes s = []" and "strict_order (acl_less E)"
    and "nul_free (routes_file s) s"
  shows "agrees routed (kernel s') (installed_routes s')"
  using assms(1)
proof (cases rule: load_routes_cases)
  case unread
  then have "installed_routes s' = []" using assms(2) by auto
  then show ?thesis by (simp add: agrees_unless_def find_route_Nil)
next
  case (restored s1 ls s2 l s3 s4)
  have f1: "net_frame s s1" and m1: "files s1 = files s"
    using open_in_frame [OF restored(1)] by (auto simp: net_frame_def)
  have f2: "net_frame s1 s2" using read_lines_frame [OF restored(2)] by (auto simp: net_frame_def)
  have empty: "installed_routes s2 = []" using net_frame_trans [OF f1 f2] assms(2) by auto
  have "nul_free (routes_file s) s1" using assms(4) m1 by (simp add: nul_free_def file_at_def)
  then have ok: "\<forall>r\<in>set (parse_lines E True ls). saved_ok E r"
    using parse_lines_ok read_lines_clean [OF restored(2)] by blast
  have knows: "active_knows (rs_active l) (installed_routes s3)"
    using restore_routes_inv [OF restored(3) ok assms(3)] by (simp add: empty active_knows_def find_route_Nil)
  have act: "(\<forall>d g. map_find (rs_active l) d = Some g \<longrightarrow> routed (kernel s3) d g) \<and> (\<forall>i\<in>set (rs_expired l). nul \<notin> set i)"
    by (rule restore_routes_active [OF restored(3) ok]) (simp_all add: map_find_Nil)
  have m4: "installed_routes s4 = installed_routes s3"
    using clean_expired_frame [of s3 E "rs_active l" "rs_expired l"] restored(4) by auto
  have a4: "agrees routed (kernel s4) (installed_routes s4)"
    unfolding agrees_unless_def m4
  proof (intro allI impI)
    fix key d md assume "find_route (installed_routes s3) key d = Some md"
    then have d: "map_find (rs_active l) d = Some (md_gateway md)" using knows by (simp add: active_knows_def)
    then have "routed (kernel s3) d (md_gateway md)" using act by blast
    then show "routed (kernel s4) d (md_gateway md)"
      unfolding restored(4) using clean_expired_active [OF conjunct2 [OF act] d] by simp
  qed
  show ?thesis
  proof (cases "rs_failed l")
    case True
    then show ?thesis using restored(5) a4 by simp
  next
    case False
    then have save: "save_routes_locked E s4 = (r, s')" using restored(5) by simp
    show ?thesis using a4 save_routes_effect(1) [OF save] save_routes_kernel [OF save] by simp
  qed
qed

lemma start_agrees:
  fixes s :: "'k rm"
  assumes "\<not> worker_started s" and "strict_order (acl_less E)" and "nul_free (routes_file s) s"
  shows "agrees routed (kernel (start_routes E s)) (installed_routes (start_routes E s))"
proof -
  let ?s0 = "s\<lparr>worker_started := True, worker_stopping := False, installed_routes := [],
               global_gateway := [], force_global_gateway := False\<rparr>"
  obtain r1 s1 where g: "load_global_route_locked E ?s0 = (r1, s1)" by fastforce
  obtain r2 s2 where l: "load_routes_locked E s1 = (r2, s2)" by fastforce
  note e1 = load_global_effect [OF g]
  have "nul_free (routes_file s1) s1" using assms(3) e1(2,3) by (simp add: nul_free_def file_at_def)
  from load_routes_agrees [OF l _ assms(2) this] e1(1) show ?thesis
    using assms(1) g l by (simp add: start_routes_def)
qed

end

subsection \<open>What expiry drops\<close>

text \<open>A destination that a turn drops from the table is gone from the kernel as well.\<close>

lemma map_find_fst: "map_find g d \<noteq> None \<longleftrightarrow> d \<in> fst ` set g"
  by (simp add: map_find_eq map_of_eq_None_iff)

lemma referenced_in_iff: "referenced_in m d \<longleftrightarrow> (\<exists>p\<in>set m. d \<in> fst ` set (snd p))"
  unfolding referenced_in_def map_find_fst ..

context routed_system
begin

lemma sweep_targets_drops:
  fixes s s' :: "'k rm"
  assumes "sweep_targets E now others g s = ((g', ch), s')" and "map_ok g" and "\<not> referenced_in others d"
    and "d \<in> fst ` set g" and "d \<notin> fst ` set g'"
  shows "\<not> routed (kernel s') d gw"
  using assms(1,2,4,5)
proof (induction g arbitrary: g' ch s)
  case Nil
  then show ?case by simp
next
  case (Cons p g)
  obtain d1 md where p: "p = (d1, md)" by (cases p)
  have ok: "map_ok g" "d1 \<notin> fst ` set g" using Cons.prems(2) p by (auto simp: map_ok_Cons)
  show ?case
  proof (cases "not_due now md \<or> referenced_in others d1")
    case True
    then obtain g1 c where g1: "sweep_targets E now others g s = ((g1, c), s')"
        "g' = (d1, md) # g1 \<or> g' = g1 \<and> referenced_in others d1"
      using Cons.prems(1) p by (auto split: prod.splits if_splits)
    then have "d \<noteq> d1" "d \<notin> fst ` set g1" using Cons.prems(4) assms(3) by auto
    then show ?thesis using Cons.IH [OF g1(1) ok(1)] Cons.prems(3) p by auto
  next
    case False
    obtain x s1 where del: "delete_system_route E d1 (md_gateway md) s = (x, s1)" by fastforce
    obtain g1 c where g1: "sweep_targets E now others g s1 = ((g1, c), s')"
        "g' = g1 \<and> succeeds x \<or> g' = (d1, md\<lparr>md_last_attempt := now\<rparr>) # g1"
      using Cons.prems(1) p False del by (cases x) (auto split: prod.splits)
    show ?thesis
    proof (cases "d = d1")
      case True
      then have "succeeds x" using g1(2) Cons.prems(4) by auto
      then have "\<not> routed (kernel s1) d gw" using del_done del True by (metis sum.collapse(2))
      then show ?thesis using sweep_targets_other [OF g1(1), of d gw] ok(2) True by simp
    next
      case False
      then have "d \<in> fst ` set g" "d \<notin> fst ` set g1" using Cons.prems(3,4) g1(2) p by auto
      then show ?thesis using Cons.IH [OF g1(1) ok(1)] by simp
    qed
  qed
qed

lemma sweep_groups_other:
  fixes s s' :: "'k rm"
  assumes "sweep_groups E now sw m s = ((m', ch), s')" and "\<not> referenced_in m d"
  shows "routed (kernel s') d gw = routed (kernel s) d gw"
  using assms
proof (induction m arbitrary: sw m' ch s)
  case Nil
  then show ?case by simp
next
  case (Cons p m)
  obtain k g where p: "p = (k, g)" by (cases p)
  obtain g' c s1 where t: "sweep_targets E now (sw @ m) g s = ((g', c), s1)" by (metis prod.exhaust)
  obtain c' where r: "sweep_groups E now (if g' = [] then sw else sw @ [(k, g')]) m s1 = ((m', c'), s')"
    using Cons.prems(1) p t by (auto split: prod.splits)
  have "d \<notin> fst ` set g" "\<not> referenced_in m d" using Cons.prems(2) p by (auto simp: referenced_in_iff)
  then show ?case using Cons.IH [OF r] sweep_targets_other [OF t, of d gw] by simp
qed

lemma sweep_groups_drops:
  fixes s s' :: "'k rm"
  assumes "sweep_groups E now sw m s = ((m', ch), s')" and "\<forall>p\<in>set m. map_ok (snd p)"
    and "referenced_in m d" and "\<not> referenced_in m' d"
  shows "\<not> routed (kernel s') d gw"
  using assms
proof (induction m arbitrary: sw m' ch s)
  case Nil
  then show ?case by (simp add: referenced_in_def)
next
  case (Cons p m)
  obtain k g where p: "p = (k, g)" by (cases p)
  obtain g' c s1 where t: "sweep_targets E now (sw @ m) g s = ((g', c), s1)" by (metis prod.exhaust)
  obtain c' where r: "sweep_groups E now (if g' = [] then sw else sw @ [(k, g')]) m s1 = ((m', c'), s')"
    using Cons.prems(1) p t by (auto split: prod.splits)
  obtain m1 where "m' = (if g' = [] then sw else sw @ [(k, g')]) @ m1" using sweep_groups_effect [OF r] by blast
  then have gone: "\<not> referenced_in sw d" "d \<notin> fst ` set g'"
    using Cons.prems(4) by (auto simp: referenced_in_iff split: if_splits)
  show ?case
  proof (cases "referenced_in m d")
    case True
    then show ?thesis using Cons.IH [OF r] Cons.prems(2,4) by simp
  next
    case False
    then have "\<not> referenced_in (sw @ m) d" "d \<in> fst ` set g"
      using gone(1) Cons.prems(3) p by (auto simp: referenced_in_iff)
    then have "\<not> routed (kernel s1) d gw"
      using sweep_targets_drops [OF t _ _ _ gone(2)] Cons.prems(2) p by simp
    then show ?thesis using sweep_groups_other [OF r False] by simp
  qed
qed

end

lemma referenced_groups:
  assumes "table_ok m"
  shows "referenced_in m d \<longleftrightarrow> referenced m d"
proof -
  have "referenced_in m d \<longleftrightarrow> (\<exists>k md. (k, d, md) \<in> set (entries m))"
    unfolding referenced_in_iff mem_entries by (simp add: image_iff Bex_def split_paired_Ex) blast
  also have "\<dots> \<longleftrightarrow> referenced m d" by (simp add: mem_entries_find [OF assms] referenced_def)
  finally show ?thesis .
qed

context routed_system
begin

lemma expire_once_drops:
  fixes s :: "'k rm"
  assumes "table_ok (installed_routes s)" and "referenced (installed_routes s) d"
    and "\<not> referenced (installed_routes (expire_once E s)) d"
  shows "\<not> routed (kernel (expire_once E s)) d gw"
proof -
  obtain m c s1 where g: "sweep_groups E (clock s) [] (installed_routes s) s = ((m, c), s1)" by (metis prod.exhaust)
  have m: "installed_routes (expire_once E s) = m \<and> kernel (expire_once E s) = kernel s1"
    by (rule expire_once_parts [OF g])
  have "table_ok m" using swept_table_ok sweep_groups_effect [OF g] assms(1) by fastforce
  then show ?thesis
    using sweep_groups_drops [OF g, of d gw] assms referenced_groups m by (auto simp: table_ok_def)
qed

end

subsection \<open>What requests drop\<close>

context routed_system
begin

lemma delete_drops:
  fixes s s' :: "'k rm"
  assumes "delete_everywhere E d1 g1 s = (r, s')" and "agrees routed (kernel s) (installed_routes s)"
    and "table_ok (installed_routes s)" and "referenced (installed_routes s) d"
    and "\<not> referenced (installed_routes s') d"
  shows "\<not> routed (kernel s') d gw"
proof -
  have ok: "map_ok (installed_routes s)" using assms(3) by (simp add: table_ok_def)
  have "succeeds r" using delete_everywhere_effect(2) [OF assms(1)] assms(4,5) by auto
  moreover have "d = d1"
  proof (rule ccontr)
    assume "d \<noteq> d1"
    then have "find_route (installed_routes s') k d = find_route (installed_routes s) k d" for k
      using delete_everywhere_effect(2) [OF assms(1)] find_route_purge [OF ok, of d1 g1 k d]
      by (auto split: option.splits)
    then show False using assms(4,5) by (simp add: referenced_def)
  qed
  ultimately show ?thesis using delete_agrees(2) [OF assms(1,2)] by simp
qed

lemma serve_drops:
  fixes s s' :: "'k rm"
  assumes "serve E q s = s'" and "agrees routed (kernel s) (installed_routes s)"
    and "table_ok (installed_routes s)" and "referenced (installed_routes s) d"
    and "\<not> referenced (installed_routes s') d"
  shows "\<not> routed (kernel s') d gw"
proof (cases q)
  case (Add_route d1 g1 k1 ttl)
  obtain r where r: "add_route E d1 g1 k1 ttl s = (r, s')" using assms(1) Add_route by (metis serve.simps(1) prod.collapse)
  have "find_route (installed_routes s') k d \<noteq> None" if "find_route (installed_routes s) k d \<noteq> None" for k
    using that add_route_effect(2) [OF assms(3) r] by (auto simp: find_route_put)
  then show ?thesis using assms(4,5) unfolding referenced_def by blast
next
  case (Remove_route k1 d1 g1)
  obtain r where r: "remove_route E k1 d1 g1 s = (r, s')" using assms(1) Remove_route by (metis serve.simps(2) prod.collapse)
  then show ?thesis
  proof (cases rule: remove_route_cases)
    case (refused e)
    then show ?thesis using assms(4,5) by simp
  next
    case (found md)
    show ?thesis by (rule delete_drops [OF found(1) assms(2-5)])
  qed
next
  case (Remove_system d1 g1)
  obtain r where r: "remove_system E d1 g1 s = (r, s')" using assms(1) Remove_system by (metis serve.simps(3) prod.collapse)
  obtain l t where l: "list_system_routes E s = (l, t)" by fastforce
  have m: "installed_routes t = installed_routes s" using list_system_routes_frame [OF l] by auto
  have a: "agrees routed (kernel t) (installed_routes t)"
    using assms(2) list_same [OF l] m unfolding agrees_unless_def by simp
  from remove_system_listing [OF r l] show ?thesis
  proof
    assume "s' = t"
    then show ?thesis using assms(4,5) m by simp
  next
    assume "delete_everywhere E d1 g1 t = (r, s')"
    from delete_drops [OF this a] show ?thesis using assms(3-5) m by simp
  qed
next
  case (Set_global g1 f1)
  obtain r where "set_global_route E g1 f1 s = (r, s')" using assms(1) Set_global by (metis serve.simps(4) prod.collapse)
  from set_global_effect(1) [OF this] show ?thesis using assms(4,5) by simp
next
  case List_system
  obtain r where r: "list_system_routes E s = (r, s')"
    using assms(1) List_system by (metis serve.simps(5) list_system_def prod.collapse)
  have "installed_routes s' = installed_routes s" using list_system_routes_frame [OF r] by auto
  then show ?thesis using assms(4,5) by simp
qed

end

end
