(* ===== verification/Netlink_Messages.thy ===== *)
theory Netlink_Messages
  imports System_Routes
begin

text \<open>
  The bytes on the routing socket: the request \<open>change_route\<close> sends, read back with the parser of the
  dump, and the acknowledgement loop on datagrams that are sequences of messages.
\<close>

subsection \<open>The request\<close>

definition request_head :: "nat \<Rightarrow> u32 \<Rightarrow> nat \<Rightarrow> bytes" where
  "request_head command sequence len =
     put_le 4 len @ put_le 2 command
       @ put_le 2 (if command = RTM_NEWROUTE then 1 + 4 + 1024 + 256 else 1 + 4)
       @ put_le 4 (unat sequence) @ put_le 4 0
       @ [word_of_nat AF_INET, 32, 0, 0, word_of_nat RT_TABLE_MAIN, word_of_nat RTPROT_STATIC, 0,
          word_of_nat RTN_UNICAST, 0, 0, 0, 0]"

lemma length_request_head [simp]: "length (request_head c q n) = 28"
  by (simp add: request_head_def)

lemma le_value_put [simp]: "le_value (put_le n v) = v mod 256 ^ n"
  by (rule le_value_put_le)

lemma nlmsg_len_head: "nlmsg_len (request_head c q n @ xs) = n mod 2 ^ 32"
  by (simp add: nlmsg_len_def request_head_def)

lemma put_len_head: "put_bytes 0 (put_le 4 n') (request_head c q n @ xs) = request_head c q n' @ xs"
  by (simp add: put_bytes_def request_head_def)

lemma change_request_head: "change_request c q = request_head c q 28 @ replicate 128 0"
  by (simp add: change_request_def request_head_def)

lemma put_bytes_mid:
  "length a = off \<Longrightarrow> length b = length b' \<Longrightarrow> put_bytes off b' (a @ b @ c) = a @ b' @ c"
  by (simp add: put_bytes_def)

text \<open>An attribute goes into the zeroes after what is there already.\<close>

lemma add_attribute_head:
  assumes "length data = 4" and "28 + length xs = n" and "n mod 4 = 0" and "8 \<le> z" and "n + z = 156"
  shows "add_attribute (request_head c q n @ xs @ replicate z 0) REQUEST_SIZE ty data =
    Some (request_head c q (n + 8) @ (xs @ put_le 2 8 @ put_le 2 ty @ data) @ replicate (z - 8) 0)"
proof -
  let ?P = "request_head c q n @ xs" and ?Z = "\<lambda>k. replicate k (0 :: u8)"
  have al: "align4 n = n" "align4 8 = 8" using assms(3) by (auto simp: align4_def)
  have len: "length ?P = n" using assms(2) by simp
  have n: "nlmsg_len (request_head c q n @ xs @ ?Z z) = n"
    using assms(4,5) by (simp add: nlmsg_len_head)
  have "z = 2 + (2 + (4 + (z - 8)))" using assms(4) by simp
  then have z: "?Z z = ?Z 2 @ ?Z 2 @ ?Z 4 @ ?Z (z - 8)" by (metis replicate_add)
  have 1: "put_bytes (n + 2) (put_le 2 ty) (?P @ ?Z z) = ?P @ ?Z 2 @ put_le 2 ty @ ?Z 4 @ ?Z (z - 8)"
    using put_bytes_mid [of "?P @ ?Z 2" "n + 2" "?Z 2" "put_le 2 ty" "?Z 4 @ ?Z (z - 8)"] len by (simp add: z)
  have 2: "put_bytes n (put_le 2 8) (?P @ ?Z 2 @ put_le 2 ty @ ?Z 4 @ ?Z (z - 8)) =
      ?P @ put_le 2 8 @ put_le 2 ty @ ?Z 4 @ ?Z (z - 8)"
    using put_bytes_mid [of ?P n "?Z 2" "put_le 2 8" "put_le 2 ty @ ?Z 4 @ ?Z (z - 8)"] len by simp
  have 3: "put_bytes (n + 4) data (?P @ put_le 2 8 @ put_le 2 ty @ ?Z 4 @ ?Z (z - 8)) =
      ?P @ put_le 2 8 @ put_le 2 ty @ data @ ?Z (z - 8)"
    using put_bytes_mid [of "?P @ put_le 2 8 @ put_le 2 ty" "n + 4" "?Z 4" data "?Z (z - 8)"] len assms(1) by simp
  have "n + 8 \<le> 156" using assms(4,5) by simp
  then show ?thesis
    using 1 2 3 by (simp add: add_attribute_def Let_def n al assms(1) put_len_head)
qed

lemma route_message_bytes:
  assumes "length dst = 4" and "length gw = 4"
  shows "route_message c q dst gw =
    Some (request_head c q 44 @ (put_le 2 8 @ put_le 2 RTA_DST @ dst) @ put_le 2 8 @ put_le 2 RTA_GATEWAY @ gw)"
proof -
  let ?a = "put_le 2 8 @ put_le 2 RTA_DST @ dst" and ?b = "put_le 2 8 @ put_le 2 RTA_GATEWAY @ gw"
  have 1: "add_attribute (change_request c q) REQUEST_SIZE RTA_DST dst =
      Some (request_head c q 36 @ ?a @ replicate 120 0)"
    using add_attribute_head [of dst "[]" 28 128 c q RTA_DST] assms(1) by (simp add: change_request_head)
  have 2: "add_attribute (request_head c q 36 @ ?a @ replicate 120 0) REQUEST_SIZE RTA_GATEWAY gw =
      Some (request_head c q 44 @ (?a @ ?b) @ replicate 112 0)"
    using add_attribute_head [of gw ?a 36 120 c q RTA_GATEWAY] assms by simp
  have "take 44 (request_head c q 44 @ (?a @ ?b) @ replicate 112 0) = request_head c q 44 @ ?a @ ?b"
    using assms by simp
  then show ?thesis
    unfolding route_message_def 1 option.case 2 nlmsg_len_head [of c q 44] by simp
qed

subsection \<open>Reading attributes\<close>

lemma get_bytes_mid: "length a = off \<Longrightarrow> length b = n \<Longrightarrow> get_bytes (a @ b @ c) off n = Some b"
  by (auto simp: get_bytes_def)

lemma get_field_mid: "length a = off \<Longrightarrow> get_field (a @ put_le n v @ c) off n = Some (v mod 256 ^ n)"
  using get_bytes_mid [of a off "put_le n v" n c] by (simp add: get_field_def)

text \<open>One attribute of the usual size.\<close>

lemma attribute_loop_step:
  assumes "length p = off" and "length data = 4" and "8 \<le> len" and "ty < 65536"
  shows "attribute_loop (p @ put_le 2 8 @ put_le 2 ty @ data @ rest) off len a =
    attribute_loop (p @ put_le 2 8 @ put_le 2 ty @ data @ rest) (off + 8) (len - 8) (take_attribute ty data a)"
proof -
  let ?buf = "p @ put_le 2 8 @ put_le 2 ty @ data @ rest"
  have 1: "get_field ?buf off 2 = Some 8"
    using get_field_mid [OF assms(1), of 2 8 "put_le 2 ty @ data @ rest"] by simp
  have 2: "get_field ?buf (off + 2) 2 = Some ty"
    using get_field_mid [of "p @ put_le 2 8" "off + 2" 2 ty "data @ rest"] assms(1,4) by simp
  have 3: "get_bytes ?buf (off + 4) (8 - 4) = Some data"
    using get_bytes_mid [of "p @ put_le 2 8 @ put_le 2 ty" "off + 4" data 4 rest] assms(1,2) by simp
  have "align4 8 = 8" by (simp add: align4_def)
  then show ?thesis
    using assms(3) 1 2 3 by (subst attribute_loop.simps) simp
qed

lemma attribute_loop_end: "len < 4 \<Longrightarrow> attribute_loop buf off len a = Some a"
  by (subst attribute_loop.simps) simp

lemma attribute_loop_request:
  assumes "length dst = 4" and "length gw = 4" and "length p = 28"
  shows "attribute_loop (p @ (put_le 2 8 @ put_le 2 RTA_DST @ dst) @ put_le 2 8 @ put_le 2 RTA_GATEWAY @ gw) 28 16 a =
    Some (a\<lparr>at_dst := Some dst, at_gateway := Some gw\<rparr>)"
  using attribute_loop_step [of p 28 dst 16 RTA_DST "put_le 2 8 @ put_le 2 RTA_GATEWAY @ gw" a]
    attribute_loop_step [of "p @ put_le 2 8 @ put_le 2 RTA_DST @ dst" 36 gw 8 RTA_GATEWAY "[]" "take_attribute RTA_DST dst a"]
    assms
  by (simp add: attribute_loop_end take_attribute_def)

end
