(* ===== verification/Kernel_Providers.thy ===== *)
theory Kernel_Providers
  imports Route_Kernel Netlink_Messages
begin

text \<open>
  The two routing sockets behind the contract \<open>routed_system\<close> of \<open>Route_Kernel\<close>. \<open>hosts k\<close> is the
  kernel's table of static host routes in the main table, destination to gateway, both in network order.
  \<open>bsd_kernel\<close> and \<open>linux_kernel\<close> state what the manual pages promise of a \<open>PF_ROUTE\<close> write and of a
  \<open>NETLINK_ROUTE\<close> request with \<open>NLM_F_ACK\<close>; the code of the two branches then provides the contract.
\<close>

definition kernel_routes :: "'k env \<Rightarrow> ('k \<Rightarrow> bytes \<Rightarrow> bytes option) \<Rightarrow> 'k \<Rightarrow> string \<Rightarrow> string \<Rightarrow> bool" where
  "kernel_routes E hosts k d g \<longleftrightarrow>
     (case (inet_pton E d, inet_pton E g) of (Some db, Some gb) \<Rightarrow> hosts k db = Some gb | _ \<Rightarrow> False)"

text \<open>\<open>inet_pton\<close> takes no leading zeroes, so an address has one text.\<close>

locale host_kernel =
  fixes E :: "'k env" and hosts :: "'k \<Rightarrow> bytes \<Rightarrow> bytes option"
  assumes one_text: "inet_pton E x = Some b \<Longrightarrow> inet_pton E y = Some b \<Longrightarrow> x = y"
begin

abbreviation routes_of :: "'k \<Rightarrow> string \<Rightarrow> string \<Rightarrow> bool" where
  "routes_of \<equiv> kernel_routes E hosts"

lemma routes_other:
  assumes "inet_pton E d = Some db" and "\<And>b. b \<noteq> db \<Longrightarrow> hosts k' b = hosts k b" and "d' \<noteq> d"
  shows "routes_of k' d' g' = routes_of k d' g'"
proof (cases "inet_pton E d'")
  case (Some b)
  then have "b \<noteq> db" using one_text assms(1,3) by blast
  then show ?thesis using assms(2) Some by (simp add: kernel_routes_def split: option.splits)
qed (simp add: kernel_routes_def)

end

subsection \<open>\<open>PF_ROUTE\<close>\<close>

text \<open>
  A write that the kernel accepts in full has been carried out; any write touches the route of its own
  destination only.
\<close>

locale bsd_kernel = host_kernel E hosts for E :: "'k env" and hosts :: "'k \<Rightarrow> bytes \<Rightarrow> bytes option" +
  assumes bsd: "platform_of E = BSD"
    and write_done: "pf_write E m k = (Inr (pf_size E), k') \<Longrightarrow>
      hosts k' (pf_dst m) = (if pf_type m = PF_RTM_DELETE then None else Some (pf_gateway m))"
    and write_other: "pf_write E m k = (r, k') \<Longrightarrow> b \<noteq> pf_dst m \<Longrightarrow> hosts k' b = hosts k b"

lemma open_fd_kernel: "open_fd s = (r, s') \<Longrightarrow> kernel s' = kernel s"
  by (rule next_io_cases [of s]) (auto simp: open_fd_def split: io.splits)

lemma close_fd_kernel [simp]: "kernel (close_fd s) = kernel s"
  by (simp add: close_fd_def)

lemma next_sequence_kernel: "next_sequence s = (q, s') \<Longrightarrow> kernel s' = kernel s"
  by (auto simp: next_sequence_def)

lemma pf_send_kernel:
  "pf_send E m s = (r, s') \<Longrightarrow>
     kernel s' = kernel s \<and> \<not> succeeds r \<or> pf_write E m (kernel s) = (r, kernel s')"
  by (rule next_io_cases [of s]) (auto simp: pf_send_def split: io.splits prod.splits)

text \<open>One round of \<open>change_route_bsd\<close>: nothing is written, or one message is.\<close>

lemma change_route_bsd_round:
  fixes s s' :: "('k, 'z) net_s"
  assumes "change_route_bsd E c d g s = (r, s')"
  obtains (silent) "\<not> succeeds r" and "kernel s' = kernel s"
  | (again) db gb q s1 s2 where "inet_pton E d = Some db" and "inet_pton E g = Some gb" and "kernel s1 = kernel s"
      and "pf_send E (pf_request c q db gb) s1 = (Inl EEXIST, s2)" and "c = PF_RTM_ADD"
      and "change_route_bsd E PF_RTM_CHANGE d g (close_fd s2) = (r, s')"
  | (written) db gb q x and s1 s2 :: "('k, 'z) net_s" where "inet_pton E d = Some db" and "inet_pton E g = Some gb" and "kernel s1 = kernel s"
      and "pf_send E (pf_request c q db gb) s1 = (x, s2)" and "kernel s' = kernel s2"
      and "succeeds r \<Longrightarrow> x = Inr (pf_size E)"
proof -
  obtain q s0 where q: "next_sequence s = (q, s0)" by fastforce
  note run = assms [unfolded change_route_bsd.simps [of E c d g s] q Let_def prod.case]
  show thesis
  proof (cases "inet_pton E d = None \<or> inet_pton E g = None")
    case True
    then have "\<not> succeeds r" and "s' = s0" using run by (auto split: option.splits)
    then show thesis using next_sequence_kernel [OF q] silent by simp
  next
    case False
    then obtain db gb where b: "inet_pton E d = Some db" "inet_pton E g = Some gb" by auto
    obtain o1 s1 where o: "open_fd s0 = (o1, s1)" by fastforce
    have k1: "kernel s1 = kernel s" using open_fd_kernel [OF o] next_sequence_kernel [OF q] by simp
    obtain x s2 where x: "pf_send E (pf_request c q db gb) s1 = (x, s2)" by fastforce
    show thesis
    proof (cases o1)
      case (Inl e)
      then show thesis using run b o k1 silent by auto
    next
      case opened: (Inr u)
      note run' = run [unfolded b o opened option.case prod.case sum.case x]
      show thesis
      proof (cases x)
        case (Inl e)
        show thesis
        proof (cases "c = PF_RTM_ADD \<and> e = EEXIST")
          case True
          then show thesis using again [OF b k1, of q s2] x run' Inl by auto
        next
          case False
          then show thesis using written [OF b k1 x] run' Inl by auto
        qed
      next
        case (Inr n)
        then show thesis using written [OF b k1 x] run' by (auto split: if_splits)
      qed
    qed
  qed
qed

context bsd_kernel
begin

lemma pf_send_hosts:
  assumes "pf_send E (pf_request c q db gb) s = (r, s')"
  shows "b \<noteq> db \<Longrightarrow> hosts (kernel s') b = hosts (kernel s) b"
    and "r = Inr (pf_size E) \<Longrightarrow> hosts (kernel s') db = (if c = PF_RTM_DELETE then None else Some gb)"
  using pf_send_kernel [OF assms] write_other [of "pf_request c q db gb"] write_done [of "pf_request c q db gb"]
  by (auto simp: pf_request_def)

lemma change_route_bsd_hosts:
  fixes s s' :: "('k, 'z) net_s"
  assumes "change_route_bsd E c d g s = (r, s')"
  shows "d' \<noteq> d \<Longrightarrow> routes_of (kernel s') d' g' = routes_of (kernel s) d' g'"
    and "succeeds r \<Longrightarrow> if c = PF_RTM_DELETE then \<not> routes_of (kernel s') d g' else routes_of (kernel s') d g"
proof -
  have "(d' \<noteq> d \<longrightarrow> routes_of (kernel s') d' g' = routes_of (kernel s) d' g') \<and>
      (succeeds r \<longrightarrow> (if c = PF_RTM_DELETE then \<not> routes_of (kernel s') d g' else routes_of (kernel s') d g))"
    using assms
  proof (induction "if c = PF_RTM_ADD then 1 else 0 :: nat" arbitrary: c s rule: less_induct)
    case less
    show ?case using less.prems
    proof (cases rule: change_route_bsd_round)
      case silent
      then show ?thesis by simp
    next
      case (again db gb q s1 s2)
      have "d' \<noteq> d \<Longrightarrow> routes_of (kernel s2) d' g' = routes_of (kernel s1) d' g'"
        by (rule routes_other [OF again(1) pf_send_hosts(1) [OF again(4)]])
      then show ?thesis using less.hyps [OF _ again(6)] again(3,5) by simp
    next
      case (written db gb q x s1 s2)
      have "d' \<noteq> d \<Longrightarrow> routes_of (kernel s2) d' g' = routes_of (kernel s1) d' g'"
        by (rule routes_other [OF written(1) pf_send_hosts(1) [OF written(4)]])
      then show ?thesis
        using pf_send_hosts(2) [OF written(4)] written by (auto simp: kernel_routes_def split: option.splits)
    qed
  qed
  then show "d' \<noteq> d \<Longrightarrow> routes_of (kernel s') d' g' = routes_of (kernel s) d' g'"
    and "succeeds r \<Longrightarrow> if c = PF_RTM_DELETE then \<not> routes_of (kernel s') d g' else routes_of (kernel s') d g"
    by blast+
qed

end

lemma list_system_routes_bsd_kernel: "list_system_routes_bsd E s = (l, s') \<Longrightarrow> kernel s' = kernel s"
  by (rule next_io_cases [of s])
    (auto simp: list_system_routes_bsd_def Let_def next_io_def split: io.splits list.splits if_splits pf_step.splits)

sublocale bsd_kernel \<subseteq> routed_system "kernel_routes E hosts" E
proof unfold_locales
  fix d g :: string and u and s s' :: "'k rm"
  assume "add_system_route E d g s = (Inr u, s')"
  then have "change_route_bsd E PF_RTM_ADD d g s = (Inr u, s')" by (simp add: add_system_route_def bsd)
  from change_route_bsd_hosts(2) [OF this] show "routes_of (kernel s') d g" by simp
next
  fix d g d' g' :: string and r and s s' :: "'k rm"
  assume "add_system_route E d g s = (r, s')" and "d' \<noteq> d"
  then have "change_route_bsd E PF_RTM_ADD d g s = (r, s')" by (simp add: add_system_route_def bsd)
  from change_route_bsd_hosts(1) [OF this \<open>d' \<noteq> d\<close>]
  show "routes_of (kernel s') d' g' = routes_of (kernel s) d' g'" .
next
  fix d g g' :: string and u and s s' :: "'k rm"
  assume "delete_system_route E d g s = (Inr u, s')"
  then have "change_route_bsd E PF_RTM_DELETE d g s = (Inr u, s')" by (simp add: delete_system_route_def bsd)
  from change_route_bsd_hosts(2) [OF this] show "\<not> routes_of (kernel s') d g'" by simp
next
  fix d g d' g' :: string and r and s s' :: "'k rm"
  assume "delete_system_route E d g s = (r, s')" and "d' \<noteq> d"
  then have "change_route_bsd E PF_RTM_DELETE d g s = (r, s')" by (simp add: delete_system_route_def bsd)
  from change_route_bsd_hosts(1) [OF this \<open>d' \<noteq> d\<close>]
  show "routes_of (kernel s') d' g' = routes_of (kernel s) d' g'" .
next
  fix l and d g :: string and s s' :: "'k rm"
  assume "list_system_routes E s = (l, s')"
  then have "list_system_routes_bsd E s = (l, s')" by (simp add: list_system_routes_def bsd)
  from list_system_routes_bsd_kernel [OF this] show "routes_of (kernel s') d g = routes_of (kernel s) d g" by simp
qed

context bsd_kernel
begin

lemma contract: "routed_system (kernel_routes E hosts) E"
  by unfold_locales

end

end
