(* ===== verification/Netlink_Kernel.thy ===== *)
theory Netlink_Kernel
  imports Kernel_Providers
begin

text \<open>
  The \<open>NETLINK_ROUTE\<close> socket behind the contract \<open>routed_system\<close>: the acknowledgement the kernel
  queues for a request with \<open>NLM_F_ACK\<close> (\<open>netlink(7)\<close>, \<open>rtnetlink(7)\<close>), read by the loop of
  \<open>change_route\<close>.
\<close>

text \<open>An \<open>NLMSG_ERROR\<close> message; \<open>tail\<close> is the header of the request and what else is echoed of it.\<close>

definition nl_error :: "nat \<Rightarrow> nat \<Rightarrow> bytes \<Rightarrow> bytes" where
  "nl_error sequence code tail =
     put_le 4 (20 + length tail) @ put_le 2 NLMSG_ERROR @ put_le 2 0 @ put_le 4 sequence @ put_le 4 0
       @ put_le 4 code @ tail"

lemma nl_error_fields:
  assumes "length tail \<le> 4076" and "q < 2 ^ 32" and "code < 2 ^ 32"
  shows "get_field (nl_error q code tail) 0 4 = Some (20 + length tail)"
    and "get_field (nl_error q code tail) 4 2 = Some NLMSG_ERROR"
    and "get_field (nl_error q code tail) 8 4 = Some q"
    and "get_field (nl_error q code tail) 16 4 = Some code"
    and "length (nl_error q code tail) = 20 + length tail"
  using assms
    get_field_mid [of "[]" 0 4 "20 + length tail"
      "put_le 2 NLMSG_ERROR @ put_le 2 0 @ put_le 4 q @ put_le 4 0 @ put_le 4 code @ tail"]
    get_field_mid [of "put_le 4 (20 + length tail)" 4 2 NLMSG_ERROR "put_le 2 0 @ put_le 4 q @ put_le 4 0 @ put_le 4 code @ tail"]
    get_field_mid [of "put_le 4 (20 + length tail) @ put_le 2 NLMSG_ERROR @ put_le 2 0" 8 4 q "put_le 4 0 @ put_le 4 code @ tail"]
    get_field_mid [of "put_le 4 (20 + length tail) @ put_le 2 NLMSG_ERROR @ put_le 2 0 @ put_le 4 q @ put_le 4 0" 16 4 code tail]
  by (simp_all add: nl_error_def)

lemma ack_scan_error:
  assumes "length tail \<le> 4076" and "q < 2 ^ 32" and "code < 2 ^ 32"
  shows "ack_scan q (nl_error q code tail) 0 (int (length (nl_error q code tail))) = Ack (signed32 code)"
  using assms(1) nl_error_fields [OF assms] by (subst ack_scan.simps) (simp add: Let_def)

lemma signed32_zero: "code < 2 ^ 32 \<Longrightarrow> signed32 code = 0 \<longleftrightarrow> code = 0"
  by (auto simp: signed32_def)

text \<open>
  The kernel acknowledges every request to change a route, with code 0 when it has carried it out, and
  it touches the route of that destination only; a request for a dump changes nothing.
\<close>

locale linux_kernel = host_kernel E hosts for E :: "'k env" and hosts :: "'k \<Rightarrow> bytes \<Rightarrow> bytes option" +
  assumes linux: "platform_of E = Linux"
    and four_bytes: "inet_pton E x = Some b \<Longrightarrow> length b = 4"
    and acknowledges: "route_message c q db gb = Some msg \<Longrightarrow> length db = 4 \<Longrightarrow> length gb = 4 \<Longrightarrow>
      c \<in> {RTM_NEWROUTE, RTM_DELROUTE} \<Longrightarrow> nl_serve E msg k = (ds, k') \<Longrightarrow>
      \<exists>code tail rest. ds = nl_error (unat q) code tail # rest \<and> length tail \<le> 4076 \<and> code < 2 ^ 32 \<and>
        (code = 0 \<longrightarrow> hosts k' db = (if c = RTM_DELROUTE then None else Some gb))"
    and changes_one: "route_message c q db gb = Some msg \<Longrightarrow> length db = 4 \<Longrightarrow> length gb = 4 \<Longrightarrow>
      c \<in> {RTM_NEWROUTE, RTM_DELROUTE} \<Longrightarrow> nl_serve E msg k = (ds, k') \<Longrightarrow> b \<noteq> db \<Longrightarrow> hosts k' b = hosts k b"
    and dump_changes_none: "nl_serve E (dump_request q) k = (ds, k') \<Longrightarrow> hosts k' = hosts k"

lemma nl_open_kernel: "nl_open E s = (r, s') \<Longrightarrow> kernel s' = kernel s"
  by (rule next_io_cases [of "snd (open_fd s)"])
    (auto simp: nl_open_def split: prod.splits sum.splits io.splits dest!: open_fd_kernel)

lemma nl_send_kernel:
  "nl_send E m s = (r, s') \<Longrightarrow>
     kernel s' = kernel s \<and> \<not> succeeds r \<or> (\<exists>ds. r = Inr ds \<and> nl_serve E m (kernel s) = (ds, kernel s'))"
  by (rule next_io_cases [of s]) (auto simp: nl_send_def split: io.splits prod.splits)

lemma nl_recv_kernel:
  "nl_recv n ds s = (r, s') \<Longrightarrow>
     kernel s' = kernel s \<and> (succeeds r \<longrightarrow> ds \<noteq> [] \<and> r = Inr (take n (hd ds), tl ds))"
  by (rule next_io_cases [of s]) (auto simp: nl_recv_def split: io.splits list.splits)

lemma change_route_linux_round:
  fixes s s' :: "('k, 'z) net_s"
  assumes "change_route_linux E c d g s = (r, s')"
  obtains (silent) "\<not> succeeds r" and "kernel s' = kernel s"
  | (served) db gb q msg ds where "inet_pton E d = Some db" and "inet_pton E g = Some gb"
      and "route_message c q db gb = Some msg" and "nl_serve E msg (kernel s) = (ds, kernel s')"
      and "succeeds r \<Longrightarrow> ds \<noteq> [] \<and>
        r = ack_result E (take 4096 (hd ds)) (ack_scan (unat q) (take 4096 (hd ds)) 0 (int (length (take 4096 (hd ds)))))"
proof -
  obtain q s0 where q: "next_sequence s = (q, s0)" by fastforce
  note k0 = next_sequence_kernel [OF q]
  note run = assms [unfolded change_route_linux_def q Let_def prod.case]
  show thesis
  proof (cases "inet_pton E d = None \<or> inet_pton E g = None")
    case True
    then have "\<not> succeeds r" and "s' = s0" using run by (auto split: option.splits)
    then show thesis using k0 silent by simp
  next
    case False
    then obtain db gb where b: "inet_pton E d = Some db" "inet_pton E g = Some gb" by auto
    obtain o1 s1 where o: "nl_open E s0 = (o1, s1)" by fastforce
    have k1: "kernel s1 = kernel s" using nl_open_kernel [OF o] k0 by simp
    show thesis
    proof (cases "\<exists>u msg. o1 = Inr u \<and> route_message c q db gb = Some msg")
      case False
      then have "\<not> succeeds r" and "kernel s' = kernel s1"
        using run b o by (auto split: sum.splits option.splits)
      then show thesis using k1 silent by simp
    next
      case True
      then obtain u msg where ok: "o1 = Inr u" "route_message c q db gb = Some msg" by blast
      obtain x s2 where x: "nl_send E msg s1 = (x, s2)" by fastforce
      note run' = run [unfolded b o ok option.case prod.case sum.case x]
      show thesis
      proof (cases x)
        case (Inl e)
        then show thesis using run' k1 nl_send_kernel [OF x] silent by auto
      next
        case (Inr ds)
        obtain y s3 where y: "nl_recv 4096 ds s2 = (y, s3)" by fastforce
        have srv: "nl_serve E msg (kernel s) = (ds, kernel s')"
          using run' k1 nl_send_kernel [OF x] Inr y nl_recv_kernel [OF y] by (auto split: sum.splits)
        show thesis
          by (rule served [OF b ok(2) srv]) (use run' Inr y nl_recv_kernel [OF y] in \<open>auto split: sum.splits\<close>)
      qed
    qed
  qed
qed


context linux_kernel
begin

lemma change_route_linux_hosts:
  fixes s s' :: "('k, 'z) net_s"
  assumes "change_route_linux E c d g s = (r, s')" and "c \<in> {RTM_NEWROUTE, RTM_DELROUTE}"
  shows "d' \<noteq> d \<Longrightarrow> routes_of (kernel s') d' g' = routes_of (kernel s) d' g'"
    and "succeeds r \<Longrightarrow> if c = RTM_DELROUTE then \<not> routes_of (kernel s') d g' else routes_of (kernel s') d g"
proof -
  show "d' \<noteq> d \<Longrightarrow> routes_of (kernel s') d' g' = routes_of (kernel s) d' g'"
    using assms(1)
  proof (cases rule: change_route_linux_round)
    case silent
    then show ?thesis by simp
  next
    case (served db gb q msg ds)
    from changes_one [OF served(3) four_bytes [OF served(1)] four_bytes [OF served(2)] assms(2) served(4)]
    show "d' \<noteq> d \<Longrightarrow> ?thesis" by (rule routes_other [OF served(1)])
  qed
  show "if c = RTM_DELROUTE then \<not> routes_of (kernel s') d g' else routes_of (kernel s') d g" if "succeeds r"
    using assms(1)
  proof (cases rule: change_route_linux_round)
    case silent
    then show ?thesis using that by simp
  next
    case (served db gb q msg ds)
    obtain code tail rest where a: "ds = nl_error (unat q) code tail # rest" "length tail \<le> 4076" "code < 2 ^ 32"
        "code = 0 \<longrightarrow> hosts (kernel s') db = (if c = RTM_DELROUTE then None else Some gb)"
      using acknowledges [OF served(3) four_bytes [OF served(1)] four_bytes [OF served(2)] assms(2) served(4)] by blast
    have q: "unat q < 2 ^ 32" using unsigned_less [of q] by simp
    have "r = ack_result E (nl_error (unat q) code tail) (Ack (signed32 code))"
      using served(5) [OF that] a(1,2) ack_scan_error [OF a(2) q a(3)] nl_error_fields(5) [OF a(2) q a(3)] by simp
    then have "code = 0" using that signed32_zero [OF a(3)] by (auto simp: ack_result_def split: if_splits)
    then show ?thesis using a(4) served(1,2) by (auto simp: kernel_routes_def split: option.splits)
  qed
qed

end

lemma dump_receive_kernel: "dump_receive E q ds rs s = (r, s') \<Longrightarrow> kernel s' = kernel s"
proof (induction E q ds rs s arbitrary: r s' rule: dump_receive.induct)
  case (1 E q rs s)
  then show ?case by (auto split: prod.splits sum.splits dest!: nl_recv_kernel)
next
  case (2 E q d ds rs s)
  then show ?case by (auto split: prod.splits sum.splits dump_step.splits dest!: nl_recv_kernel)
qed

lemma list_system_routes_linux_kernel:
  assumes "list_system_routes_linux E s = (l, s')"
  shows "kernel s' = kernel s \<or> (\<exists>q ds. nl_serve E (dump_request q) (kernel s) = (ds, kernel s'))"
  using assms
  by (auto simp: list_system_routes_linux_def split: prod.splits sum.splits
      dest!: nl_open_kernel nl_send_kernel dump_receive_kernel next_sequence_kernel)

sublocale linux_kernel \<subseteq> routed_system "kernel_routes E hosts" E
proof unfold_locales
  fix d g :: string and u and s s' :: "'k rm"
  assume "add_system_route E d g s = (Inr u, s')"
  then have "change_route_linux E RTM_NEWROUTE d g s = (Inr u, s')" by (simp add: add_system_route_def linux)
  from change_route_linux_hosts(2) [OF this] show "routes_of (kernel s') d g" by simp
next
  fix d g d' g' :: string and r and s s' :: "'k rm"
  assume "add_system_route E d g s = (r, s')" and "d' \<noteq> d"
  then have "change_route_linux E RTM_NEWROUTE d g s = (r, s')" by (simp add: add_system_route_def linux)
  from change_route_linux_hosts(1) [OF this _ \<open>d' \<noteq> d\<close>]
  show "routes_of (kernel s') d' g' = routes_of (kernel s) d' g'" by simp
next
  fix d g g' :: string and u and s s' :: "'k rm"
  assume "delete_system_route E d g s = (Inr u, s')"
  then have "change_route_linux E RTM_DELROUTE d g s = (Inr u, s')" by (simp add: delete_system_route_def linux)
  from change_route_linux_hosts(2) [OF this] show "\<not> routes_of (kernel s') d g'" by simp
next
  fix d g d' g' :: string and r and s s' :: "'k rm"
  assume "delete_system_route E d g s = (r, s')" and "d' \<noteq> d"
  then have "change_route_linux E RTM_DELROUTE d g s = (r, s')" by (simp add: delete_system_route_def linux)
  from change_route_linux_hosts(1) [OF this _ \<open>d' \<noteq> d\<close>]
  show "routes_of (kernel s') d' g' = routes_of (kernel s) d' g'" by simp
next
  fix l and d g :: string and s s' :: "'k rm"
  assume "list_system_routes E s = (l, s')"
  then have "list_system_routes_linux E s = (l, s')" by (simp add: list_system_routes_def linux)
  from list_system_routes_linux_kernel [OF this] have "hosts (kernel s') = hosts (kernel s)"
    using dump_changes_none by auto
  then show "routes_of (kernel s') d g = routes_of (kernel s) d g"
    by (simp add: kernel_routes_def split: option.split)
qed

context linux_kernel
begin

lemma contract: "routed_system (kernel_routes E hosts) E"
  by unfold_locales

end

end
