(* ===== verification/Example_Kernel.thy ===== *)
theory Example_Kernel
  imports Netlink_Kernel Example_Env
begin

text \<open>
  Two kernels that keep their promises: a table of host routes behind a \<open>PF_ROUTE\<close> socket and behind a
  \<open>NETLINK_ROUTE\<close> socket that parses the request it is sent. They discharge \<open>bsd_kernel\<close> and
  \<open>linux_kernel\<close>, and with them every contract those give.
\<close>

type_synonym host_routes = "(bytes \<times> bytes) list"

definition strict_dotted :: "string \<Rightarrow> bytes option" where
  "strict_dotted t =
     (case dotted t of
        None \<Rightarrow> None
      | Some b \<Rightarrow> if show_address b = Some t then Some b else None)"

lemma strict_dotted_one_text: "strict_dotted x = Some b \<Longrightarrow> strict_dotted y = Some b \<Longrightarrow> x = y"
  by (auto simp: strict_dotted_def split: option.splits if_splits)

lemma strict_dotted_length: "strict_dotted x = Some b \<Longrightarrow> length b = 4"
  by (auto simp: strict_dotted_def dotted_def Let_def split: option.splits if_splits)

text \<open>The environment of \<open>demo_env\<close> over another kernel.\<close>

definition kernel_env ::
  "platform \<Rightarrow> (pf_message \<Rightarrow> host_routes \<Rightarrow> (nat + nat) \<times> host_routes)
     \<Rightarrow> (bytes \<Rightarrow> host_routes \<Rightarrow> bytes list \<times> host_routes) \<Rightarrow> host_routes env" where
  "kernel_env p wr sv =
     \<lparr>acl_inet_pton = (\<lambda>t. if strict_dotted t \<noteq> None then 1 else 0),
      inet_pton = strict_dotted, inet_ntop = show_address, acl_less = string_less,
      strerror = (\<lambda>e. ''error''), if_indextoname = (\<lambda>n. ''eth0''),
      platform_of = p, is_apple = False, acl_lower = map tolower, acl_split2 = tokens,
      acl_url_encode = (\<lambda>t. t), acl_get = (\<lambda>a t u k. Response 200 (Some ''{}'')),
      run_status = (\<lambda>as. 0), nl_serve = sv,
      stray_ack = (\<lambda>m. Inl ''stray''), stray_dump = (\<lambda>m. Inl ''stray''),
      pf_write = wr, pf_size = 132, pf_dump = (\<lambda>k. []), pf_hdr_rest = 76, pf_align = 4\<rparr>"

subsection \<open>A \<open>PF_ROUTE\<close> socket\<close>

abbreviation (input) ESRCH :: nat where "ESRCH \<equiv> 3"

definition demo_pf_write :: "pf_message \<Rightarrow> host_routes \<Rightarrow> (nat + nat) \<times> host_routes" where
  "demo_pf_write m k =
     (if pf_type m = PF_RTM_ADD
      then if map_of k (pf_dst m) = None then (Inr 132, (pf_dst m, pf_gateway m) # k) else (Inl EEXIST, k)
      else if map_of k (pf_dst m) = None then (Inl ESRCH, k)
      else if pf_type m = PF_RTM_DELETE then (Inr 132, AList.delete (pf_dst m) k)
      else (Inr 132, AList.update (pf_dst m) (pf_gateway m) k))"

definition bsd_env :: "host_routes env" where
  "bsd_env = kernel_env BSD demo_pf_write (\<lambda>m k. ([], k))"

interpretation bsd: bsd_kernel bsd_env map_of
proof unfold_locales
  show "platform_of bsd_env = BSD" by (simp add: bsd_env_def kernel_env_def)
qed (auto simp: bsd_env_def kernel_env_def demo_pf_write_def update_conv delete_conv
    intro: strict_dotted_one_text split: if_splits)

subsection \<open>A \<open>NETLINK_ROUTE\<close> socket\<close>

text \<open>The kernel's side of the protocol: the request is parsed, carried out and acknowledged.\<close>

definition apply_request :: "nat \<Rightarrow> bytes \<Rightarrow> bytes \<Rightarrow> host_routes \<Rightarrow> nat \<times> host_routes" where
  "apply_request c db gb k =
     (if c = RTM_NEWROUTE then (0, AList.update db gb k)
      else if map_of k db = Some gb then (0, AList.delete db k)
      else (2 ^ 32 - ESRCH, k))"

definition demo_nl_serve :: "bytes \<Rightarrow> host_routes \<Rightarrow> bytes list \<times> host_routes" where
  "demo_nl_serve msg k =
     (case (get_field msg 4 2, get_field msg 8 4,
            attribute_loop msg 28 (int (length msg) - 28)
              \<lparr>at_dst = None, at_gateway = None, at_oif = 0, at_table = 254\<rparr>) of
        (Some c, Some q, Some a) \<Rightarrow>
          (case (at_dst a, at_gateway a) of
             (Some db, Some gb) \<Rightarrow>
               (let (code, k') = apply_request c db gb k in ([nl_error q code (take 16 msg)], k'))
           | _ \<Rightarrow> ([nl_error q 0 []], k))
      | _ \<Rightarrow> ([], k))"

definition linux_env :: "host_routes env" where
  "linux_env = kernel_env Linux (\<lambda>m k. (Inl EIO, k)) demo_nl_serve"

lemma demo_nl_serve_change:
  assumes "route_message c q db gb = Some msg" and "length db = 4" and "length gb = 4" and "c < 65536"
  shows "demo_nl_serve msg k =
    (let (code, k') = apply_request c db gb k in ([nl_error (unat q) code (take 16 msg)], k'))"
proof -
  have m: "msg = request_head c q 44 @ (put_le 2 8 @ put_le 2 RTA_DST @ db) @ put_le 2 8 @ put_le 2 RTA_GATEWAY @ gb"
    using assms(1) route_message_bytes [OF assms(2,3), of c q] by simp
  have "unat q < 2 ^ LENGTH(32)" by (rule unsigned_less)
  then have "get_field msg 8 4 = Some (unat q)" and "get_field msg 4 2 = Some c"
    using assms(4)
      get_field_mid [of "put_le 4 44" 4 2 c] get_field_mid [of "put_le 4 44 @ put_le 2 c @ put_le 2 f" 8 4 "unat q" for f]
    by (simp_all add: m request_head_def)
  moreover have "length msg = 44" using assms(2,3) by (simp add: m)
  moreover have "attribute_loop msg 28 16 a = Some (a\<lparr>at_dst := Some db, at_gateway := Some gb\<rparr>)" for a
    unfolding m by (rule attribute_loop_request) (use assms(2,3) in simp_all)
  ultimately show ?thesis by (simp add: demo_nl_serve_def)
qed

lemma demo_nl_serve_dump: "snd (demo_nl_serve (dump_request q) k) = k"
proof -
  have "length (dump_request q) = 28" by (simp add: dump_request_def)
  then show ?thesis by (simp add: demo_nl_serve_def attribute_loop_end split: option.split)
qed

lemma linux_env_change:
  assumes "route_message c q db gb = Some msg" and "length db = 4" and "length gb = 4"
    and "c \<in> {RTM_NEWROUTE, RTM_DELROUTE}" and "nl_serve linux_env msg k = (ds, k')"
  obtains code where "apply_request c db gb k = (code, k')" and "ds = [nl_error (unat q) code (take 16 msg)]"
proof -
  have "demo_nl_serve msg k =
      (let (code, k') = apply_request c db gb k in ([nl_error (unat q) code (take 16 msg)], k'))"
    by (rule demo_nl_serve_change [OF assms(1-3)]) (use assms(4) in auto)
  moreover have "demo_nl_serve msg k = (ds, k')" using assms(5) by (simp add: linux_env_def kernel_env_def)
  ultimately show thesis using that by (auto split: prod.splits)
qed

interpretation linux: linux_kernel linux_env map_of
proof unfold_locales
  show "platform_of linux_env = Linux" by (simp add: linux_env_def kernel_env_def)
next
  fix x y b assume "inet_pton linux_env x = Some b" "inet_pton linux_env y = Some b"
  then show "x = y" by (auto simp: linux_env_def kernel_env_def intro: strict_dotted_one_text)
next
  fix x b assume "inet_pton linux_env x = Some b"
  then show "length b = 4" by (simp add: linux_env_def kernel_env_def strict_dotted_length)
next
  fix c q db gb msg k ds k'
  assume m: "route_message c q db gb = Some msg" "length db = 4" "length gb = 4"
    and c: "c \<in> {RTM_NEWROUTE, RTM_DELROUTE}" and "nl_serve linux_env msg k = (ds, k')"
  then obtain code where r: "apply_request c db gb k = (code, k')" "ds = [nl_error (unat q) code (take 16 msg)]"
    by (elim linux_env_change)
  have "code < 2 ^ 32 \<and> (code = 0 \<longrightarrow> map_of k' db = (if c = RTM_DELROUTE then None else Some gb))"
    using r(1) c by (auto simp: apply_request_def update_conv delete_conv split: if_splits)
  then show "\<exists>code tail rest. ds = nl_error (unat q) code tail # rest \<and> length tail \<le> 4076 \<and> code < 2 ^ 32 \<and>
      (code = 0 \<longrightarrow> map_of k' db = (if c = RTM_DELROUTE then None else Some gb))"
    by (intro exI [of _ code] exI [of _ "take 16 msg"] exI [of _ "[]"]) (simp add: r(2))
next
  fix c q db gb msg k ds k' b
  assume m: "route_message c q db gb = Some msg" "length db = 4" "length gb = 4" "c \<in> {RTM_NEWROUTE, RTM_DELROUTE}"
    and "nl_serve linux_env msg k = (ds, k')" and b: "b \<noteq> db"
  then obtain code where "apply_request c db gb k = (code, k')" by (elim linux_env_change)
  then show "map_of k' b = map_of k b"
    using b by (auto simp: apply_request_def update_conv delete_conv split: if_splits)
next
  fix q k ds k' assume "nl_serve linux_env (dump_request q) k = (ds, k')"
  then have "k' = k" using demo_nl_serve_dump [of q k] by (simp add: linux_env_def kernel_env_def)
  then show "map_of k' = map_of k" by simp
qed

end
