(* ===== verification/Kernel_Properties.thy ===== *)
theory Kernel_Properties
  imports Example_Kernel
begin













end
