(* ===== verification/Netlink_Dump.thy ===== *)
theory Netlink_Dump
  imports Netlink_Messages
begin

text \<open>
  The dump of the route table as the kernel sends it (\<open>rtnetlink(7)\<close>): messages with a header, a body
  and padding, route messages with attributes of any length. \<open>listed\<close> is what one route contributes to
  the list, said without offsets; the lemmas show that the parser of \<open>list_system_routes\<close> computes it
  on the encoded messages, and never reads past a datagram that holds whole messages.
\<close>

subsection \<open>Encoding\<close>

definition padding :: "nat \<Rightarrow> bytes" where
  "padding n = replicate (align4 n - n) 0"

definition attr_bytes :: "nat \<times> bytes \<Rightarrow> bytes" where
  "attr_bytes a = put_le 2 (4 + length (snd a)) @ put_le 2 (fst a) @ snd a @ padding (length (snd a))"

definition attr_ok :: "nat \<times> bytes \<Rightarrow> bool" where
  "attr_ok a \<longleftrightarrow> fst a < 65536 \<and> length (snd a) < 65532"

record kernel_route =
  kr_family :: u8
  kr_dst_len :: u8
  kr_table :: u8
  kr_protocol :: u8
  kr_type :: u8
  kr_flags :: nat
  kr_attrs :: "(nat \<times> bytes) list"

definition route_body :: "kernel_route \<Rightarrow> bytes" where
  "route_body r =
     ([kr_family r, kr_dst_len r, 0, 0, kr_table r, kr_protocol r, 0, kr_type r] @ put_le 4 (kr_flags r))
       @ concat (map attr_bytes (kr_attrs r))"

datatype nl_body = Route_body kernel_route | Other_body bytes

record nl_message =
  nm_type :: nat
  nm_seq :: nat
  nm_flags :: nat
  nm_pid :: nat
  nm_body :: nl_body

fun body_bytes :: "nl_body \<Rightarrow> bytes" where
  "body_bytes (Route_body r) = route_body r"
| "body_bytes (Other_body b) = b"

definition message_bytes :: "nl_message \<Rightarrow> bytes" where
  "message_bytes m =
     (let b = body_bytes (nm_body m) in
      put_le 4 (16 + length b) @ put_le 2 (nm_type m) @ put_le 2 (nm_flags m) @ put_le 4 (nm_seq m)
        @ put_le 4 (nm_pid m) @ b @ padding (length b))"

definition datagram_bytes :: "nl_message list \<Rightarrow> bytes" where
  "datagram_bytes ms = concat (map message_bytes ms)"

subsection \<open>What a route contributes\<close>

text \<open>The last attribute of a type that carries at least four bytes.\<close>

definition attr_of :: "nat \<Rightarrow> (nat \<times> bytes) list \<Rightarrow> bytes option" where
  "attr_of ty as = map_option (take 4) (map_of (rev (filter (\<lambda>a. 4 \<le> length (snd a)) as)) ty)"

definition listed :: "'k env \<Rightarrow> kernel_route \<Rightarrow> system_route_entry list" where
  "listed E r =
     (if unat (kr_family r) = AF_INET \<and> unat (kr_dst_len r) = 32 \<and> unat (kr_protocol r) = RTPROT_STATIC
         \<and> unat (kr_type r) = RTN_UNICAST
         \<and> (case attr_of RTA_TABLE (kr_attrs r) of None \<Rightarrow> unat (kr_table r) | Some t \<Rightarrow> le_value t) = RT_TABLE_MAIN
      then
        (case (Option.bind (attr_of RTA_DST (kr_attrs r)) (inet_ntop E),
               Option.bind (attr_of RTA_GATEWAY (kr_attrs r)) (inet_ntop E)) of
           (Some d, Some g) \<Rightarrow>
             [\<lparr>sr_ip = d, sr_gateway = g,
               sr_interface =
                 (case attr_of RTA_OIF (kr_attrs r) of
                    None \<Rightarrow> []
                  | Some i \<Rightarrow> if le_value i > 0 then if_indextoname E (le_value i) else [])\<rparr>]
         | _ \<Rightarrow> [])
      else [])"

text \<open>A message the kernel may send in answer to the request with number \<open>q\<close>.\<close>

definition message_ok :: "nat \<Rightarrow> nl_message \<Rightarrow> bool" where
  "message_ok q m \<longleftrightarrow>
     nm_type m < 65536 \<and> nm_seq m < 2 ^ 32 \<and> length (body_bytes (nm_body m)) < 65536 \<and>
     (case nm_body m of
        Route_body r \<Rightarrow> (\<forall>a\<in>set (kr_attrs r). attr_ok a)
      | Other_body b \<Rightarrow> nm_seq m = q \<longrightarrow> nm_type m \<noteq> RTM_NEWROUTE)"

definition routes_for :: "nat \<Rightarrow> nl_message list \<Rightarrow> kernel_route list" where
  "routes_for q ms =
     concat (map (\<lambda>m. case nm_body m of
       Route_body r \<Rightarrow> if nm_seq m = q \<and> nm_type m = RTM_NEWROUTE then [r] else []
     | Other_body b \<Rightarrow> []) ms)"

subsection \<open>The attribute loop\<close>

lemma align4_ge: "n \<le> align4 n"
  by (simp add: align4_def)

lemma align4_add: "align4 (4 + n) = 4 + align4 n"
proof -
  have "(4 + n + 3) div 4 = Suc ((n + 3) div 4)" by presburger
  then show ?thesis unfolding align4_def by simp
qed

lemma length_attr_bytes: "length (attr_bytes a) = align4 (4 + length (snd a))"
  using align4_ge [of "length (snd a)"] by (simp add: attr_bytes_def padding_def align4_add)

lemma attribute_loop_attrs:
  assumes "length p = off" and "\<forall>a\<in>set as. attr_ok a"
  shows "attribute_loop (p @ concat (map attr_bytes as) @ rest) off (int (length (concat (map attr_bytes as)))) v =
    Some (fold (\<lambda>(ty, data). take_attribute ty data) as v)"
  using assms
proof (induction as arbitrary: p off v)
  case Nil
  then show ?case by (simp add: attribute_loop_end)
next
  case (Cons a as)
  obtain ty data where a: "a = (ty, data)" by (cases a)
  have ok: "ty < 65536" "4 + length data < 65536" using Cons.prems(2) a by (auto simp: attr_ok_def)
  let ?tail = "padding (length data) @ concat (map attr_bytes as) @ rest"
  let ?n = "4 + length data" and ?l = "int (length (concat (map attr_bytes as)))"
  have buf: "p @ concat (map attr_bytes (a # as)) @ rest =
      p @ put_le 2 ?n @ put_le 2 ty @ data @ ?tail"
    by (simp add: a attr_bytes_def)
  have len: "int (length (concat (map attr_bytes (a # as)))) = int (align4 ?n) + ?l"
    using length_attr_bytes [of a] by (simp add: a)
  have 1: "get_field (p @ put_le 2 ?n @ put_le 2 ty @ data @ ?tail) off 2 = Some ?n"
    using get_field_mid [OF Cons.prems(1), of 2 ?n "put_le 2 ty @ data @ ?tail"] ok(2) by simp
  have 2: "get_field (p @ put_le 2 ?n @ put_le 2 ty @ data @ ?tail) (off + 2) 2 = Some ty"
    using get_field_mid [of "p @ put_le 2 ?n" "off + 2" 2 ty "data @ ?tail"] Cons.prems(1) ok(1) by simp
  have 3: "get_bytes (p @ put_le 2 ?n @ put_le 2 ty @ data @ ?tail) (off + 4) (?n - 4) = Some data"
    using get_bytes_mid [of "p @ put_le 2 ?n @ put_le 2 ty" "off + 4" data "?n - 4" ?tail] Cons.prems(1) by simp
  have "attribute_loop (p @ concat (map attr_bytes (a # as)) @ rest) off
      (int (length (concat (map attr_bytes (a # as))))) v =
    attribute_loop (p @ concat (map attr_bytes (a # as)) @ rest) (off + align4 ?n) ?l (take_attribute ty data v)"
    unfolding len buf using 1 2 3 align4_ge [of ?n] by (subst attribute_loop.simps) simp
  also have "\<dots> = attribute_loop ((p @ attr_bytes a) @ concat (map attr_bytes as) @ rest) (off + align4 ?n) ?l
      (take_attribute ty data v)" by simp
  also have "\<dots> = Some (fold (\<lambda>(ty, data). take_attribute ty data) as (take_attribute ty data v))"
    by (rule Cons.IH) (use Cons.prems length_attr_bytes [of a] a in simp_all)
  finally show ?case by (simp add: a)
qed

text \<open>The variables after the loop.\<close>

lemma attr_of_snoc:
  "attr_of ty (as @ [(t, data)]) = (if t = ty \<and> 4 \<le> length data then Some (take 4 data) else attr_of ty as)"
  by (simp add: attr_of_def)

lemma fold_attributes:
  "fold (\<lambda>(ty, data). take_attribute ty data) as \<lparr>at_dst = None, at_gateway = None, at_oif = 0, at_table = t\<rparr> =
    \<lparr>at_dst = attr_of RTA_DST as, at_gateway = attr_of RTA_GATEWAY as,
     at_oif = (case attr_of RTA_OIF as of None \<Rightarrow> 0 | Some i \<Rightarrow> le_value i),
     at_table = (case attr_of RTA_TABLE as of None \<Rightarrow> t | Some i \<Rightarrow> le_value i)\<rparr>"
proof (induction as rule: rev_induct)
  case Nil
  then show ?case by (simp add: attr_of_def)
next
  case (snoc a as)
  obtain ty data where a: "a = (ty, data)" by (cases a)
  have last: "fold (\<lambda>(ty, data). take_attribute ty data) (as @ [a]) v =
      take_attribute ty data (fold (\<lambda>(ty, data). take_attribute ty data) as v)" for v
    by (simp add: a)
  show ?case unfolding last snoc.IH by (simp add: a attr_of_snoc take_attribute_def)
qed

subsection \<open>One message\<close>

lemma length_message_bytes: "length (message_bytes m) = align4 (16 + length (body_bytes (nm_body m)))"
  using align4_ge [of "length (body_bytes (nm_body m))"] align4_add [of "12 + length (body_bytes (nm_body m))"]
    align4_add [of "8 + length (body_bytes (nm_body m))"] align4_add [of "4 + length (body_bytes (nm_body m))"]
    align4_add [of "length (body_bytes (nm_body m))"]
  by (simp add: message_bytes_def Let_def padding_def)

lemma message_fields:
  assumes "message_ok q m" and "length p = off"
  shows "get_field (p @ message_bytes m @ rest) off 4 = Some (16 + length (body_bytes (nm_body m)))"
    and "get_field (p @ message_bytes m @ rest) (off + 4) 2 = Some (nm_type m)"
    and "get_field (p @ message_bytes m @ rest) (off + 8) 4 = Some (nm_seq m)"
proof -
  define b where "b = body_bytes (nm_body m)"
  define r where "r = put_le 4 (nm_pid m) @ b @ padding (length b) @ rest"
  have buf: "p @ message_bytes m @ rest =
      p @ put_le 4 (16 + length b) @ put_le 2 (nm_type m) @ put_le 2 (nm_flags m) @ put_le 4 (nm_seq m) @ r"
    by (simp add: message_bytes_def Let_def b_def r_def)
  have ok: "16 + length b < 256 ^ 4" "nm_type m < 65536" "nm_seq m < 256 ^ 4"
    using assms(1) by (simp_all add: message_ok_def b_def)
  show "get_field (p @ message_bytes m @ rest) off 4 = Some (16 + length (body_bytes (nm_body m)))"
    unfolding buf using get_field_mid [OF assms(2), of 4 "16 + length b"] ok(1) by (simp add: b_def)
  show "get_field (p @ message_bytes m @ rest) (off + 4) 2 = Some (nm_type m)"
    unfolding buf
    using get_field_mid [of "p @ put_le 4 (16 + length b)" "off + 4" 2 "nm_type m"] assms(2) ok(2) by simp
  show "get_field (p @ message_bytes m @ rest) (off + 8) 4 = Some (nm_seq m)"
    unfolding buf
    using get_field_mid [of "p @ put_le 4 (16 + length b) @ put_le 2 (nm_type m) @ put_le 2 (nm_flags m)"
        "off + 8" 4 "nm_seq m"] assms(2) ok(3) by simp
qed

lemma dump_message_listed:
  assumes "message_ok q m" and "length p = off" and "nm_body m = Route_body r"
  shows "dump_message E (p @ message_bytes m @ rest) off (16 + length (body_bytes (nm_body m))) = Some (listed E r)"
proof -
  define h where "h = put_le 4 (16 + length (route_body r)) @ put_le 2 (nm_type m) @ put_le 2 (nm_flags m)
      @ put_le 4 (nm_seq m) @ put_le 4 (nm_pid m)"
  define f where "f = [kr_family r, kr_dst_len r, 0, 0, kr_table r, kr_protocol r, 0, kr_type r] @ put_le 4 (kr_flags r)"
  define as where "as = concat (map attr_bytes (kr_attrs r))"
  define t where "t = padding (length (route_body r)) @ rest"
  have buf: "p @ message_bytes m @ rest = (p @ h @ f) @ as @ t"
    by (simp add: message_bytes_def Let_def assms(3) route_body_def h_def f_def as_def t_def)
  have len: "length h = 16" "length f = 12" "length (route_body r) = 12 + length as"
    by (simp_all add: h_def f_def as_def route_body_def)
  have head: "get_bytes (p @ message_bytes m @ rest) (off + 16) 12 = Some f"
    unfolding buf using get_bytes_mid [of "p @ h" "off + 16" f 12 "as @ t"] len(1,2) assms(2) by simp
  have attrs: "attribute_loop (p @ message_bytes m @ rest) (off + 28) (int (length as)) v =
      Some (fold (\<lambda>(ty, data). take_attribute ty data) (kr_attrs r) v)" for v
    unfolding buf as_def
    by (rule attribute_loop_attrs) (use assms len(1,2) in \<open>simp_all add: message_ok_def\<close>)
  have nth: "f ! 0 = kr_family r" "f ! 1 = kr_dst_len r" "f ! 5 = kr_protocol r" "f ! 7 = kr_type r" "f ! 4 = kr_table r"
    by (simp_all add: f_def)
  have n: "int (16 + length (body_bytes (nm_body m))) - int ROUTE_LENGTH = int (length as)"
    by (simp add: assms(3) len(3))
  show ?thesis
    unfolding dump_message_def head option.case nth n attrs fold_attributes
    by (auto simp: listed_def split: option.split)
qed

subsection \<open>Datagrams\<close>

text \<open>A message that does not end the dump.\<close>

definition goes_on :: "nat \<Rightarrow> nl_message \<Rightarrow> bool" where
  "goes_on q m \<longleftrightarrow> message_ok q m \<and> (nm_seq m = q \<longrightarrow> nm_type m \<noteq> NLMSG_ERROR \<and> nm_type m \<noteq> NLMSG_DONE)"

lemma dump_scan_message:
  assumes "goes_on q m" and "length p = off" and "0 \<le> r"
  shows "dump_scan E q (p @ message_bytes m @ rest) off (int (length (message_bytes m)) + r) routes =
    dump_scan E q (p @ message_bytes m @ rest) (off + length (message_bytes m)) r
      (routes @ concat (map (listed E) (routes_for q [m])))"
proof -
  have ok: "message_ok q m" using assms(1) by (simp add: goes_on_def)
  define n where "n = 16 + length (body_bytes (nm_body m))"
  have len: "length (message_bytes m) = align4 n" by (simp add: length_message_bytes n_def)
  have bounds: "16 \<le> n" "n \<le> align4 n" using align4_ge by (simp_all add: n_def)
  note f = message_fields [OF ok assms(2), of rest, folded n_def]
  show ?thesis
  proof (cases "nm_seq m = q \<and> nm_type m = RTM_NEWROUTE")
    case True
    then obtain b where b: "nm_body m = Route_body b" using ok by (cases "nm_body m") (auto simp: message_ok_def)
    have l: "dump_message E (p @ message_bytes m @ rest) off n = Some (listed E b)"
      unfolding n_def by (rule dump_message_listed [OF ok assms(2) b])
    have "routes_for q [m] = [b]" using True b by (simp add: routes_for_def)
    then show ?thesis
      using True assms(3) bounds f l unfolding len by (subst dump_scan.simps) simp
  next
    case False
    then have "routes_for q [m] = []" by (cases "nm_body m") (auto simp: routes_for_def)
    then show ?thesis
      using False assms(1,3) bounds f unfolding len goes_on_def by (subst dump_scan.simps) auto
  qed
qed

lemma routes_for_Cons: "routes_for q (m # ms) = routes_for q [m] @ routes_for q ms"
  by (simp add: routes_for_def)

lemma routes_for_append: "routes_for q (ms @ ms') = routes_for q ms @ routes_for q ms'"
  by (simp add: routes_for_def)

lemma dump_scan_prefix:
  assumes "\<forall>m\<in>set ms. goes_on q m" and "length p = off" and "0 \<le> r"
  shows "dump_scan E q (p @ datagram_bytes ms @ rest) off (int (length (datagram_bytes ms)) + r) routes =
    dump_scan E q (p @ datagram_bytes ms @ rest) (off + length (datagram_bytes ms)) r
      (routes @ concat (map (listed E) (routes_for q ms)))"
  using assms
proof (induction ms arbitrary: p off routes)
  case Nil
  then show ?case by (simp add: datagram_bytes_def routes_for_def)
next
  case (Cons m ms)
  have d: "datagram_bytes (m # ms) = message_bytes m @ datagram_bytes ms" by (simp add: datagram_bytes_def)
  let ?routes = "routes @ concat (map (listed E) (routes_for q [m]))"
  have "dump_scan E q (p @ message_bytes m @ datagram_bytes ms @ rest) off
      (int (length (message_bytes m)) + (int (length (datagram_bytes ms)) + r)) routes =
    dump_scan E q (p @ message_bytes m @ datagram_bytes ms @ rest) (off + length (message_bytes m))
      (int (length (datagram_bytes ms)) + r) ?routes"
    by (rule dump_scan_message) (use Cons.prems in simp_all)
  also have "\<dots> = dump_scan E q ((p @ message_bytes m) @ datagram_bytes ms @ rest) (off + length (message_bytes m))
      (int (length (datagram_bytes ms)) + r) ?routes" by simp
  also have "\<dots> = dump_scan E q ((p @ message_bytes m) @ datagram_bytes ms @ rest)
      (off + length (message_bytes m) + length (datagram_bytes ms)) r
      (?routes @ concat (map (listed E) (routes_for q ms)))"
    by (rule Cons.IH) (use Cons.prems in simp_all)
  finally show ?case by (simp add: d routes_for_Cons [of q m ms] add.assoc)
qed

lemma dump_scan_done:
  assumes "message_ok q m" and "nm_seq m = q" and "nm_type m = NLMSG_DONE" and "length p = off" and "0 \<le> r"
  shows "dump_scan E q (p @ message_bytes m @ rest) off (int (length (message_bytes m)) + r) routes = Dump_done routes"
proof -
  define n where "n = 16 + length (body_bytes (nm_body m))"
  have len: "length (message_bytes m) = align4 n" by (simp add: length_message_bytes n_def)
  have bounds: "16 \<le> n" "n \<le> align4 n" using align4_ge by (simp_all add: n_def)
  show ?thesis
    using assms(2,3,5) bounds message_fields [OF assms(1,4), of rest, folded n_def]
    unfolding len by (subst dump_scan.simps) simp
qed

lemma dump_scan_more:
  assumes "\<forall>m\<in>set ms. goes_on q m"
  shows "dump_scan E q (datagram_bytes ms) 0 (int (length (datagram_bytes ms))) routes =
    Dump_more (routes @ concat (map (listed E) (routes_for q ms)))"
  using dump_scan_prefix [OF assms, of "[]" 0 0 E "[]" routes] by (simp add: dump_scan.simps [where remaining = 0])

lemma dump_scan_last:
  assumes "\<forall>m\<in>set ms. goes_on q m" and "message_ok q d" and "nm_seq d = q" and "nm_type d = NLMSG_DONE"
  shows "dump_scan E q (datagram_bytes (ms @ d # rest)) 0 (int (length (datagram_bytes (ms @ d # rest)))) routes =
    Dump_done (routes @ concat (map (listed E) (routes_for q ms)))"
proof -
  let ?r = "datagram_bytes rest"
  have b: "datagram_bytes (ms @ d # rest) = datagram_bytes ms @ message_bytes d @ ?r" by (simp add: datagram_bytes_def)
  have "dump_scan E q (datagram_bytes (ms @ d # rest)) 0 (int (length (datagram_bytes (ms @ d # rest)))) routes =
      dump_scan E q (datagram_bytes ms @ message_bytes d @ ?r) (length (datagram_bytes ms))
        (int (length (message_bytes d)) + int (length ?r)) (routes @ concat (map (listed E) (routes_for q ms)))"
    using dump_scan_prefix [OF assms(1), of "[]" 0 "int (length (message_bytes d @ ?r))" E "message_bytes d @ ?r" routes]
    by (simp add: b)
  also have "\<dots> = Dump_done (routes @ concat (map (listed E) (routes_for q ms)))"
    by (rule dump_scan_done [OF assms(2-4)]) simp_all
  finally show ?thesis .
qed

subsection \<open>The receive loop\<close>

lemma nl_recv_quiet:
  "script s = [] \<Longrightarrow> length d \<le> n \<Longrightarrow> nl_recv n (d # ds) s = (Inr (d, ds), s)"
  by (simp add: nl_recv_def next_io_def)

lemma dump_receive_listed:
  assumes "script s = []" and "\<forall>ms\<in>set dgs. (\<forall>m\<in>set ms. goes_on q m) \<and> length (datagram_bytes ms) \<le> 16384"
    and "\<forall>m\<in>set ms. goes_on q m" and "message_ok q d" and "nm_seq d = q" and "nm_type d = NLMSG_DONE"
    and "length (datagram_bytes (ms @ d # after)) \<le> 16384"
  shows "dump_receive E q (map datagram_bytes dgs @ datagram_bytes (ms @ d # after) # later) routes s =
    (Inr (routes @ concat (map (listed E) (routes_for q (concat dgs @ ms)))), s)"
  using assms(2)
proof (induction dgs arbitrary: routes)
  case Nil
  then show ?case
    using nl_recv_quiet [OF assms(1,7)] dump_scan_last [OF assms(3-6), of E after routes] by simp
next
  case (Cons g dgs)
  have g: "\<forall>m\<in>set g. goes_on q m" "length (datagram_bytes g) \<le> 16384" using Cons.prems by auto
  show ?case
    using nl_recv_quiet [OF assms(1) g(2)] dump_scan_more [OF g(1), of E routes] Cons by (simp add: routes_for_append)
qed

end
