(* ===== verification/Netlink_Ack.thy ===== *)
theory Netlink_Ack
  imports Netlink_Dump
begin

text \<open>
  The request and its acknowledgement in terms of the messages of \<open>Netlink_Dump\<close>: what \<open>change_route\<close>
  sends is the encoding of one route message, and its loop finds the first \<open>NLMSG_ERROR\<close> message with
  the number of the request among whole messages. On a datagram that ends within a message the loop runs
  past the end, because \<open>NLMSG_OK\<close> is given the remaining length without its sign; the loop of the dump
  stops there.
\<close>

definition request_route :: "bytes \<Rightarrow> bytes \<Rightarrow> kernel_route" where
  "request_route dst gw =
     \<lparr>kr_family = word_of_nat AF_INET, kr_dst_len = 32, kr_table = word_of_nat RT_TABLE_MAIN,
      kr_protocol = word_of_nat RTPROT_STATIC, kr_type = word_of_nat RTN_UNICAST, kr_flags = 0,
      kr_attrs = [(RTA_DST, dst), (RTA_GATEWAY, gw)]\<rparr>"

definition request_message :: "nat \<Rightarrow> u32 \<Rightarrow> bytes \<Rightarrow> bytes \<Rightarrow> nl_message" where
  "request_message c q dst gw =
     \<lparr>nm_type = c, nm_seq = unat q, nm_flags = (if c = RTM_NEWROUTE then 1 + 4 + 1024 + 256 else 1 + 4),
      nm_pid = 0, nm_body = Route_body (request_route dst gw)\<rparr>"

lemma put_le_zero: "put_le n 0 = replicate n 0"
  by (induction n) simp_all

lemma le_value_zero: "le_value (replicate n 0) = 0"
  by (induction n) simp_all

lemma route_message_encodes:
  assumes "length dst = 4" and "length gw = 4"
  shows "route_message c q dst gw = Some (message_bytes (request_message c q dst gw))"
proof -
  have p: "padding 4 = []" "padding 28 = []" by (simp_all add: padding_def align4_def)
  have z: "put_le 4 0 = [0, 0, 0, (0 :: u8)]" by (simp add: put_le_zero numeral_eq_Suc)
  have "put_le 2 8 @ put_le 2 t @ data = attr_bytes (t, data)" if "length data = 4" for t data
    using that p by (simp add: attr_bytes_def)
  then show ?thesis
    unfolding route_message_bytes [OF assms]
    using assms p
    by (simp add: message_bytes_def Let_def request_message_def request_route_def route_body_def request_head_def
        attr_bytes_def z)
qed

lemma listed_request:
  assumes "length dst = 4" and "length gw = 4" and "inet_ntop E dst = Some d" and "inet_ntop E gw = Some g"
  shows "listed E (request_route dst gw) = [\<lparr>sr_ip = d, sr_gateway = g, sr_interface = []\<rparr>]"
  using assms by (simp add: listed_def request_route_def attr_of_def)

subsection \<open>The acknowledgement loop\<close>

definition not_ack :: "nat \<Rightarrow> nl_message \<Rightarrow> bool" where
  "not_ack q m \<longleftrightarrow> message_ok q m \<and> (nm_seq m = q \<longrightarrow> nm_type m \<noteq> NLMSG_ERROR)"

lemma ack_scan_message:
  assumes "not_ack q m" and "length p = off" and "0 \<le> r" and "int (length (message_bytes m)) + r < 2 ^ 32"
  shows "ack_scan q (p @ message_bytes m @ rest) off (int (length (message_bytes m)) + r) =
    ack_scan q (p @ message_bytes m @ rest) (off + length (message_bytes m)) r"
proof -
  have ok: "message_ok q m" using assms(1) by (simp add: not_ack_def)
  define n where "n = 16 + length (body_bytes (nm_body m))"
  have len: "length (message_bytes m) = align4 n" by (simp add: length_message_bytes n_def)
  have bounds: "16 \<le> n" "n \<le> align4 n" using align4_ge by (simp_all add: n_def)
  have u: "(int (align4 n) + r) mod 4294967296 = int (align4 n) + r"
    using assms(3,4) len by simp
  have big: "\<not> nat (int (align4 n) + r) < 16" "\<not> nat (int (align4 n) + r) < n" using bounds assms(3) by linarith+
  show ?thesis
    using assms(1) big bounds message_fields [OF ok assms(2), of rest, folded n_def]
    unfolding len not_ack_def by (subst ack_scan.simps) (auto simp: Let_def u)
qed

lemma ack_scan_prefix:
  assumes "\<forall>m\<in>set ms. not_ack q m" and "length p = off" and "0 \<le> r"
    and "int (length (datagram_bytes ms)) + r < 2 ^ 32"
  shows "ack_scan q (p @ datagram_bytes ms @ rest) off (int (length (datagram_bytes ms)) + r) =
    ack_scan q (p @ datagram_bytes ms @ rest) (off + length (datagram_bytes ms)) r"
  using assms
proof (induction ms arbitrary: p off)
  case Nil
  then show ?case by (simp add: datagram_bytes_def)
next
  case (Cons m ms)
  have d: "datagram_bytes (m # ms) = message_bytes m @ datagram_bytes ms" by (simp add: datagram_bytes_def)
  have "ack_scan q (p @ message_bytes m @ datagram_bytes ms @ rest) off
      (int (length (message_bytes m)) + (int (length (datagram_bytes ms)) + r)) =
    ack_scan q (p @ message_bytes m @ datagram_bytes ms @ rest) (off + length (message_bytes m))
      (int (length (datagram_bytes ms)) + r)"
    by (rule ack_scan_message) (use Cons.prems d in simp_all)
  also have "\<dots> = ack_scan q ((p @ message_bytes m) @ datagram_bytes ms @ rest) (off + length (message_bytes m))
      (int (length (datagram_bytes ms)) + r)" by simp
  also have "\<dots> = ack_scan q ((p @ message_bytes m) @ datagram_bytes ms @ rest)
      (off + length (message_bytes m) + length (datagram_bytes ms)) r"
    by (rule Cons.IH) (use Cons.prems d in simp_all)
  finally show ?case by (simp add: d add.assoc)
qed

text \<open>An acknowledgement: \<open>struct nlmsgerr\<close> is the code and what is echoed of the request.\<close>

definition ack_message :: "nat \<Rightarrow> nat \<Rightarrow> nat \<Rightarrow> nat \<Rightarrow> bytes \<Rightarrow> nl_message" where
  "ack_message q flags pid code echo =
     \<lparr>nm_type = NLMSG_ERROR, nm_seq = q, nm_flags = flags, nm_pid = pid,
      nm_body = Other_body (put_le 4 code @ echo)\<rparr>"

lemma ack_scan_found:
  assumes "q < 2 ^ 32" and "code < 2 ^ 32" and "length echo < 60000" and "length p = off" and "0 \<le> r"
    and "int (length (message_bytes (ack_message q fl pid code echo))) + r < 2 ^ 32"
  shows "ack_scan q (p @ message_bytes (ack_message q fl pid code echo) @ rest) off
    (int (length (message_bytes (ack_message q fl pid code echo))) + r) = Ack (signed32 code)"
proof -
  let ?m = "ack_message q fl pid code echo"
  have ok: "message_ok q ?m" using assms(1,3) by (simp add: message_ok_def ack_message_def)
  define n where "n = 16 + length (body_bytes (nm_body ?m))"
  have len: "length (message_bytes ?m) = align4 n" by (simp add: length_message_bytes n_def)
  have bounds: "16 \<le> n" "n \<le> align4 n" using align4_ge by (simp_all add: n_def)
  have u: "(int (align4 n) + r) mod 4294967296 = int (align4 n) + r"
    using assms(5,6) len by simp
  have big: "\<not> nat (int (align4 n) + r) < 16" "\<not> nat (int (align4 n) + r) < n" using bounds assms(5) by linarith+
  define h where "h = put_le 4 (20 + length echo) @ put_le 2 NLMSG_ERROR @ put_le 2 fl @ put_le 4 q @ put_le 4 pid"
  define t where "t = echo @ padding (4 + length echo) @ rest"
  have buf: "p @ message_bytes ?m @ rest = (p @ h) @ put_le 4 code @ t"
    by (simp add: message_bytes_def Let_def ack_message_def h_def t_def)
  have e: "get_field (p @ message_bytes ?m @ rest) (off + 16) 4 = Some code"
    unfolding buf using get_field_mid [of "p @ h" "off + 16" 4 code t] assms(2,4) by (simp add: h_def)
  have s: "nm_seq ?m = q" "nm_type ?m = NLMSG_ERROR" by (simp_all add: ack_message_def)
  show ?thesis
    using s e big bounds message_fields [OF ok assms(4), of rest, folded n_def]
    unfolding len by (subst ack_scan.simps) (auto simp: Let_def u)
qed

lemma ack_scan_datagram:
  assumes "\<forall>m\<in>set ms. not_ack q m" and "q < 2 ^ 32" and "code < 2 ^ 32"
    and "length (datagram_bytes (ms @ ack_message q fl pid code echo # rest)) \<le> 4096"
  shows "ack_scan q (datagram_bytes (ms @ ack_message q fl pid code echo # rest)) 0
    (int (length (datagram_bytes (ms @ ack_message q fl pid code echo # rest)))) = Ack (signed32 code)"
proof -
  let ?m = "ack_message q fl pid code echo" and ?r = "datagram_bytes rest"
  have b: "datagram_bytes (ms @ ?m # rest) = datagram_bytes ms @ message_bytes ?m @ ?r" by (simp add: datagram_bytes_def)
  have "length echo \<le> length (message_bytes ?m)" by (simp add: message_bytes_def Let_def ack_message_def)
  then have short: "length echo < 60000" using assms(4) b by simp
  have "ack_scan q (datagram_bytes (ms @ ?m # rest)) 0 (int (length (datagram_bytes (ms @ ?m # rest)))) =
      ack_scan q (datagram_bytes ms @ message_bytes ?m @ ?r) (length (datagram_bytes ms))
        (int (length (message_bytes ?m)) + int (length ?r))"
    using ack_scan_prefix [OF assms(1), of "[]" 0 "int (length (message_bytes ?m @ ?r))" "message_bytes ?m @ ?r"] assms(4)
    by (simp add: b)
  also have "\<dots> = Ack (signed32 code)"
    by (rule ack_scan_found [OF assms(2,3) short]) (use assms(4) b in simp_all)
  finally show ?thesis .
qed

subsection \<open>A datagram cut short\<close>

definition odd_datagram :: bytes where
  "odd_datagram = put_le 4 17 @ replicate 13 0"

lemma odd_datagram_fields:
  "get_field odd_datagram 0 4 = Some 17" "get_field odd_datagram 4 2 = Some 0" "get_field odd_datagram 8 4 = Some 0"
  "get_field odd_datagram 20 4 = None" "length odd_datagram = 17" "align4 17 = 20"
  using get_field_mid [of "[]" 0 4 17 "replicate 13 0"]
  by (simp_all add: odd_datagram_def get_field_def get_bytes_def align4_def le_value_zero)

lemma ack_scan_runs_past: "ack_scan 1 odd_datagram 0 (int (length odd_datagram)) = Ack_overrun"
proof -
  have "ack_scan 1 odd_datagram 20 (-3) = Ack_overrun"
    by (subst ack_scan.simps) (simp add: odd_datagram_fields)
  then show ?thesis by (subst ack_scan.simps) (simp add: odd_datagram_fields)
qed

lemma dump_scan_stops: "dump_scan E 1 odd_datagram 0 (int (length odd_datagram)) [] = Dump_more []"
proof -
  have "dump_scan E 1 odd_datagram 20 (-3) [] = Dump_more []" by (subst dump_scan.simps) simp
  then show ?thesis by (subst dump_scan.simps) (simp add: odd_datagram_fields)
qed

end
