(* ===== verification/Netlink_Properties.thy ===== *)
theory Netlink_Properties
  imports Netlink_Ack Example_Env
begin

text \<open>
  The properties of the \<open>NETLINK_ROUTE\<close> operations: what they send, and what they make of the answers
  of a kernel that sends whole messages.
\<close>

subsection \<open>The request\<close>

text \<open>
  C7: the request that is built with byte offsets and \<open>add_attribute\<close> is, for every command, number and
  pair of addresses, the encoding of one route message: the destination with prefix length 32, static, in
  the main table, through the gateway. It fits the buffer, so the error for a large message cannot occur,
  and a kernel that dumps that route makes the parser list exactly the pair that was requested.
\<close>

theorem request_lists_back:
  assumes "length dst = 4" and "length gw = 4" and "inet_ntop E dst = Some d" and "inet_ntop E gw = Some g"
  shows "route_message c q dst gw = Some (message_bytes (request_message c q dst gw)) \<and>
    length (message_bytes (request_message c q dst gw)) = 44 \<and>
    listed E (request_route dst gw) = [\<lparr>sr_ip = d, sr_gateway = g, sr_interface = []\<rparr>]"
  using route_message_encodes [OF assms(1,2)] listed_request [OF assms] assms(1,2)
  by (simp add: length_message_bytes request_message_def request_route_def route_body_def attr_bytes_def padding_def
      align4_def)

theorem request_lists_back_witness:
  "route_message RTM_NEWROUTE 7 [10, 0, 0, 1] [192, 168, 1, 1] =
     Some (message_bytes (request_message RTM_NEWROUTE 7 [10, 0, 0, 1] [192, 168, 1, 1]))"
proof -
  have n: "inet_ntop demo_env [10, 0, 0, 1] = Some ''10.0.0.1''"
      "inet_ntop demo_env [192, 168, 1, 1] = Some ''192.168.1.1''" by code_simp+
  show ?thesis using request_lists_back [OF _ _ n, of RTM_NEWROUTE 7] by simp
qed

subsection \<open>The answer\<close>

text \<open>A kernel with a fixed answer, a message for somebody else, and a static host route.\<close>

definition answering_env :: "bytes list \<Rightarrow> unit env" where
  "answering_env answer = demo_env\<lparr>platform_of := Linux, nl_serve := (\<lambda>m k. (answer, k))\<rparr>"

definition foreign_message :: nl_message where
  "foreign_message = \<lparr>nm_type = RTM_NEWROUTE, nm_seq = 99, nm_flags = 0, nm_pid = 0, nm_body = Other_body [1, 2, 3]\<rparr>"

definition done_message :: nl_message where
  "done_message = \<lparr>nm_type = NLMSG_DONE, nm_seq = 1, nm_flags = 2, nm_pid = 0, nm_body = Other_body [0, 0, 0, 0]\<rparr>"

definition demo_answer :: "nl_message list" where
  "demo_answer =
     [request_message RTM_NEWROUTE 1 [10, 0, 0, 1] [192, 168, 1, 1], foreign_message,
      request_message RTM_NEWROUTE 1 [10, 0, 0, 2] [192, 168, 1, 1]]"


lemma answering_serve [simp]:
  "nl_serve (answering_env a) m k = (a, k)" "platform_of (answering_env a) = Linux"
  by (simp_all add: answering_env_def)

lemma demo_start [simp]: "script demo_state = []" "route_sequence demo_state = 0"
  by (simp_all add: demo_state_def)



text \<open>
  C5: the listing of the system's routes is exact. When no call fails and the kernel answers the dump
  request with datagrams of whole messages, split in any way, ended by a \<open>NLMSG_DONE\<close> with the number of
  the request, the list is what the route messages with that number contribute, in order: the static host
  routes of the main table that have a destination and a gateway, with the values of the last attributes
  of each type; attributes and messages of any other kind are passed over, as is what follows the end.
\<close>

theorem system_listing_exact:
  fixes s :: "('k, 'z) net_s"
  assumes "platform_of E = Linux" and "script s = []" and "q = unat (route_sequence s + 1)"
    and "nl_serve E (dump_request (route_sequence s + 1)) (kernel s) =
      (map datagram_bytes dgs @ datagram_bytes (ms @ d # after) # later, k')"
    and "\<forall>ms\<in>set dgs. (\<forall>m\<in>set ms. goes_on q m) \<and> length (datagram_bytes ms) \<le> 16384"
    and "\<forall>m\<in>set ms. goes_on q m" and "message_ok q d" and "nm_seq d = q" and "nm_type d = NLMSG_DONE"
    and "length (datagram_bytes (ms @ d # after)) \<le> 16384"
  shows "fst (list_system_routes E s) = Inr (concat (map (listed E) (routes_for q (concat dgs @ ms))))"
proof -
  let ?s = "s\<lparr>route_sequence := route_sequence s + 1, open_fds := open_fds s + 1, kernel := k'\<rparr>"
  have "script ?s = []" using assms(2) by simp
  from dump_receive_listed [OF this assms(5-10), of E later "[]"] show ?thesis
    using assms(1-4)
    by (simp add: list_system_routes_def list_system_routes_linux_def next_sequence_def nl_open_def open_fd_def
        next_io_def nl_send_def)
qed

theorem system_listing_exact_witness:
  "fst (list_system_routes (answering_env [datagram_bytes demo_answer, datagram_bytes [done_message]]) demo_state) =
     Inr [\<lparr>sr_ip = ''10.0.0.1'', sr_gateway = ''192.168.1.1'', sr_interface = []\<rparr>,
          \<lparr>sr_ip = ''10.0.0.2'', sr_gateway = ''192.168.1.1'', sr_interface = []\<rparr>]"
proof -
  let ?E = "answering_env [datagram_bytes demo_answer, datagram_bytes [done_message]]"
  have ok: "\<forall>ms\<in>set [demo_answer]. (\<forall>m\<in>set ms. goes_on 1 m) \<and> length (datagram_bytes ms) \<le> 16384"
    by (simp add: goes_on_def message_ok_def demo_answer_def foreign_message_def request_message_def request_route_def
        datagram_bytes_def length_message_bytes align4_def route_body_def attr_ok_def attr_bytes_def padding_def)
  have d: "message_ok 1 done_message" "nm_seq done_message = 1" "nm_type done_message = NLMSG_DONE"
    "length (datagram_bytes ([] @ done_message # [])) \<le> 16384"
    by (simp_all add: message_ok_def done_message_def datagram_bytes_def length_message_bytes align4_def)
  have r: "routes_for 1 (concat [demo_answer] @ []) =
      [request_route [10, 0, 0, 1] [192, 168, 1, 1], request_route [10, 0, 0, 2] [192, 168, 1, 1]]"
    by (simp add: routes_for_def demo_answer_def foreign_message_def request_message_def)
  have n: "inet_ntop ?E [10, 0, 0, 1] = Some ''10.0.0.1''" "inet_ntop ?E [10, 0, 0, 2] = Some ''10.0.0.2''"
    "inet_ntop ?E [192, 168, 1, 1] = Some ''192.168.1.1''" for E
  proof -
    have "show_address [10, 0, 0, 1] = Some ''10.0.0.1''" "show_address [10, 0, 0, 2] = Some ''10.0.0.2''"
      "show_address [192, 168, 1, 1] = Some ''192.168.1.1''" by code_simp+
    then show "inet_ntop ?E [10, 0, 0, 1] = Some ''10.0.0.1''" "inet_ntop ?E [10, 0, 0, 2] = Some ''10.0.0.2''"
      "inet_ntop ?E [192, 168, 1, 1] = Some ''192.168.1.1''" by (simp_all add: answering_env_def demo_env_def)
  qed
  have "fst (list_system_routes ?E demo_state) =
      Inr (concat (map (listed ?E) (routes_for 1 (concat [demo_answer] @ []))))"
    by (rule system_listing_exact [OF _ _ _ _ ok _ d, where k' = "kernel demo_state" and later = "[]"]) simp_all
  then show ?thesis unfolding r by (simp add: listed_request n)
qed

end
