(* ===== verification/Geoip_Router.thy ===== *)
theory Geoip_Router
  imports Http_Service
begin

text \<open>
  The country filter of \<open>dns-gate\<close> (\<open>dns-gate/geoip_router.cpp\<close>) and the environment of that process.
  The ACL string methods, the MaxMind database library, the DNS codec and the sockets are the record
  \<open>genv\<close>, a parameter; the globals of the process extend the state shared with the operating system.
  The log of events has what the process sends: DNS queries, route requests and DNS replies.
\<close>

subsection \<open>Code outside the repository\<close>

text \<open>\<open>MMDB_lookup_result_s\<close> with the two error codes, and \<open>MMDB_entry_data_s\<close>.\<close>

record mmdb_result =
  gai_error :: int
  mmdb_error :: int
  found_entry :: bool
  entry :: nat

record mmdb_data =
  has_data :: bool
  data_type :: nat
  utf8_string :: string

record dns_response =
  qid :: u32
  addrs4a :: "string list"
  cnames :: "string list"

abbreviation (input) MMDB_SUCCESS :: int where "MMDB_SUCCESS \<equiv> 0"

abbreviation (input) MMDB_DATA_TYPE_UTF8_STRING :: nat where "MMDB_DATA_TYPE_UTF8_STRING \<equiv> 2"

text \<open>
  \<^item> \<open>ga_lower\<close>, \<open>ga_trim_space\<close>, \<open>ga_split2\<close>, \<open>ga_url_encode\<close>: methods of \<open>acl::string\<close>;
  \<^item> \<open>mmdb_open\<close>: the status of opening a file; \<open>mmdb_lookup_string\<close> and \<open>mmdb_country\<close>: a lookup in
    the database that was opened from a path, and \<open>MMDB_get_value\<close> for \<open>country/iso_code\<close>;
  \<^item> \<open>parse_request\<close>: identifier and name of a DNS query; \<open>build_query\<close>: the bytes of an \<open>A\<close> query;
    \<open>parse_reply\<close>: the response in a datagram;
  \<^item> \<open>dns_serve\<close>: the datagram the upstream server lets arrive after a query;
  \<^item> \<open>post\<close>: a \<open>POST\<close> without body to an address, with a timeout, for a URL;
  \<^item> \<open>last_serror\<close>: the text of an errno.
\<close>

record 'k genv =
  ga_lower :: "string \<Rightarrow> string"
  ga_trim_space :: "string \<Rightarrow> string"
  ga_split2 :: "string \<Rightarrow> string \<Rightarrow> string list"
  ga_url_encode :: "string \<Rightarrow> string"
  mmdb_open :: "string \<Rightarrow> 'k \<Rightarrow> int"
  mmdb_lookup_string :: "string \<Rightarrow> string \<Rightarrow> mmdb_result"
  mmdb_country :: "string \<Rightarrow> nat \<Rightarrow> int \<times> mmdb_data"
  parse_request :: "string \<Rightarrow> (u32 \<times> string) option"
  build_query :: "string \<Rightarrow> u32 \<Rightarrow> string"
  parse_reply :: "string \<Rightarrow> dns_response option"
  dns_serve :: "string \<Rightarrow> string \<Rightarrow> 'k \<Rightarrow> string \<times> 'k"
  post :: "string \<Rightarrow> int \<Rightarrow> string \<Rightarrow> 'k \<Rightarrow> upstream \<times> 'k"
  last_serror :: "nat \<Rightarrow> string"

subsection \<open>State\<close>

datatype gate_event =
  Query string
| Route_request string string
| Dns_reply string string

record 'k gate = "'k os" +
  country_database :: string
  database_open :: bool
  routing_enabled :: bool
  routed_countries :: "string list"
  ip_router_addr :: string
  route_gateway :: string
  request_timeout :: int
  route_ttl :: int
  query_sequence :: u32
  events :: "gate_event list"

type_synonym ('k, 'z) gate_s = "('k, 'z) gate_scheme"

definition log_event :: "gate_event \<Rightarrow> ('k, 'z) gate_s \<Rightarrow> ('k, 'z) gate_s" where
  "log_event e s = s\<lparr>events := events s @ [e]\<rparr>"

subsection \<open>Countries\<close>

definition uppercase :: "string \<Rightarrow> string" where
  "uppercase v = map toupper v"

text \<open>The loop of \<open>parse_countries\<close>; a code that has not two letters is only logged.\<close>

fun insert_countries :: "string list \<Rightarrow> string list \<Rightarrow> string list" where
  "insert_countries [] countries = countries"
| "insert_countries (v # vs) countries =
     (let country = uppercase v in
      insert_countries vs (if length country = 2 then set_insert country countries else countries))"

definition country_separators :: string where
  "country_separators = '',; '' @ [tab, CHR 13, newline]"

definition parse_countries :: "'k genv \<Rightarrow> string option \<Rightarrow> string list" where
  "parse_countries G v =
     insert_countries (ga_split2 G (case v of None \<Rightarrow> [] | Some t \<Rightarrow> t) country_separators) []"

text \<open>\<open>None\<close> is every way in which \<open>lookup_country\<close> returns false.\<close>

definition lookup_country :: "'k genv \<Rightarrow> ('k, 'z) gate_s \<Rightarrow> string \<Rightarrow> string option" where
  "lookup_country G s ip =
     (let r = mmdb_lookup_string G (country_database s) ip in
      if gai_error r \<noteq> 0 then None
      else if mmdb_error r \<noteq> MMDB_SUCCESS then None
      else if \<not> found_entry r then None
      else
        let (status, d) = mmdb_country G (country_database s) (entry r) in
        if status \<noteq> MMDB_SUCCESS then None
        else if \<not> has_data d \<or> data_type d \<noteq> MMDB_DATA_TYPE_UTF8_STRING then None
        else Some (uppercase (utf8_string d)))"

subsection \<open>The request to ip-router\<close>

definition append_encoded_parameter :: "'k genv \<Rightarrow> string \<Rightarrow> string \<Rightarrow> string \<Rightarrow> bool \<Rightarrow> string" where
  "append_encoded_parameter G url name v first =
     url @ [if first then CHR ''?'' else CHR ''&''] @ name @ ''='' @ ga_url_encode G v"

text \<open>The addresses, separated by commas.\<close>

fun join_addresses :: "string \<Rightarrow> string list \<Rightarrow> string" where
  "join_addresses values [] = values"
| "join_addresses values (a # as) =
     join_addresses ((if values \<noteq> [] then values @ '','' else values) @ c_str a) as"

definition route_url :: "'k genv \<Rightarrow> ('k, 'z) gate_s \<Rightarrow> string \<Rightarrow> string list \<Rightarrow> string" where
  "route_url G s name addresses =
     (let values = join_addresses [] addresses;
          key = ga_lower G name;
          u1 = append_encoded_parameter G ''/route'' ''key'' (c_str key) True;
          u2 = append_encoded_parameter G u1 ''ips'' (c_str values) False;
          u3 = append_encoded_parameter G u2 ''gateway'' (c_str (route_gateway s)) False
      in append_encoded_parameter G u3 ''ttl'' (show_int (route_ttl s)) False)"

definition add_routes :: "'k genv \<Rightarrow> string \<Rightarrow> string list \<Rightarrow> ('k, 'z) gate_s \<Rightarrow> bool \<times> ('k, 'z) gate_s" where
  "add_routes G name addresses s =
     (let url = route_url G s name addresses;
          (answer, k) = post G (c_str (ip_router_addr s)) (request_timeout s) url (kernel s);
          s1 = log_event (Route_request (c_str (ip_router_addr s)) url) (s\<lparr>kernel := k\<rparr>)
      in case answer of
        Unreachable e \<Rightarrow> (False, s1)
      | Response status None \<Rightarrow> (False, s1)
      | Response status (Some body) \<Rightarrow> (status = 200, s1))"

subsection \<open>Operations\<close>

definition geoip_router_stop :: "('k, 'z) gate_s \<Rightarrow> ('k, 'z) gate_s" where
  "geoip_router_stop s = s\<lparr>database_open := False, routing_enabled := False\<rparr>"

definition geoip_router_start ::
  "'k genv \<Rightarrow> string option \<Rightarrow> string option \<Rightarrow> string option \<Rightarrow> string option \<Rightarrow> int \<Rightarrow> int
     \<Rightarrow> ('k, 'z) gate_s \<Rightarrow> bool \<times> ('k, 'z) gate_s" where
  "geoip_router_start G database_path countries router_addr gateway timeout ttl s =
     (let s1 = (geoip_router_stop s)
            \<lparr>routed_countries := parse_countries G countries,
             ip_router_addr := (case router_addr of None \<Rightarrow> [] | Some a \<Rightarrow> a),
             route_gateway := (case gateway of None \<Rightarrow> [] | Some g \<Rightarrow> g),
             request_timeout := timeout, route_ttl := ttl, routing_enabled := False\<rparr>
      in case database_path of
        None \<Rightarrow> (False, s1)
      | Some path \<Rightarrow>
          if path = [] then (False, s1)
          else if mmdb_open G path (kernel s1) \<noteq> MMDB_SUCCESS then (False, s1)
          else
            (True, s1\<lparr>country_database := path, database_open := True,
                      routing_enabled := (routed_countries s1 \<noteq> [] \<and> ip_router_addr s1 \<noteq> []
                        \<and> route_gateway s1 \<noteq> [])\<rparr>))"

text \<open>The loop of \<open>geoip_route_dns_result\<close>; \<open>unique\<close> has the addresses pushed so far.\<close>

fun matched_from :: "'k genv \<Rightarrow> ('k, 'z) gate_s \<Rightarrow> string list \<Rightarrow> string list \<Rightarrow> string list" where
  "matched_from G s unique [] = []"
| "matched_from G s unique (a # as) =
     (case lookup_country G s (c_str a) of
        None \<Rightarrow> matched_from G s unique as
      | Some country \<Rightarrow>
          if country \<in> set (routed_countries s) \<and> c_str a \<notin> set unique
          then c_str a # matched_from G s (c_str a # unique) as
          else matched_from G s unique as)"

definition geoip_route_dns_result ::
  "'k genv \<Rightarrow> string option \<Rightarrow> dns_response \<Rightarrow> ('k, 'z) gate_s \<Rightarrow> ('k, 'z) gate_s" where
  "geoip_route_dns_result G name response s =
     (if \<not> database_open s \<or> \<not> routing_enabled s \<or> name = None \<or> name = Some [] then s
      else
        let matched = matched_from G s [] (addrs4a response) in
        if matched \<noteq> [] then snd (add_routes G (the name) matched s) else s)"

definition geoip_database_ready :: "('k, 'z) gate_s \<Rightarrow> bool" where
  "geoip_database_ready s = database_open s"

definition geoip_routing_ready :: "('k, 'z) gate_s \<Rightarrow> bool" where
  "geoip_routing_ready s = routing_enabled s"

text \<open>The result, the country and the flag \<open>route_matched\<close>.\<close>

definition geoip_lookup_address :: "'k genv \<Rightarrow> ('k, 'z) gate_s \<Rightarrow> string option \<Rightarrow> bool \<times> string \<times> bool" where
  "geoip_lookup_address G s ip =
     (if \<not> database_open s \<or> ip = None \<or> ip = Some [] then (False, [], False)
      else case lookup_country G s (the ip) of
        None \<Rightarrow> (False, [], False)
      | Some country \<Rightarrow> (True, country, country \<in> set (routed_countries s)))"

end
