(* ===== verification/Dgate_Service.thy ===== *)
theory Dgate_Service
  imports Geoip_Router
begin

text \<open>
  The DNS proxy of \<open>dns-gate\<close> (\<open>dns-gate/dgate_service.cpp\<close> and \<open>on_read\<close> of its
  \<open>master_service.cpp\<close>). \<open>handle_request\<close> runs in a fiber of its own and is cut here at the calls
  where fibers switch: \<open>ask\<close> sends the query upstream, \<open>hear\<close> reads the answer, \<open>route\<close> has the
  routes added, \<open>answer\<close> replies to the client.
\<close>

record gate_config =
  upstream_addr :: string

record request_message =
  peer_addr :: string
  message_data :: string

subsection \<open>Talking to the upstream server\<close>

text \<open>
  \<open>bind_udp\<close>, \<open>sendto\<close>; the datagram that will arrive is the environment's. \<open>Inl (b, e)\<close>: the binding
  (\<open>b\<close>) or the sending failed.
\<close>

definition send_query ::
  "'k genv \<Rightarrow> gate_config \<Rightarrow> string \<Rightarrow> ('k, 'z) gate_s \<Rightarrow> (bool \<times> nat, string, ('k, 'z) gate_s) result" where
  "send_query G cf query s =
     (case next_io s of
        (Fault e, s1) \<Rightarrow> (Inl (True, e), s1)
      | (Done, s1) \<Rightarrow>
          (case next_io s1 of
             (Fault e, s2) \<Rightarrow> (Inl (False, e), s2)
           | (Done, s2) \<Rightarrow>
               (let (d, k) = dns_serve G (upstream_addr cf) query (kernel s2)
                in (Inr d, log_event (Query query) (s2\<lparr>kernel := k\<rparr>)))))"

text \<open>\<open>read\<close> into the 65536 bytes of \<open>reply\<close>.\<close>

definition read_reply :: "string \<Rightarrow> ('k, 'z) gate_s \<Rightarrow> (nat, string, ('k, 'z) gate_s) result" where
  "read_reply datagram s =
     (case next_io s of
        (Fault e, s1) \<Rightarrow> (Inl e, s1)
      | (Done, s1) \<Rightarrow> (Inr (take 65536 datagram), s1))"

subsection \<open>One request\<close>

text \<open>What a fiber holds between two of its steps.\<close>

datatype fiber =
  Received request_message
| Waiting request_message u32 string string
| Answered request_message string dns_response string
| Routed request_message string dns_response string
| Finished request_message bool

definition ask :: "'k genv \<Rightarrow> gate_config \<Rightarrow> request_message \<Rightarrow> ('k, 'z) gate_s \<Rightarrow> fiber \<times> ('k, 'z) gate_s" where
  "ask G cf m s =
     (case parse_request G (message_data m) of
        None \<Rightarrow> (Finished m False, s)
      | Some (q, name) \<Rightarrow>
          (case send_query G cf (message_data m) s of
             (Inl _, s1) \<Rightarrow> (Finished m False, s1)
           | (Inr datagram, s1) \<Rightarrow> (Waiting m q name datagram, s1)))"

definition hear ::
  "'k genv \<Rightarrow> request_message \<Rightarrow> u32 \<Rightarrow> string \<Rightarrow> string \<Rightarrow> ('k, 'z) gate_s \<Rightarrow> fiber \<times> ('k, 'z) gate_s" where
  "hear G m q name datagram s =
     (case read_reply datagram s of
        (Inl _, s1) \<Rightarrow> (Finished m False, s1)
      | (Inr reply, s1) \<Rightarrow>
          (case parse_reply G reply of
             None \<Rightarrow> (Finished m False, s1)
           | Some response \<Rightarrow>
               if qid response \<noteq> q then (Finished m False, s1)
               else (Answered m name response reply, s1)))"

text \<open>The client's socket is the one the message came in on, so only the address matters.\<close>

definition answer :: "request_message \<Rightarrow> string \<Rightarrow> ('k, 'z) gate_s \<Rightarrow> fiber \<times> ('k, 'z) gate_s" where
  "answer m reply s =
     (case next_io s of
        (Fault _, s1) \<Rightarrow> (Finished m False, s1)
      | (Done, s1) \<Rightarrow> (Finished m True, log_event (Dns_reply (peer_addr m) reply) s1))"

fun fiber_step :: "'k genv \<Rightarrow> gate_config \<Rightarrow> fiber \<Rightarrow> ('k, 'z) gate_s \<Rightarrow> fiber \<times> ('k, 'z) gate_s" where
  "fiber_step G cf (Received m) s = ask G cf m s"
| "fiber_step G cf (Waiting m q name datagram) s = hear G m q name datagram s"
| "fiber_step G cf (Answered m name response reply) s =
     (Routed m name response reply, geoip_route_dns_result G (Some name) response s)"
| "fiber_step G cf (Routed m name response reply) s = answer m reply s"
| "fiber_step G cf (Finished m b) s = (Finished m b, s)"

text \<open>\<open>handle_request\<close> in one piece.\<close>

definition handle_request ::
  "'k genv \<Rightarrow> gate_config \<Rightarrow> request_message \<Rightarrow> ('k, 'z) gate_s \<Rightarrow> ('k, 'z) gate_s" where
  "handle_request G cf m s =
     (case parse_request G (message_data m) of
        None \<Rightarrow> s
      | Some (q, name) \<Rightarrow>
          (case send_query G cf (message_data m) s of
             (Inl _, s1) \<Rightarrow> s1
           | (Inr datagram, s1) \<Rightarrow>
               (case read_reply datagram s1 of
                  (Inl _, s2) \<Rightarrow> s2
                | (Inr reply, s2) \<Rightarrow>
                    (case parse_reply G reply of
                       None \<Rightarrow> s2
                     | Some response \<Rightarrow>
                         if qid response \<noteq> q then s2
                         else
                           let s3 = geoip_route_dns_result G (Some name) response s2 in
                           (case next_io s3 of
                              (Fault _, s4) \<Rightarrow> s4
                            | (Done, s4) \<Rightarrow> log_event (Dns_reply (peer_addr m) reply) s4)))))"

subsection \<open>A lookup for the HTTP service\<close>

text \<open>The counter is 32 bits wide, the identifier its low 16 bits; it wraps.\<close>

definition next_query :: "('k, 'z) gate_s \<Rightarrow> u32 \<times> ('k, 'z) gate_s" where
  "next_query s = (take_bit 16 (query_sequence s), s\<lparr>query_sequence := query_sequence s + 1\<rparr>)"

definition dgate_resolve_domain ::
  "'k genv \<Rightarrow> gate_config \<Rightarrow> string \<Rightarrow> ('k, 'z) gate_s \<Rightarrow> (string, dns_response, ('k, 'z) gate_s) result" where
  "dgate_resolve_domain G cf name s =
     (let (q, s0) = next_query s;
          query = build_query G name q in
      if query = [] then (Inl ''failed to build DNS query'', s0)
      else case send_query G cf query s0 of
        (Inl (True, e), s1) \<Rightarrow> (Inl (''bind UDP socket failed: '' @ last_serror G e), s1)
      | (Inl (False, e), s1) \<Rightarrow>
          (Inl (''send DNS query to '' @ upstream_addr cf @ '' failed: '' @ last_serror G e), s1)
      | (Inr datagram, s1) \<Rightarrow>
          (case read_reply datagram s1 of
             (Inl e, s2) \<Rightarrow>
               (Inl (''read DNS response from '' @ upstream_addr cf @ '' failed: '' @ last_serror G e), s2)
           | (Inr reply, s2) \<Rightarrow>
               (case parse_reply G reply of
                  None \<Rightarrow> (Inl ''invalid DNS response'', s2)
                | Some response \<Rightarrow>
                    if qid response \<noteq> q then (Inl ''DNS response id mismatch'', s2)
                    else (Inr response, s2))))"

subsection \<open>The process\<close>

text \<open>
  The box of messages, the fibers the consumer has started, in that order, and the shared state.
  \<open>on_read\<close> pushes a datagram unless the read failed; \<open>lookup\<close> is a lookup of the HTTP service, which has
  a thread of its own; \<open>world\<close> is whatever else goes on: failures, the clock, other machines.
\<close>

record 'k gsys =
  box :: "request_message list"
  fibers :: "fiber list"
  shared :: "'k gate"

definition on_read :: "request_message option \<Rightarrow> 'k gsys \<Rightarrow> 'k gsys" where
  "on_read r S = (case r of None \<Rightarrow> S | Some m \<Rightarrow> S\<lparr>box := box S @ [m]\<rparr>)"

inductive gstep :: "'k genv \<Rightarrow> gate_config \<Rightarrow> 'k gsys \<Rightarrow> 'k gsys \<Rightarrow> bool"
  for G :: "'k genv" and cf :: gate_config where
  arrive: "gstep G cf S (on_read r S)"
| consume: "box S = m # ms \<Longrightarrow> gstep G cf S (S\<lparr>box := ms, fibers := fibers S @ [Received m]\<rparr>)"
| run: "i < length (fibers S) \<Longrightarrow> fiber_step G cf (fibers S ! i) (shared S) = (f, s') \<Longrightarrow>
    gstep G cf S (S\<lparr>fibers := (fibers S)[i := f], shared := s'\<rparr>)"
| lookup: "dgate_resolve_domain G cf name (shared S) = (r, s') \<Longrightarrow> gstep G cf S (S\<lparr>shared := s'\<rparr>)"
| world: "gstep G cf S (S\<lparr>shared := (shared S)\<lparr>kernel := k, script := sc, clock := t, query_sequence := q\<rparr>\<rparr>)"

inductive greachable :: "'k genv \<Rightarrow> gate_config \<Rightarrow> 'k gate \<Rightarrow> 'k gsys \<Rightarrow> bool"
  for G :: "'k genv" and cf :: gate_config and s0 :: "'k gate" where
  gstart: "greachable G cf s0 \<lparr>box = [], fibers = [], shared = s0\<rparr>"
| gmore: "greachable G cf s0 S \<Longrightarrow> gstep G cf S S' \<Longrightarrow> greachable G cf s0 S'"

end
