(* ===== verification/Dns_Http.thy ===== *)
theory Dns_Http
  imports Dgate_Service Domain_Manager
begin

text \<open>
  The diagnostic HTTP service of \<open>dns-gate\<close> (\<open>dns-gate/dns_http_service.cpp\<close>). Requests and replies
  are those of \<open>Http_Service\<close>; the servlet has only \<open>doGet\<close>.
\<close>

definition gate_json_type :: string where
  "gate_json_type = ''application/json; charset=utf-8''"

definition gate_json :: "int \<Rightarrow> (string \<times> json) list \<Rightarrow> reply" where
  "gate_json status members =
     \<lparr>rp_status = status, rp_type = gate_json_type, rp_length = None, rp_body = Json_body (JObject members)\<rparr>"

text \<open>
  The loop of \<open>normalize_domain\<close> and its final test; \<open>previous\<close> is the character before, \<open>n\<close> the length
  of the label so far.
\<close>

fun label_loop :: "char \<Rightarrow> nat \<Rightarrow> string \<Rightarrow> bool" where
  "label_loop previous n [] \<longleftrightarrow> n > 0 \<and> n \<le> 63 \<and> previous \<noteq> CHR ''-''"
| "label_loop previous n (c # cs) \<longleftrightarrow>
     (if c = CHR ''.''
      then \<not> (n = 0 \<or> n > 63 \<or> previous = CHR ''-'') \<and> label_loop c 0 cs
      else \<not> ((\<not> isalnum c \<and> c \<noteq> CHR ''-'') \<or> (n = 0 \<and> c = CHR ''-'')) \<and> label_loop c (Suc n) cs)"

definition normalize_domain :: "'k genv \<Rightarrow> string option \<Rightarrow> string option" where
  "normalize_domain G v =
     (let domain = trim_dots (ga_lower G (ga_trim_space G (case v of None \<Rightarrow> [] | Some t \<Rightarrow> t))) in
      if domain = [] \<or> length domain > 253 then None
      else if label_loop nul 0 domain then Some domain else None)"

definition write_error :: "int \<Rightarrow> string \<Rightarrow> ('k, 'z) os_scheme \<Rightarrow> (bool \<times> reply) \<times> ('k, 'z) os_scheme" where
  "write_error status message =
     write_reply (gate_json status [(''success'', JBool False), (''message'', JText message)])"

text \<open>One address of the reply, and the count of those whose country is routed.\<close>

definition address_item :: "'k genv \<Rightarrow> ('k, 'z) gate_s \<Rightarrow> string \<Rightarrow> json" where
  "address_item G s a =
     (let (country_found, country, route_matched) = geoip_lookup_address G s (Some (c_str a))
      in JObject [(''ip'', JText (c_str a)), (''country_found'', JBool country_found),
                  (''country'', JText (c_str country)), (''route_matched'', JBool route_matched)])"

fun matched_count :: "'k genv \<Rightarrow> ('k, 'z) gate_s \<Rightarrow> string list \<Rightarrow> int" where
  "matched_count G s [] = 0"
| "matched_count G s (a # as) =
     (if snd (snd (geoip_lookup_address G s (Some (c_str a)))) then 1 else 0) + matched_count G s as"

definition would_route :: "'k genv \<Rightarrow> ('k, 'z) gate_s \<Rightarrow> dns_response \<Rightarrow> bool" where
  "would_route G s response \<longleftrightarrow> matched_count G s (addrs4a response) > 0 \<and> geoip_routing_ready s"

definition lookup_members ::
  "'k genv \<Rightarrow> gate_config \<Rightarrow> string \<Rightarrow> dns_response \<Rightarrow> ('k, 'z) gate_s \<Rightarrow> (string \<times> json) list" where
  "lookup_members G cf domain response s =
     [(''success'', JBool True), (''domain'', JText (c_str domain)),
      (''upstream'', JText (upstream_addr cf)),
      (''database_ready'', JBool (geoip_database_ready s)),
      (''routing_ready'', JBool (geoip_routing_ready s)),
      (''count'', JNumber (int (length (addrs4a response)))),
      (''matched_count'', JNumber (matched_count G s (addrs4a response))),
      (''would_route'', JBool (would_route G s response)),
      (''cnames'', JArray (map (\<lambda>n. JObject [(''name'', JText (c_str n))]) (cnames response))),
      (''addresses'', JArray (map (address_item G s) (addrs4a response)))]"

definition handle_domain_lookup :: "'k genv \<Rightarrow> gate_config \<Rightarrow> ('k, 'z) gate_s handler" where
  "handle_domain_lookup G cf rq s =
     (case normalize_domain G (get_parameter rq ''domain'') of
        None \<Rightarrow> write_error 400 (''parameter '' @ [CHR 39] @ ''domain'' @ [CHR 39] @ '' is invalid'') s
      | Some domain \<Rightarrow>
          (case dgate_resolve_domain G cf (c_str domain) s of
             (Inl e, s1) \<Rightarrow> write_error 502 (c_str e) s1
           | (Inr response, s1) \<Rightarrow> write_reply (gate_json 200 (lookup_members G cf domain response s1)) s1))"

definition do_get :: "'k genv \<Rightarrow> gate_config \<Rightarrow> ('k, 'z) gate_s handler" where
  "do_get G cf rq s =
     (if rq_path rq = Some ''/lookup'' \<or> rq_path rq = Some ''/lookup/'' then handle_domain_lookup G cf rq s
      else if rq_path rq = Some ''/health'' \<or> rq_path rq = Some ''/health/''
      then write_reply (gate_json 200
             [(''success'', JBool True), (''database_ready'', JBool (geoip_database_ready s)),
              (''routing_ready'', JBool (geoip_routing_ready s))]) s
      else write_error 404 ''not found'' s)"

end
