(* ===== verification/Geoip_Effects.thy ===== *)
theory Geoip_Effects
  imports Dns_Http Domain_Names
begin

text \<open>
  What the operations of \<open>dns-gate\<close> do to its state: the settings \<open>geoip_router_start\<close> can leave, the
  list of addresses that are routed, the one request that goes out, and the events each step of a
  fiber appends to the log.
\<close>

subsection \<open>Settings\<close>

definition gate_ok :: "('k, 'z) gate_s \<Rightarrow> bool" where
  "gate_ok s \<longleftrightarrow>
     (routing_enabled s \<longrightarrow> database_open s \<and> routed_countries s \<noteq> [] \<and> ip_router_addr s \<noteq> [] \<and> route_gateway s \<noteq> []) \<and>
     (\<forall>c\<in>set (routed_countries s). length c = 2 \<and> uppercase c = c)"

lemma toupper_idem [simp]: "toupper (toupper c) = toupper c"
proof -
  have "\<not> islower (toupper c)" by (auto simp: islower_def code_toupper)
  then show ?thesis by (simp add: toupper_def)
qed

lemma uppercase_idem [simp]: "uppercase (uppercase v) = uppercase v"
  by (simp add: uppercase_def comp_def)

lemma length_uppercase [simp]: "length (uppercase v) = length v"
  by (simp add: uppercase_def)

lemma set_insert_countries:
  "set (insert_countries vs cs) = set cs \<union> {uppercase v |v. v \<in> set vs \<and> length v = 2}"
  by (induction vs arbitrary: cs) (auto simp: Let_def)

lemma parse_countries_ok: "c \<in> set (parse_countries G v) \<Longrightarrow> length c = 2 \<and> uppercase c = c"
  by (auto simp: parse_countries_def set_insert_countries)

lemma start_settings:
  assumes "geoip_router_start G path countries addr gw timeout ttl s = (r, s')"
  shows "gate_ok s' \<and> r = geoip_database_ready s' \<and> events s' = events s \<and>
    (geoip_routing_ready s' \<longleftrightarrow>
      r \<and> parse_countries G countries \<noteq> [] \<and> addr \<notin> {None, Some []} \<and> gw \<notin> {None, Some []})"
  using assms parse_countries_ok [of _ G countries]
  by (auto simp: geoip_router_start_def geoip_router_stop_def gate_ok_def geoip_database_ready_def
      geoip_routing_ready_def Let_def split: option.splits if_splits)

subsection \<open>The addresses that are routed\<close>

definition routed :: "'k genv \<Rightarrow> ('k, 'z) gate_s \<Rightarrow> string \<Rightarrow> bool" where
  "routed G s a \<longleftrightarrow>
     (case lookup_country G s a of None \<Rightarrow> False | Some c \<Rightarrow> c \<in> set (routed_countries s))"

lemma matched_from_unique:
  "matched_from G s seen as = unique_from seen (filter (routed G s) (map c_str as))"
proof (induction as arbitrary: seen)
  case Nil
  then show ?case by simp
next
  case (Cons a as)
  show ?case by (cases "lookup_country G s (c_str a)") (auto simp: routed_def Cons.IH)
qed

lemma matched_from_exact:
  "set (matched_from G s [] as) = {c_str a |a. a \<in> set as \<and> routed G s (c_str a)}"
  "distinct (matched_from G s [] as)"
  by (auto simp: matched_from_unique set_unique_from distinct_unique_from)

lemma matched_from_empty: "matched_from G s [] as = [] \<longleftrightarrow> (\<forall>a\<in>set as. \<not> routed G s (c_str a))"
proof -
  have "matched_from G s [] as = [] \<longleftrightarrow> set (matched_from G s [] as) = {}" by simp
  then show ?thesis unfolding matched_from_exact by blast
qed

text \<open>Which lookups the other operations see: only the database and the countries matter.\<close>

lemma lookup_country_cong: "country_database s = country_database t \<Longrightarrow> lookup_country G s a = lookup_country G t a"
  unfolding lookup_country_def by metis

lemma matched_from_cong:
  assumes "country_database s = country_database t" and "routed_countries s = routed_countries t"
  shows "matched_from G s seen as = matched_from G t seen as"
proof -
  have "routed G s = routed G t"
    unfolding routed_def using assms lookup_country_cong [OF assms(1)] by (metis (no_types))
  then show ?thesis by (simp add: matched_from_unique)
qed

subsection \<open>The diagnostic lookup\<close>

lemma lookup_address_routed:
  assumes "a \<noteq> []"
  shows "snd (snd (geoip_lookup_address G s (Some a))) \<longleftrightarrow> database_open s \<and> routed G s a"
  using assms by (auto simp: geoip_lookup_address_def routed_def split: option.splits)

lemma matched_count_pos:
  "0 \<le> matched_count G s as \<and>
   (0 < matched_count G s as \<longleftrightarrow> (\<exists>a\<in>set as. snd (snd (geoip_lookup_address G s (Some (c_str a))))))"
  by (induction as) auto

subsection \<open>The settings of the filter are never changed by a request\<close>

definition same_filter :: "('k, 'z) gate_s \<Rightarrow> ('k, 'y) gate_s \<Rightarrow> bool" where
  "same_filter s t \<longleftrightarrow>
     country_database s = country_database t \<and> database_open s = database_open t \<and>
     routing_enabled s = routing_enabled t \<and> routed_countries s = routed_countries t \<and>
     ip_router_addr s = ip_router_addr t \<and> route_gateway s = route_gateway t \<and> route_ttl s = route_ttl t"

lemma same_filter_refl [simp]: "same_filter s s"
  by (simp add: same_filter_def)

lemma same_filter_trans: "same_filter s t \<Longrightarrow> same_filter t u \<Longrightarrow> same_filter s u"
  by (simp add: same_filter_def)

lemma next_io_gate: "next_io s = (x, s') \<Longrightarrow> same_filter s s' \<and> events s' = events s \<and> kernel s' = kernel s"
  by (rule next_io_cases [of s]) (auto simp: same_filter_def)

lemma send_query_gate:
  "send_query G cf q s = (r, s') \<Longrightarrow>
     same_filter s s' \<and> events s' = events s @ (case r of Inl _ \<Rightarrow> [] | Inr _ \<Rightarrow> [Query q])"
  by (auto simp: send_query_def log_event_def same_filter_def split: prod.splits io.splits dest!: next_io_gate)

lemma read_reply_gate:
  "read_reply d s = (r, s') \<Longrightarrow> same_filter s s' \<and> events s' = events s \<and> kernel s' = kernel s"
  by (auto simp: read_reply_def split: prod.splits io.splits dest!: next_io_gate)

lemma add_routes_gate:
  "add_routes G name as s = (b, s') \<Longrightarrow>
     same_filter s s' \<and> events s' = events s @ [Route_request (c_str (ip_router_addr s)) (route_url G s name as)]"
  by (auto simp: add_routes_def log_event_def same_filter_def Let_def split: prod.splits upstream.splits option.splits)

text \<open>What the filter sends for a response: nothing, or one request with the addresses it routes.\<close>

definition route_requests :: "'k genv \<Rightarrow> ('k, 'z) gate_s \<Rightarrow> string \<Rightarrow> dns_response \<Rightarrow> gate_event list" where
  "route_requests G s name response =
     (if database_open s \<and> routing_enabled s \<and> name \<noteq> [] \<and> matched_from G s [] (addrs4a response) \<noteq> []
      then [Route_request (c_str (ip_router_addr s)) (route_url G s name (matched_from G s [] (addrs4a response)))]
      else [])"

lemma route_dns_result_gate:
  "same_filter s (geoip_route_dns_result G (Some name) response s) \<and>
   events (geoip_route_dns_result G (Some name) response s) = events s @ route_requests G s name response"
proof -
  obtain b s1 where a: "add_routes G name (matched_from G s [] (addrs4a response)) s = (b, s1)" by fastforce
  show ?thesis
    using add_routes_gate [OF a] by (auto simp: geoip_route_dns_result_def route_requests_def Let_def a)
qed

lemma route_url_cong:
  "route_gateway s = route_gateway t \<Longrightarrow> route_ttl s = route_ttl t \<Longrightarrow> route_url G s n as = route_url G t n as"
  by (simp add: route_url_def)

lemma route_requests_cong: "same_filter s t \<Longrightarrow> route_requests G s n r = route_requests G t n r"
  using matched_from_cong [of s t G "[]" "addrs4a r"] route_url_cong [of s t G n]
  by (simp add: route_requests_def same_filter_def)

subsection \<open>The two validators of domain names\<close>

lemma loop_ok_more:
  "loop_ok (case r of Inl e \<Rightarrow> Inl e | Inr (t, l, m) \<Rightarrow> Inr (f t, l, m)) = loop_ok r"
  by (auto simp: loop_ok_def split: sum.splits prod.splits)

lemma loop_ok_Inl [simp]: "\<not> loop_ok (Inl e)"
  by (simp add: loop_ok_def)

lemma label_loop_domain_loop: "label_loop p n (map tolower cs) \<longleftrightarrow> loop_ok (domain_loop v p n cs)"
proof (induction v p n cs rule: domain_loop.induct)
  case (1 v p n)
  then show ?case by (auto simp: loop_ok_def)
next
  case (2 v p n c cs)
  show ?case
  proof (cases "c = CHR ''.''")
    case True
    moreover have "tolower (CHR ''.'') = CHR ''.''" by simp
    ultimately show ?thesis using 2(1) by (simp add: loop_ok_more del: tolower_dot)
  next
    case False
    then show ?thesis using 2(2)
      by (cases "isalnum c \<or> c = CHR ''-''"; cases "n = 0 \<and> c = CHR ''-''")
        (simp_all only: label_loop.simps domain_loop.simps list.map tolower_dot tolower_hyphen isalnum_tolower
          loop_ok_more loop_ok_Inl if_False if_True simp_thms, blast+)
  qed
qed

lemma trim_dots_lower: "trim_dots (map tolower t) = map tolower (trim_dots t)"
  by (simp add: trim_dots_def rev_map dropWhile_map comp_def)

lemma normalize_domain_valid:
  assumes "ga_lower G = map tolower"
  shows "normalize_domain G v = ok_part (valid_domain (Some (ga_trim_space G (case v of None \<Rightarrow> [] | Some t \<Rightarrow> t))))"
proof -
  define t where "t = ga_trim_space G (case v of None \<Rightarrow> [] | Some t \<Rightarrow> t)"
  define d where "d = trim_dots t"
  have empty: "t = [] \<Longrightarrow> d = []" by (simp add: d_def trim_dots_def)
  have n: "normalize_domain G v =
      (if d = [] \<or> length d > 253 then None
       else if loop_ok (domain_loop t nul 0 d) then Some (map tolower d) else None)"
    by (simp add: normalize_domain_def assms trim_dots_lower label_loop_domain_loop [of _ _ _ t] Let_def
        flip: t_def d_def)
  have v: "ok_part (valid_domain (Some t)) =
      (if d = [] \<or> length d > 253 then None
       else if loop_ok (domain_loop t nul 0 d) then Some (map tolower d) else None)"
  proof (cases "domain_loop t nul 0 d")
    case (Inl e)
    then show ?thesis
      by (simp add: valid_domain_def ok_part_def Let_def loop_ok_def empty flip: d_def)
  next
    case (Inr x)
    obtain u l m where x: "x = (u, l, m)" by (cases x)
    have "u = map tolower d" using domain_loop_text [of t nul 0 d u l m] Inr x by simp
    then show ?thesis
      using Inr x by (simp add: valid_domain_def ok_part_def Let_def loop_ok_def empty flip: d_def)
  qed
  show ?thesis using n v by (simp add: t_def)
qed

text \<open>Routing consumes no outcomes, so what the fiber does next does not depend on it.\<close>

lemma route_dns_result_script: "script (geoip_route_dns_result G n r s) = script s"
  by (simp add: geoip_route_dns_result_def add_routes_def log_event_def Let_def
      split: option.split prod.split upstream.split)

text \<open>What is sent, without the requests to \<open>ip-router\<close>.\<close>

definition is_route_request :: "gate_event \<Rightarrow> bool" where
  "is_route_request e \<longleftrightarrow> (case e of Route_request a u \<Rightarrow> True | _ \<Rightarrow> False)"

definition dns_events :: "('k, 'z) gate_s \<Rightarrow> gate_event list" where
  "dns_events s = filter (\<lambda>e. \<not> is_route_request e) (events s)"

lemma route_dns_result_dns_events: "dns_events (geoip_route_dns_result G (Some n) r s) = dns_events s"
  using route_dns_result_gate [of s G n r]
  by (auto simp: dns_events_def route_requests_def is_route_request_def filter_empty_conv split: if_splits)

lemma handle_request_dns_events:
  assumes "parse_request G' = parse_request G" and "parse_reply G' = parse_reply G" and "dns_serve G' = dns_serve G"
  shows "dns_events (handle_request G' cf m s) = dns_events (handle_request G cf m s)"
proof -
  have q: "send_query G' cf d t = send_query G cf d t" for d and t :: "('a, 'b) gate_s"
    unfolding send_query_def assms(3) ..
  have last: "dns_events (case next_io (geoip_route_dns_result H (Some n) r t) of
        (Fault e, u) \<Rightarrow> u | (Done, u) \<Rightarrow> log_event (Dns_reply p d) u) =
      dns_events t @ (if fst (next_io t) = Done then [Dns_reply p d] else [])"
    for H n r p d and t :: "('a, 'b) gate_s"
  proof -
    let ?u = "geoip_route_dns_result H (Some n) r t"
    have "fst (next_io ?u) = fst (next_io t)"
      using route_dns_result_script [of H "Some n" r t] by (simp add: next_io_def split: list.split)
    moreover have "events (snd (next_io ?u)) = events ?u" using next_io_gate by (metis surjective_pairing)
    ultimately show ?thesis
      using route_dns_result_dns_events [of H n r t]
      by (auto simp: dns_events_def log_event_def is_route_request_def split: prod.split io.split)
  qed
  show ?thesis
    unfolding handle_request_def assms(1,2) q Let_def
    by (simp add: last split: option.split prod.split sum.split)
qed

end
