(* ===== verification/Gate_Fibers.thy ===== *)
theory Gate_Fibers
  imports Geoip_Effects
begin

text \<open>
  The interleaving of the fibers of \<open>dns-gate\<close>: a fiber run to its end is \<open>handle_request\<close>, and an
  invariant of the reachable states ties every reply in the log to the message it answers and to the
  route request that had to go out before it.
\<close>

subsection \<open>A fiber alone\<close>

fun run_fiber :: "'k genv \<Rightarrow> gate_config \<Rightarrow> nat \<Rightarrow> fiber \<Rightarrow> ('k, 'z) gate_s \<Rightarrow> fiber \<times> ('k, 'z) gate_s" where
  "run_fiber G cf 0 f s = (f, s)"
| "run_fiber G cf (Suc n) f s = (case fiber_step G cf f s of (f1, s1) \<Rightarrow> run_fiber G cf n f1 s1)"

lemma run_finished [simp]: "run_fiber G cf n (Finished m b) s = (Finished m b, s)"
  by (induction n) auto

lemma run_received: "\<exists>b. run_fiber G cf (4 + n) (Received m) s = (Finished m b, handle_request G cf m s)"
proof -
  have four: "4 + n = Suc (Suc (Suc (Suc n)))" by simp
  show ?thesis
    unfolding four
    by (auto simp: ask_def hear_def answer_def handle_request_def Let_def
        split: option.splits prod.splits sum.splits io.splits)
qed

subsection \<open>What a step appends\<close>

fun message_of :: "fiber \<Rightarrow> request_message" where
  "message_of (Received m) = m"
| "message_of (Waiting m q name d) = m"
| "message_of (Answered m name response reply) = m"
| "message_of (Routed m name response reply) = m"
| "message_of (Finished m b) = m"

fun emits :: "'k genv \<Rightarrow> ('k, 'z) gate_s \<Rightarrow> fiber \<Rightarrow> fiber \<Rightarrow> gate_event list" where
  "emits G s (Received m) (Waiting m' q name d) = [Query (message_data m)]"
| "emits G s (Answered m name response reply) f = route_requests G s name response"
| "emits G s (Routed m name response reply) (Finished m' True) = [Dns_reply (peer_addr m) reply]"
| "emits G s f f' = []"

lemma fiber_step_emits:
  assumes "fiber_step G cf f s = (f', s')"
  shows "same_filter s s' \<and> message_of f' = message_of f \<and> events s' = events s @ emits G s f f'"
proof (cases f)
  case (Received m)
  then show ?thesis
    using assms by (auto simp: ask_def split: option.splits prod.splits sum.splits dest!: send_query_gate)
next
  case (Waiting m q name d)
  then show ?thesis
    using assms
    by (auto simp: hear_def split: option.splits prod.splits sum.splits if_splits dest!: read_reply_gate)
next
  case (Answered m name response reply)
  then show ?thesis using assms route_dns_result_gate [of s G name response] by auto
next
  case (Routed m name response reply)
  then show ?thesis
    using assms
    by (auto simp: answer_def log_event_def same_filter_def split: prod.splits io.splits dest!: next_io_gate)
next
  case (Finished m b)
  then show ?thesis using assms by auto
qed

subsection \<open>The invariant\<close>

text \<open>What justifies a reply with \<open>reply\<close> to message \<open>m\<close>, \<open>sent\<close> being what went out before.\<close>

definition due_reply ::
  "'k genv \<Rightarrow> ('k, 'z) gate_s \<Rightarrow> gate_event list \<Rightarrow> request_message \<Rightarrow> string \<Rightarrow> bool" where
  "due_reply G s0 sent m reply \<longleftrightarrow>
     (\<exists>q name response. parse_request G (message_data m) = Some (q, name) \<and>
        parse_reply G reply = Some response \<and> qid response = q \<and>
        set (route_requests G s0 name response) \<subseteq> set sent)"

fun fiber_ok :: "'k genv \<Rightarrow> ('k, 'z) gate_s \<Rightarrow> gate_event list \<Rightarrow> fiber \<Rightarrow> bool" where
  "fiber_ok G s0 sent (Waiting m q name d) \<longleftrightarrow> parse_request G (message_data m) = Some (q, name)"
| "fiber_ok G s0 sent (Answered m name response reply) \<longleftrightarrow>
     (\<exists>q. parse_request G (message_data m) = Some (q, name) \<and> parse_reply G reply = Some response \<and> qid response = q)"
| "fiber_ok G s0 sent (Routed m name response reply) \<longleftrightarrow> due_reply G s0 sent m reply"
| "fiber_ok G s0 sent f \<longleftrightarrow> True"

definition justified :: "'k genv \<Rightarrow> ('k, 'z) gate_s \<Rightarrow> request_message set \<Rightarrow> gate_event list \<Rightarrow> bool" where
  "justified G s0 ms es \<longleftrightarrow>
     (\<forall>pre p d post. es = pre @ Dns_reply p d # post \<longrightarrow> (\<exists>m\<in>ms. peer_addr m = p \<and> due_reply G s0 pre m d))"

definition arrived :: "'k gsys \<Rightarrow> request_message list" where
  "arrived S = map message_of (fibers S) @ box S"

text \<open>Replies to a peer, in the log and among the fibers.\<close>

definition replied :: "string \<Rightarrow> gate_event \<Rightarrow> bool" where
  "replied p e \<longleftrightarrow> (case e of Dns_reply p' d \<Rightarrow> p' = p | _ \<Rightarrow> False)"

definition replier :: "string \<Rightarrow> fiber \<Rightarrow> bool" where
  "replier p f \<longleftrightarrow> (case f of Finished m b \<Rightarrow> b \<and> peer_addr m = p | _ \<Rightarrow> False)"

definition gsys_inv :: "'k genv \<Rightarrow> 'k gate \<Rightarrow> 'k gsys \<Rightarrow> bool" where
  "gsys_inv G s0 S \<longleftrightarrow>
     same_filter s0 (shared S) \<and>
     (\<forall>f\<in>set (fibers S). fiber_ok G s0 (events (shared S)) f) \<and>
     justified G s0 (set (arrived S)) (events (shared S)) \<and>
     (\<forall>p. length (filter (replied p) (events (shared S))) = length (filter (replier p) (fibers S)))"

lemma due_reply_mono: "due_reply G s0 sent m r \<Longrightarrow> set sent \<subseteq> set sent' \<Longrightarrow> due_reply G s0 sent' m r"
  unfolding due_reply_def by blast

lemma fiber_ok_mono: "fiber_ok G s0 sent f \<Longrightarrow> set sent \<subseteq> set sent' \<Longrightarrow> fiber_ok G s0 sent' f"
  by (cases f) (auto dest: due_reply_mono)

lemma justified_mono: "justified G s0 ms es \<Longrightarrow> ms \<subseteq> ms' \<Longrightarrow> justified G s0 ms' es"
  unfolding justified_def by blast

lemma justified_Nil [simp]: "justified G s0 ms []"
  by (simp add: justified_def)

lemma justified_snoc:
  assumes "justified G s0 ms es"
    and "\<And>p d. e = Dns_reply p d \<Longrightarrow> \<exists>m\<in>ms. peer_addr m = p \<and> due_reply G s0 es m d"
  shows "justified G s0 ms (es @ [e])"
  unfolding justified_def
proof (intro allI impI)
  fix pre p d post
  assume eq: "es @ [e] = pre @ Dns_reply p d # post"
  show "\<exists>m\<in>ms. peer_addr m = p \<and> due_reply G s0 pre m d"
  proof (cases post rule: rev_cases)
    case Nil
    then show ?thesis using eq assms(2) by auto
  next
    case (snoc post' x)
    then have "es = pre @ Dns_reply p d # post'" using eq by auto
    then show ?thesis using assms(1) unfolding justified_def by blast
  qed
qed

lemma route_requests_no_reply: "e \<in> set (route_requests G s n r) \<Longrightarrow> \<not> replied p e"
  by (auto simp: route_requests_def replied_def split: if_splits)

lemma route_requests_snoc: "route_requests G s n r = [] \<or> (\<exists>a u. route_requests G s n r = [Route_request a u])"
  by (simp add: route_requests_def)

text \<open>A step of one fiber: its own state, the log and the counts.\<close>

lemma fiber_step_ok:
  assumes "fiber_step G cf f s = (f', s')" and "same_filter s0 s" and "fiber_ok G s0 (events s) f"
  shows "fiber_ok G s0 (events s') f'"
proof (cases f)
  case (Received m)
  then show ?thesis using assms by (auto simp: ask_def split: option.splits prod.splits sum.splits)
next
  case (Waiting m q name d)
  then show ?thesis using assms by (auto simp: hear_def split: option.splits prod.splits sum.splits if_splits)
next
  case (Answered m name response reply)
  have "route_requests G s name response = route_requests G s0 name response"
    using route_requests_cong [OF assms(2)] by simp
  then have "set (route_requests G s0 name response) \<subseteq> set (events s')"
    using fiber_step_emits [OF assms(1)] Answered by auto
  then show ?thesis using assms Answered by (auto simp: due_reply_def)
next
  case (Routed m name response reply)
  then show ?thesis using assms by (auto simp: answer_def split: prod.splits io.splits)
qed (use assms in auto)

lemma fiber_step_justified:
  assumes "fiber_step G cf f s = (f', s')" and "fiber_ok G s0 (events s) f"
    and "justified G s0 ms (events s)" and "message_of f \<in> ms"
  shows "justified G s0 ms (events s')"
proof -
  have e: "events s' = events s @ emits G s f f'" using fiber_step_emits [OF assms(1)] by blast
  have "emits G s f f' = [] \<or> (\<exists>x. emits G s f f' = [x] \<and>
      (\<forall>p d. x = Dns_reply p d \<longrightarrow> (\<exists>m\<in>ms. peer_addr m = p \<and> due_reply G s0 (events s) m d)))"
  proof (cases "(G, s, f, f')" rule: emits.cases)
    case (2 G' s1 m name response reply f1)
    then show ?thesis using route_requests_snoc [of G s name response] by auto
  next
    case (3 G' s1 m name response reply m')
    then show ?thesis using assms(2,4) by auto
  qed auto
  then show ?thesis unfolding e using justified_snoc [OF assms(3)] assms(3) by auto
qed

lemma fiber_step_count:
  assumes "fiber_step G cf f s = (f', s')"
  shows "length (filter (replied p) (emits G s f f')) + (if replier p f then 1 else 0) = (if replier p f' then 1 else 0)"
proof (cases f)
  case (Received m)
  then show ?thesis
    using assms by (auto simp: ask_def replier_def replied_def split: option.splits prod.splits sum.splits)
next
  case (Waiting m q name d)
  then show ?thesis
    using assms by (auto simp: hear_def replier_def split: option.splits prod.splits sum.splits if_splits)
next
  case (Answered m name response reply)
  then show ?thesis
    using assms route_requests_no_reply [of _ G s name response p]
    by (auto simp: replier_def filter_empty_conv)
next
  case (Routed m name response reply)
  then show ?thesis
    using assms by (auto simp: answer_def replier_def replied_def split: prod.splits io.splits)
next
  case (Finished m b)
  then show ?thesis using assms by auto
qed

lemma filter_update_count:
  assumes "i < length xs"
  shows "length (filter P (xs[i := y])) + (if P (xs ! i) then 1 else 0) = length (filter P xs) + (if P y then 1 else 0)"
  using assms
proof (induction xs arbitrary: i)
  case (Cons x xs)
  then show ?case by (cases i) auto
qed simp

text \<open>A lookup of the HTTP service sends at most a query.\<close>

lemma resolve_domain_gate:
  assumes "dgate_resolve_domain G cf name s = (r, s')"
  shows "same_filter s s' \<and> (events s' = events s \<or> (\<exists>q. events s' = events s @ [Query q]))"
proof -
  obtain q s0 where q: "next_query s = (q, s0)" by fastforce
  have s0: "same_filter s s0" "events s0 = events s" using q by (auto simp: next_query_def same_filter_def)
  show ?thesis
  proof (cases "build_query G name q = []")
    case True
    then show ?thesis using assms q s0 by (simp add: dgate_resolve_domain_def)
  next
    case False
    obtain x s1 where x: "send_query G cf (build_query G name q) s0 = (x, s1)" by fastforce
    note e1 = send_query_gate [OF x]
    show ?thesis
    proof (cases x)
      case (Inl a)
      then have "s' = s1" using assms q False x
        by (cases a; cases "fst a") (auto simp: dgate_resolve_domain_def)
      then show ?thesis using e1 s0 Inl same_filter_trans [OF s0(1), of s1] by simp
    next
      case (Inr d)
      obtain y s2 where y: "read_reply d s1 = (y, s2)" by fastforce
      have "s' = s2"
        using assms q False x Inr y by (auto simp: dgate_resolve_domain_def split: sum.splits option.splits if_splits)
      then show ?thesis
        using e1 s0(2) read_reply_gate [OF y] same_filter_trans [OF same_filter_trans [OF s0(1), of s1], of s2] Inr
        by simp
    qed
  qed
qed

lemma gstep_inv:
  assumes "gstep G cf S S'" and "gsys_inv G s0 S"
  shows "gsys_inv G s0 S'"
  using assms(1)
proof (cases rule: gstep.cases)
  case (arrive r)
  then show ?thesis
    using assms(2) justified_mono [of G s0 "set (arrived S)" "events (shared S)" "set (arrived S')"]
    by (cases r) (auto simp: gsys_inv_def on_read_def arrived_def)
next
  case (consume m ms)
  then show ?thesis using assms(2) by (auto simp: gsys_inv_def arrived_def replier_def)
next
  case (run i f s')
  let ?f = "fibers S ! i" and ?s = "shared S"
  have inv: "same_filter s0 ?s" "\<forall>f\<in>set (fibers S). fiber_ok G s0 (events ?s) f"
      "justified G s0 (set (arrived S)) (events ?s)"
      "\<And>p. length (filter (replied p) (events ?s)) = length (filter (replier p) (fibers S))"
    using assms(2) by (auto simp: gsys_inv_def)
  note e = fiber_step_emits [OF run(3)]
  have ok: "fiber_ok G s0 (events ?s) ?f" using inv(2) run(2) by simp
  have arr: "arrived S' = arrived S"
    using e run(2) by (simp add: run(1) arrived_def map_update list_update_same_conv [THEN iffD2])
  have "message_of ?f \<in> set (arrived S)" using run(2) by (simp add: arrived_def)
  from fiber_step_justified [OF run(3) ok inv(3) this] have j: "justified G s0 (set (arrived S')) (events s')"
    by (simp add: arr)
  have fs: "\<forall>x\<in>set (fibers S'). fiber_ok G s0 (events s') x"
    using inv(2) fiber_ok_mono [of G s0 "events ?s" _ "events s'"] e fiber_step_ok [OF run(3) inv(1) ok]
    by (auto simp: run(1) dest!: set_update_subset_insert [THEN subsetD])
  have "length (filter (replied p) (events s')) = length (filter (replier p) (fibers S'))" for p
    using fiber_step_count [OF run(3), of p] filter_update_count [OF run(2), of "replier p" f] inv(4) [of p] e
    by (simp add: run(1))
  then show ?thesis
    using same_filter_trans [OF inv(1), of s'] e fs j by (simp add: gsys_inv_def run(1))
next
  case (lookup name r s')
  note e = resolve_domain_gate [OF lookup(2)]
  have "set (events (shared S)) \<subseteq> set (events s')" using e by auto
  then have "fiber_ok G s0 (events s') f" if "f \<in> set (fibers S)" for f
    using fiber_ok_mono [of G s0 "events (shared S)" f "events s'"] that assms(2) by (simp add: gsys_inv_def)
  moreover have "justified G s0 (set (arrived S)) (events (shared S) @ [Query q])" for q
    by (rule justified_snoc) (use assms(2) in \<open>simp_all add: gsys_inv_def\<close>)
  then have "justified G s0 (set (arrived S)) (events s')"
    using e assms(2) by (auto simp: gsys_inv_def)
  moreover have "filter (replied p) (events s') = filter (replied p) (events (shared S))" for p
    using e by (auto simp: replied_def)
  ultimately show ?thesis
    using assms(2) e same_filter_trans [of s0 "shared S" s'] by (simp add: gsys_inv_def arrived_def lookup(1))
next
  case (world k sc t q)
  then show ?thesis using assms(2) by (auto simp: gsys_inv_def arrived_def same_filter_def)
qed

lemma greachable_inv:
  assumes "greachable G cf s0 S" and "events s0 = []"
  shows "gsys_inv G s0 S"
  using assms
proof (induction rule: greachable.induct)
  case gstart
  then show ?case by (simp add: gsys_inv_def)
next
  case (gmore S S')
  then show ?case using gstep_inv by blast
qed

text \<open>No more replies to a peer than messages from it.\<close>

lemma replier_message: "replier p f \<Longrightarrow> peer_addr (message_of f) = p"
  by (cases f) (auto simp: replier_def)

lemma repliers_bound: "length (filter (replier p) fs) \<le> length (filter (\<lambda>m. peer_addr m = p) (map message_of fs @ ms))"
proof (induction fs)
  case Nil
  then show ?case by simp
next
  case (Cons f fs)
  then show ?case using replier_message [of p f] by (cases "replier p f") auto
qed

end
