(* ===== verification/Gate_Router.thy ===== *)
theory Gate_Router
  imports Gate_Fibers Route_Deletion
begin

text \<open>
  The two programs together: the world of \<open>dns-gate\<close> is the state of an \<open>ip-router\<close>, and its \<open>POST\<close>
  is served by the dispatch of that process. What \<open>dns-gate\<close> counts as a success is a 200 of
  \<open>route_add\<close>, so every address it matched is in the route table.
\<close>

subsection \<open>Splitting and joining the addresses\<close>

lemma tokens_from_plain:
  "set a \<inter> set seps = {} \<Longrightarrow> tokens_from seps acc (a @ t) = tokens_from seps (rev a @ acc) t"
  by (induction a arbitrary: acc) auto

lemma tokens_from_list:
  assumes "CHR '','' \<in> set seps" and "\<forall>a\<in>set (x # as). a \<noteq> [] \<and> set a \<inter> set seps = {}"
  shows "tokens_from seps [] (x @ concat (map (\<lambda>a. CHR '','' # a) as)) = x # as"
  using assms(2)
proof (induction as arbitrary: x)
  case Nil
  then show ?case using tokens_from_plain [of x seps "[]" "[]"] by simp
next
  case (Cons a as)
  then have "tokens_from seps [] (a @ concat (map (\<lambda>a. CHR '','' # a) as)) = a # as" by simp
  then show ?case using Cons.prems tokens_from_plain [of x seps "[]"] assms(1) by simp
qed

definition address_text :: "string \<Rightarrow> bool" where
  "address_text a \<longleftrightarrow> a \<noteq> [] \<and> set a \<inter> set separators = {} \<and> nul \<notin> set a"

lemma join_addresses_more:
  "vs \<noteq> [] \<Longrightarrow> join_addresses vs as = vs @ concat (map (\<lambda>a. CHR '','' # c_str a) as)"
  by (induction as arbitrary: vs) auto

lemma tokens_join:
  assumes "\<forall>a\<in>set as. address_text a"
  shows "tokens (join_addresses [] as) separators = as"
proof (cases as)
  case Nil
  then show ?thesis by (simp add: tokens_def)
next
  case (Cons x ys)
  have c: "map (\<lambda>a. CHR '','' # c_str a) ys = map (\<lambda>a. CHR '','' # a) ys" "c_str x = x"
    using assms Cons by (auto simp: address_text_def c_str_id)
  then have "join_addresses [] as = x @ concat (map (\<lambda>a. CHR '','' # a) ys)"
    using assms Cons join_addresses_more [of x ys] c by (simp add: address_text_def cong: map_cong)
  moreover have "\<forall>a\<in>set (x # ys). a \<noteq> [] \<and> set a \<inter> set separators = {}"
    using assms Cons by (simp add: address_text_def)
  moreover have "CHR '','' \<in> set separators" by (simp add: separators_def)
  ultimately show ?thesis unfolding tokens_def using tokens_from_list Cons by metis
qed

lemma join_no_nul: "nul \<notin> set vs \<Longrightarrow> nul \<notin> set (join_addresses vs as)"
  by (induction as arbitrary: vs) auto

lemma join_not_empty: "address_text a \<Longrightarrow> join_addresses [] (a # as) \<noteq> []"
proof -
  assume a: "address_text a"
  then have "c_str a = a" "a \<noteq> []" by (auto simp: address_text_def c_str_id)
  then show ?thesis using join_addresses_more [of a as] by simp
qed

subsection \<open>The boundary\<close>

text \<open>
  A reply that came back whole is the one the dispatch of \<open>ip-router\<close> wrote; \<open>dec\<close> is how its HTTP
  server reads a URL.
\<close>

definition serves_router ::
  "(('k, 'z) rm_s) genv \<Rightarrow> 'k env \<Rightarrow> config \<Rightarrow> (string \<Rightarrow> http_request) \<Rightarrow> bool" where
  "serves_router G E cf dec \<longleftrightarrow>
     (\<forall>a t u k x b k'. post G a t u k = (Response x (Some b), k') \<longrightarrow>
        (\<exists>keep r. servlet_do E (ip_router E cf) http_handler_post (dec u) k = ((keep, Some r), k') \<and>
           rp_status r = x))"

text \<open>The parameters \<open>add_routes\<close> encodes into its URL.\<close>

definition route_parameters :: "'k genv \<Rightarrow> ('k, 'z) gate_s \<Rightarrow> string \<Rightarrow> string list \<Rightarrow> (string \<times> string) list" where
  "route_parameters G s name as =
     [(''key'', c_str (ga_lower G name)), (''ips'', c_str (join_addresses [] as)),
      (''gateway'', c_str (route_gateway s)), (''ttl'', show_int (route_ttl s))]"

definition reads_url :: "(string \<Rightarrow> http_request) \<Rightarrow> string \<Rightarrow> string \<Rightarrow> (string \<times> string) list \<Rightarrow> bool" where
  "reads_url dec u path ps \<longleftrightarrow>
     rq_path (dec u) = Some path \<and> rq_parameters (dec u) = ps \<and> rq_expect (dec u) = None"

lemma add_routes_success:
  assumes "add_routes G name as s = (True, s')"
  obtains b where "post G (c_str (ip_router_addr s)) (request_timeout s) (route_url G s name as) (kernel s) =
    (Response 200 (Some b), kernel s')"
  using assms
  by (auto simp: add_routes_def log_event_def Let_def split: prod.splits upstream.splits option.splits)

lemma servlet_route_add:
  fixes k :: "('k, 'z) rm_s"
  assumes "acl_lower E = map tolower" and "rq_path rq = Some ''/route''" and "rq_expect rq = None"
    and "servlet_do E (ip_router E cf) http_handler_post rq k = ((keep, Some r), k')"
  shows "\<exists>sent. route_add E rq k = ((sent, r), k')"
proof -
  have reg: "(http_handler_post, ''/route'', route_add E) \<in>
      set (registrations E cf :: (int \<times> string \<times> ('k, 'z) rm_s handler) list)"
    by (simp add: registrations_def)
  note f = find_registration [OF assms(1) reg refl]
  have d: "dispatch E (ip_router E cf) http_handler_post rq k = ((keep, Some r), k')"
    using assms(3,4) by (simp add: servlet_do_def)
  show ?thesis
    using d dispatch_path [of http_handler_post rq "''/route''" E "ip_router E cf" k] assms(2) f
    by (auto simp: split: prod.splits)
qed

lemma requested_gateway:
  assumes "resolve_add_gateway E rq s = Inr (g, applied)"
    and "rq_parameters rq = [(''key'', k), (''ips'', i), (''gateway'', w), (''ttl'', t)]" and "w \<noteq> []" and "nul \<notin> set w"
  shows "g = w \<or> (force_global_gateway s \<and> g = c_str (global_gateway s))"
proof -
  have "parameter rq ''gateway'' ''route'' = Some w"
    using assms(2-) by (simp add: parameter_def get_parameter_def given_def c_str_id Let_def)
  then show ?thesis
    using assms(1,3) by (auto simp: resolve_add_gateway_def get_global_route_def given_def Let_def split: if_splits)
qed

text \<open>A success of \<open>add_routes\<close> is a route for every address in the table of \<open>ip-router\<close>.\<close>

lemma gate_routes_recorded:
  fixes s :: "(('k, 'y) rm_s, 'z) gate_s"
  assumes "env_ok E" and "service_inv E (kernel s)" and "acl_lower E = map tolower" and "acl_split2 E = tokens"
    and "serves_router G E cf dec"
    and "reads_url dec (route_url G s name as) ''/route'' (route_parameters G s name as)"
    and "\<forall>a\<in>set as. address_text a" and "c_str (route_gateway s) \<noteq> []" and "c_str (ga_lower G name) \<noteq> []"
    and "add_routes G name as s = (True, s')" and "a \<in> set as"
  shows "\<exists>md. find_route (installed_routes (kernel s')) (c_str (ga_lower G name)) a = Some md \<and>
    (md_gateway md = c_str (route_gateway s) \<or>
     force_global_gateway (kernel s) \<and> md_gateway md = c_str (global_gateway (kernel s)))"
proof -
  let ?u = "route_url G s name as" and ?key = "c_str (ga_lower G name)"
  let ?rq = "dec ?u"
  obtain b where p: "post G (c_str (ip_router_addr s)) (request_timeout s) ?u (kernel s) = (Response 200 (Some b), kernel s')"
    using add_routes_success [OF assms(10)] .
  obtain keep r where v: "servlet_do E (ip_router E cf) http_handler_post ?rq (kernel s) = ((keep, Some r), kernel s')"
      and r: "rp_status r = 200"
    using assms(5) p unfolding serves_router_def by blast
  have path: "rq_path ?rq = Some ''/route''" and ps: "rq_parameters ?rq = route_parameters G s name as"
      and ex: "rq_expect ?rq = None"
    using assms(6) by (auto simp: reads_url_def)
  obtain sent where add: "route_add E ?rq (kernel s) = ((sent, r), kernel s')"
    using servlet_route_add [OF assms(3) path ex v] by blast
  obtain x ys where as: "as = x # ys" using assms(11) by (cases as) auto
  have joined: "join_addresses [] as \<noteq> []" using join_not_empty [of x ys] assms(7) as by simp
  have ips: "get_parameter ?rq ''ips'' = Some (join_addresses [] as)"
    using ps join_no_nul [of "[]" as] by (simp add: get_parameter_def route_parameters_def c_str_id)
  have key: "get_route_key ?rq = Some ?key"
    using ps assms(9) by (simp add: get_route_key_def parameter_def get_parameter_def route_parameters_def given_def Let_def)
  have mem: "a \<in> set (acl_split2 E (the (get_parameter ?rq ''ips'')) separators)"
    using assms(4,11) tokens_join [OF assms(7)] ips by simp
  obtain g applied md where res: "resolve_add_gateway E ?rq (kernel s) = Inr (g, applied)"
      and find: "find_route (installed_routes (kernel s')) ?key (c_str a) = Some md" "md_gateway md = g"
    using route_add_recorded [OF assms(1,2) _ add r mem] joined ips key by (auto simp: given_def)
  have "c_str a = a" using assms(7,11) by (simp add: address_text_def c_str_id)
  moreover have "g = c_str (route_gateway s) \<or> force_global_gateway (kernel s) \<and> g = c_str (global_gateway (kernel s))"
    using requested_gateway [OF res ps [unfolded route_parameters_def] assms(8) nul_notin_c_str] .
  ultimately show ?thesis using find by auto
qed

end
