(* ===== verification/Gate_Example.thy ===== *)
theory Gate_Example
  imports Gate_Router Example_Env
begin

text \<open>
  A \<open>dns-gate\<close> whose world is the example \<open>ip-router\<close>: its \<open>POST\<close> runs the dispatch there. The
  database has \<open>10.0.0.1\<close> in \<open>cn\<close> and everything else in \<open>us\<close>; the upstream server answers one name.
\<close>

text \<open>A URL with a query string of plain parameters.\<close>

definition demo_dec :: "string \<Rightarrow> http_request" where
  "demo_dec u =
     (let parts = split_fields (CHR ''?'') u in
      \<lparr>rq_path = Some (hd parts), rq_keep_alive = False, rq_expect = None,
       rq_parameters = map (\<lambda>f. let nv = split_fields (CHR ''='') f in (hd nv, concat (tl nv)))
         (split_fields (CHR ''&'') (concat (tl parts)))\<rparr>)"

definition demo_response :: dns_response where
  "demo_response = \<lparr>qid = 7, addrs4a = [''10.0.0.1'', ''10.0.0.2'', ''10.0.0.1''], cnames = []\<rparr>"

definition demo_gate_env :: "(unit rm) genv" where
  "demo_gate_env =
     \<lparr>ga_lower = map tolower, ga_trim_space = filter (\<lambda>c. \<not> isspace c), ga_split2 = tokens,
      ga_url_encode = (\<lambda>t. t), mmdb_open = (\<lambda>p k. 0),
      mmdb_lookup_string = (\<lambda>db ip. \<lparr>gai_error = 0, mmdb_error = 0, found_entry = True,
                                      entry = (if ip = ''10.0.0.1'' then 1 else 0)\<rparr>),
      mmdb_country = (\<lambda>db e. (0, \<lparr>has_data = True, data_type = 2, utf8_string = (if e = 1 then ''cn'' else ''us'')\<rparr>)),
      parse_request = (\<lambda>d. if d = [] then None else Some (7, ''Home'')),
      build_query = (\<lambda>n q. n), parse_reply = (\<lambda>d. Some demo_response),
      dns_serve = (\<lambda>a q k. (''reply'', k)),
      post = (\<lambda>a t u k.
        (case servlet_do demo_env (ip_router demo_env demo_config) http_handler_post (demo_dec u) k of
           ((keep, Some r), k') \<Rightarrow> (Response (rp_status r) (Some []), k')
         | ((keep, None), k') \<Rightarrow> (Unreachable ''closed'', k'))),
      last_serror = (\<lambda>e. ''error'')\<rparr>"

definition demo_gate_idle :: "(unit rm) gate" where
  "demo_gate_idle =
     \<lparr>files = [], script = [], clock = 0, kernel = demo_state, open_fds = 0, country_database = [],
      database_open = False, routing_enabled = False, routed_countries = [], ip_router_addr = [],
      route_gateway = [], request_timeout = 3, route_ttl = 600, query_sequence = 1, events = []\<rparr>"

definition demo_gate :: "(unit rm) gate" where
  "demo_gate = snd (geoip_router_start demo_gate_env (Some ''db'') (Some ''cn, de'') (Some ''127.0.0.1:8088'')
     (Some ''192.168.1.1'') 3 600 demo_gate_idle)"

definition demo_gate_config :: gate_config where
  "demo_gate_config = \<lparr>upstream_addr = ''114.114.114.114|53''\<rparr>"

definition demo_message :: request_message where
  "demo_message = \<lparr>peer_addr = ''10.1.1.1|5353'', message_data = ''query''\<rparr>"

lemma demo_serves: "serves_router demo_gate_env demo_env demo_config demo_dec"
  by (auto simp: serves_router_def demo_gate_env_def split: prod.splits option.splits)

lemma demo_gate_run:
  "demo_gate = demo_gate_idle\<lparr>country_database := ''db'', database_open := True, routing_enabled := True,
     routed_countries := [''CN'', ''DE''], ip_router_addr := ''127.0.0.1:8088'', route_gateway := ''192.168.1.1''\<rparr>"
  by code_simp

end
