(* ===== verification/Gate_Master.thy ===== *)
theory Gate_Master
  imports Dns_Http
begin

text \<open>
  The process of \<open>dns-gate\<close> (\<open>main.cpp\<close>, \<open>master_service.cpp\<close> and the last part of
  \<open>dns_http_service.cpp\<close>): the configuration tables, what \<open>proc_on_init\<close> sets up, the listener of the
  diagnostic service and a connection to it, and \<open>proc_on_exit\<close>.
\<close>

subsection \<open>Configuration\<close>

text \<open>Name and default of the settings; an integer has its bounds too.\<close>

definition gate_str_table :: "(string \<times> string) list" where
  "gate_str_table =
     [(''upstream_addr'', ''114.114.114.114|53''), (''geoip_database'', ''dbip-country-lite.mmdb''),
      (''geoip_countries'', ''CN''), (''ip_router_addr'', ''127.0.0.1:8088''),
      (''ip_router_gateway'', ''192.168.1.1''), (''http_addr'', ''127.0.0.1:8053'')]"

definition gate_int_table :: "(string \<times> int \<times> int \<times> int) list" where
  "gate_int_table =
     [(''upstream_timeout'', 5, 1, 300), (''ip_router_timeout'', 3, 1, 300),
      (''ip_router_ttl'', 600, 0, 2147483647)]"

record gate_settings =
  gs_upstream_addr :: string
  gs_geoip_database :: "string option"
  gs_geoip_countries :: "string option"
  gs_ip_router_addr :: "string option"
  gs_ip_router_gateway :: "string option"
  gs_http_addr :: "string option"
  gs_upstream_timeout :: int
  gs_ip_router_timeout :: int
  gs_ip_router_ttl :: int

definition load_gate_settings ::
  "(string \<Rightarrow> string \<Rightarrow> string) \<Rightarrow> (string \<Rightarrow> int \<times> int \<times> int \<Rightarrow> int) \<Rightarrow> gate_settings" where
  "load_gate_settings get_str get_int =
     (let str = (\<lambda>n. get_str n (the (map_of gate_str_table n)));
          int = (\<lambda>n. get_int n (the (map_of gate_int_table n)))
      in \<lparr>gs_upstream_addr = str ''upstream_addr'', gs_geoip_database = Some (str ''geoip_database''),
          gs_geoip_countries = Some (str ''geoip_countries''), gs_ip_router_addr = Some (str ''ip_router_addr''),
          gs_ip_router_gateway = Some (str ''ip_router_gateway''), gs_http_addr = Some (str ''http_addr''),
          gs_upstream_timeout = int ''upstream_timeout'', gs_ip_router_timeout = int ''ip_router_timeout'',
          gs_ip_router_ttl = int ''ip_router_ttl''\<rparr>)"

subsection \<open>The command line\<close>

text \<open>
  The arguments of \<open>main\<close>, the name of the program first, on systems other than Windows; here \<open>alone\<close> is
  compared with its case.
\<close>

datatype gate_launch = Gate_alone string "string option" | Gate_daemon "string list"

definition gate_launch_mode :: "string list \<Rightarrow> gate_launch" where
  "gate_launch_mode argv =
     (if length argv = 1 \<or> length argv \<ge> 2 \<and> argv ! 1 = ''alone''
      then Gate_alone ''127.0.0.1|53'' (if length argv \<ge> 3 then Some (argv ! 2) else None)
      else Gate_daemon argv)"

subsection \<open>The diagnostic service\<close>

text \<open>The address the listener thread is started with, \<open>None\<close> when the service is disabled.\<close>

definition dns_http_service_start :: "string option \<Rightarrow> string option" where
  "dns_http_service_start address = (if address = None \<or> address = Some [] then None else address)"

text \<open>
  A connection. Each request has the method it arrives with; what the base class \<open>acl::HttpServlet\<close> answers
  to methods other than \<open>GET\<close> is \<open>base\<close>, and \<open>goes_on\<close> is what \<open>doRun\<close> returns after \<open>doGet\<close> has returned
  its result.
\<close>

definition serve_http_client ::
  "'k genv \<Rightarrow> gate_config \<Rightarrow> (http_call \<Rightarrow> http_request \<Rightarrow> bool \<times> reply option) \<Rightarrow> (http_request \<Rightarrow> bool \<Rightarrow> bool)
     \<Rightarrow> (http_call \<times> http_request) list \<Rightarrow> ('k, 'z) gate_s \<Rightarrow> reply option list \<times> ('k, 'z) gate_s" where
  "serve_http_client G cf base goes_on =
     serve_while (\<lambda>(call, rq) s.
       if call = Do_get then (case do_get G cf rq s of ((ok, r), s1) \<Rightarrow> ((goes_on rq ok, Some r), s1))
       else (base call rq, s))"

text \<open>
  The listener: opening the address takes an outcome, then connections are accepted until \<open>accept\<close> fails.
  The result has the connections for which a fiber is started.
\<close>

definition run_http_server :: "'c option list \<Rightarrow> ('k, 'z) gate_s \<Rightarrow> 'c list \<times> ('k, 'z) gate_s" where
  "run_http_server accepts s =
     (case next_io s of
        (Fault _, s1) \<Rightarrow> ([], s1)
      | (Done, s1) \<Rightarrow> (map the (takeWhile (\<lambda>c. c \<noteq> None) accepts), s1))"

subsection \<open>Start and exit\<close>

text \<open>
  The process: the system of the fibers, which \<open>dgate_service_start\<close> sets going, and the address of the
  listener. The result of \<open>geoip_router_start\<close> is not looked at: without a database it is a plain proxy.
\<close>

record 'k gate_process =
  gp_system :: "'k gsys"
  gp_listener :: "string option"

definition gate_on_init :: "'k genv \<Rightarrow> gate_settings \<Rightarrow> 'k gate \<Rightarrow> 'k gate_process" where
  "gate_on_init G st s =
     (let s1 = snd (geoip_router_start G (gs_geoip_database st) (gs_geoip_countries st) (gs_ip_router_addr st)
                      (gs_ip_router_gateway st) (gs_ip_router_timeout st) (gs_ip_router_ttl st) s)
      in \<lparr>gp_system = \<lparr>box = [], fibers = [], shared = s1\<rparr>,
          gp_listener = dns_http_service_start (gs_http_addr st)\<rparr>)"

definition gate_on_exit :: "'k gsys \<Rightarrow> 'k gsys" where
  "gate_on_exit S = S\<lparr>shared := geoip_router_stop (shared S)\<rparr>"

end
