(* ===== verification/Gate_Diagnostics.thy ===== *)
theory Gate_Diagnostics
  imports Gate_Master Gate_Fibers Service_Replies
begin

text \<open>
  The diagnostic service of \<open>dns-gate\<close> only reads: a connection sends DNS queries and nothing else, and
  leaves the settings of the filter alone.
\<close>

text \<open>What a connection may do to the process.\<close>

definition diagnostic :: "('k, 'z) gate_s \<Rightarrow> ('k, 'z) gate_s \<Rightarrow> bool" where
  "diagnostic s s' \<longleftrightarrow> same_filter s s' \<and> (\<exists>qs. events s' = events s @ map Query qs)"

lemma diagnostic_refl [simp]: "diagnostic s s"
  unfolding diagnostic_def by (auto intro: exI [of _ "[]"])

lemma diagnostic_trans:
  assumes "diagnostic s t" and "diagnostic t u"
  shows "diagnostic s u"
proof -
  obtain ps qs where "events t = events s @ map Query ps" "events u = events t @ map Query qs"
    using assms unfolding diagnostic_def by blast
  then have "events u = events s @ map Query (ps @ qs)" by simp
  then show ?thesis using assms same_filter_trans [of s t u] unfolding diagnostic_def by blast
qed

lemma diagnostic_quiet: "same_filter s s' \<Longrightarrow> events s' = events s \<Longrightarrow> diagnostic s s'"
  unfolding diagnostic_def by (auto intro: exI [of _ "[]"])

lemma resolve_domain_diagnostic:
  assumes "dgate_resolve_domain G cf name s = (r, s')"
  shows "diagnostic s s'"
  using resolve_domain_gate [OF assms]
proof (elim conjE disjE exE)
  fix q assume "same_filter s s'" "events s' = events s @ [Query q]"
  then show ?thesis unfolding diagnostic_def by (auto intro: exI [of _ "[q]"])
qed (rule diagnostic_quiet)

lemma write_reply_gate:
  fixes s :: "('k, 'z) gate_s"
  assumes "write_reply r s = ((k, r'), s')"
  shows "r' = r \<and> diagnostic s s'"
proof -
  obtain x s1 where io: "next_io s = (x, s1)" by fastforce
  then have "s' = s1" "r' = r" using assms by (auto simp: write_reply_def split: io.splits)
  then show ?thesis using next_io_gate [OF io] diagnostic_quiet by blast
qed

lemma do_get_diagnostic:
  assumes "do_get G cf rq s = ((k, r), s')"
  shows "diagnostic s s' \<and> sound_reply r"
proof -
  consider (lookup) "handle_domain_lookup G cf rq s = ((k, r), s')"
    | (other) st ms where "write_reply (gate_json st ms) s = ((k, r), s')" "st \<in> known_statuses"
        "map_of ms ''success'' = Some (JBool (st = 200))"
    using assms by (auto simp: do_get_def write_error_def split: if_splits)
  then show ?thesis
  proof cases
    case other
    then show ?thesis using write_reply_gate [OF other(1)] by (auto simp: sound_reply_def gate_json_def gate_json_type_def)
  next
    case lookup
    obtain x s1 where r: "\<And>d. normalize_domain G (get_parameter rq ''domain'') = Some d \<Longrightarrow>
        dgate_resolve_domain G cf (c_str d) s = (x, s1)" by (metis option.inject prod.exhaust)
    consider st ms where "write_reply (gate_json st ms) s = ((k, r), s')" "st \<in> known_statuses"
        "map_of ms ''success'' = Some (JBool (st = 200))"
      | d st ms where "normalize_domain G (get_parameter rq ''domain'') = Some d"
        "write_reply (gate_json st ms) s1 = ((k, r), s')" "st \<in> known_statuses"
        "map_of ms ''success'' = Some (JBool (st = 200))"
      using lookup r
      by (auto simp: handle_domain_lookup_def write_error_def lookup_members_def split: option.splits sum.splits)
    then show ?thesis
    proof cases
      case 1
      then show ?thesis using write_reply_gate [OF 1(1)] by (auto simp: sound_reply_def gate_json_def gate_json_type_def)
    next
      case 2
      have "diagnostic s s1" by (rule resolve_domain_diagnostic [OF r [OF 2(1)]])
      then show ?thesis
        using write_reply_gate [OF 2(2)] 2(3,4) diagnostic_trans
        by (auto simp: sound_reply_def gate_json_def gate_json_type_def)
    qed
  qed
qed

lemma serve_http_client_diagnostic:
  assumes "serve_http_client G cf base goes_on qs s = (rs, s')"
  shows "diagnostic s s'"
proof (rule serve_while_inv [OF assms [unfolded serve_http_client_def]])
  fix q t k r and t' :: "('a, 'b) gate_s"
  assume "(case q of (call, rq) \<Rightarrow> \<lambda>s. if call = Do_get
      then (case do_get G cf rq s of ((ok, r), s1) \<Rightarrow> ((goes_on rq ok, Some r), s1))
      else (base call rq, s)) t = ((k, r), t')" and t: "diagnostic s t"
  then have "diagnostic t t'"
    by (auto split: prod.splits if_splits dest!: do_get_diagnostic)
  then show "diagnostic s t'" using t diagnostic_trans by blast
qed simp

end
