(* ===== verification/Gate_Properties.thy ===== *)
theory Gate_Properties
  imports Gate_Example Gate_Diagnostics
begin

text \<open>
  The properties of \<open>dns-gate\<close>, alone and together with \<open>ip-router\<close>. Each is stated over the
  definitions of \<open>Geoip_Router\<close>, \<open>Dgate_Service\<close> and \<open>Dns_Http\<close> and followed by an instance on the
  example.
\<close>

subsection \<open>Names and settings\<close>



text \<open>
  What \<open>geoip_router_start\<close> leaves, whatever it is given: it returns whether the database is open, and
  routing is enabled exactly when it is and a country, the address of \<open>ip-router\<close> and a gateway are
  configured. The configured countries are two capital letters each, so that they can match what
  \<open>lookup_country\<close> returns. Nothing is sent.
\<close>

theorem start_enables_routing_when_configured:
  assumes "geoip_router_start G path countries addr gw timeout ttl s = (r, s')"
  shows "r = geoip_database_ready s' \<and>
    (geoip_routing_ready s' \<longleftrightarrow>
      r \<and> routed_countries s' \<noteq> [] \<and> addr \<notin> {None, Some []} \<and> gw \<notin> {None, Some []}) \<and>
    (\<forall>c\<in>set (routed_countries s'). length c = 2 \<and> uppercase c = c) \<and> events s' = events s"
proof -
  have "routed_countries s' = parse_countries G countries"
    using assms by (auto simp: geoip_router_start_def Let_def split: option.splits if_splits)
  then show ?thesis using start_settings [OF assms] by (auto simp: gate_ok_def)
qed

theorem start_enables_routing_when_configured_witness:
  "geoip_routing_ready demo_gate \<and> routed_countries demo_gate = [''CN'', ''DE'']"
proof -
  have r: "geoip_router_start demo_gate_env (Some ''db'') (Some ''cn, de'') (Some ''127.0.0.1:8088'')
      (Some ''192.168.1.1'') 3 600 demo_gate_idle = (True, demo_gate)"
    unfolding demo_gate_def by (rule prod_eqI) (simp_all, code_simp)
  have c: "routed_countries demo_gate = [''CN'', ''DE'']" by (simp add: demo_gate_run)
  show ?thesis using start_enables_routing_when_configured [OF r] c by simp
qed

subsection \<open>What is routed\<close>

text \<open>
  C37: for the answer to a name, the filter sends at most one request, and its list of addresses is exactly
  the addresses of the answer whose country is routed, each once and in the order of the answer; with
  routing disabled or no match nothing is sent. The settings of the filter stay as they are.
\<close>

theorem route_request_exact:
  "\<exists>as. distinct as \<and> set as = {c_str a |a. a \<in> set (addrs4a response) \<and> routed G s (c_str a)} \<and>
     as = unique_from [] (filter (routed G s) (map c_str (addrs4a response))) \<and>
     events (geoip_route_dns_result G (Some name) response s) = events s @
       (if database_open s \<and> routing_enabled s \<and> name \<noteq> [] \<and> as \<noteq> []
        then [Route_request (c_str (ip_router_addr s)) (route_url G s name as)] else []) \<and>
     same_filter s (geoip_route_dns_result G (Some name) response s)"
  using matched_from_exact [where G = G and s = s and as = "addrs4a response"] matched_from_unique [of G s "[]" "addrs4a response"]
    route_dns_result_gate [of s G name response]
  unfolding route_requests_def by blast

text \<open>
  C38: routing never stands between a client and its answer, as the manual promises. Whatever the country
  database finds and whatever becomes of the \<open>POST\<close> to \<open>ip-router\<close> (refused, failed, unreachable), a request
  sends the same DNS datagrams, the query to the upstream server and the reply to the client, in the same
  order.
\<close>

theorem routing_never_blocks_replies:
  "dns_events (handle_request (G\<lparr>post := p, mmdb_lookup_string := look, mmdb_country := country\<rparr>) cf m s) =
   dns_events (handle_request G cf m s)"
  by (rule handle_request_dns_events) simp_all

text \<open>
  C39: the diagnostic lookup tells the truth: when the addresses of the answer are not empty, \<open>would_route\<close>
  is true exactly when the proxy, given the same answer for a name, sends a route request.
\<close>

theorem lookup_predicts_routing:
  assumes "gate_ok s" and "name \<noteq> []" and "\<forall>a\<in>set (addrs4a response). c_str a \<noteq> []"
  shows "would_route G s response \<longleftrightarrow>
    events (geoip_route_dns_result G (Some name) response s) \<noteq> events s"
proof -
  have "would_route G s response \<longleftrightarrow>
      routing_enabled s \<and> database_open s \<and> (\<exists>a\<in>set (addrs4a response). routed G s (c_str a))"
    using matched_count_pos [of G s "addrs4a response"] lookup_address_routed [of _ G s] assms(1,3)
    by (auto simp: would_route_def geoip_routing_ready_def gate_ok_def)
  moreover have "events (geoip_route_dns_result G (Some name) response s) \<noteq> events s \<longleftrightarrow>
      route_requests G s name response \<noteq> []"
    using route_dns_result_gate [of s G name response] by simp
  ultimately show ?thesis
    using matched_from_empty [of G s "addrs4a response"] assms(2) by (auto simp: route_requests_def)
qed

theorem lookup_predicts_routing_witness:
  "events (geoip_route_dns_result demo_gate_env (Some ''Home'') demo_response demo_gate) \<noteq> events demo_gate"
proof -
  have ok: "gate_ok demo_gate" by (simp add: demo_gate_run gate_ok_def) code_simp
  have w: "would_route demo_gate_env demo_gate demo_response" by code_simp
  have a: "\<forall>a\<in>set (addrs4a demo_response). c_str a \<noteq> []" by code_simp
  show ?thesis using lookup_predicts_routing [OF ok _ a, of "''Home''" demo_gate_env] w by simp
qed

subsection \<open>The proxy\<close>



text \<open>
  C35: no answer goes astray. In every reachable state, however the fibers interleave, whatever calls fail
  and whatever the upstream server sends, each reply in the log went to the sender of a message that
  arrived, parses as a response with the identifier of that message, and the route request for it, if
  the filter has one, had been sent before.
\<close>

theorem replies_are_justified:
  assumes "greachable G cf s0 S" and "events s0 = []"
    and "events (shared S) = sent @ Dns_reply p reply # later"
  shows "\<exists>m\<in>set (arrived S). peer_addr m = p \<and>
    (\<exists>q name response. parse_request G (message_data m) = Some (q, name) \<and>
       parse_reply G reply = Some response \<and> qid response = q \<and>
       (\<forall>e\<in>set (route_requests G s0 name response). e \<in> set sent))"
proof -
  have "justified G s0 (set (arrived S)) (events (shared S))"
    using greachable_inv [OF assms(1,2)] by (simp add: gsys_inv_def)
  then have "\<exists>m\<in>set (arrived S). peer_addr m = p \<and> due_reply G s0 sent m reply"
    unfolding justified_def using assms(3) by blast
  then show ?thesis unfolding due_reply_def by blast
qed

text \<open>One message served to its end.\<close>

definition demo_served :: "(unit rm) gsys" where
  "demo_served =
     (let f1 = fiber_step demo_gate_env demo_gate_config (Received demo_message) demo_gate;
          f2 = fiber_step demo_gate_env demo_gate_config (fst f1) (snd f1);
          f3 = fiber_step demo_gate_env demo_gate_config (fst f2) (snd f2);
          f4 = fiber_step demo_gate_env demo_gate_config (fst f3) (snd f3)
      in \<lparr>box = [], fibers = [fst f4], shared = snd f4\<rparr>)"

lemma run_single:
  assumes "greachable G cf s0 \<lparr>box = [], fibers = [f], shared = s\<rparr>"
  shows "greachable G cf s0 \<lparr>box = [], fibers = [fst (fiber_step G cf f s)], shared = snd (fiber_step G cf f s)\<rparr>"
  by (rule gmore [OF assms], rule gstep.run [where i = 0 and S = "\<lparr>box = [], fibers = [f], shared = s\<rparr>" for f s,
      simplified]) simp

lemma demo_served_reachable: "greachable demo_gate_env demo_gate_config demo_gate demo_served"
proof -
  have "gstep demo_gate_env demo_gate_config \<lparr>box = [], fibers = [], shared = demo_gate\<rparr>
      \<lparr>box = [demo_message], fibers = [], shared = demo_gate\<rparr>"
    using arrive [of demo_gate_env demo_gate_config "\<lparr>box = [], fibers = [], shared = demo_gate\<rparr>" "Some demo_message"]
    by (simp add: on_read_def)
  from gmore [OF gstart this] have
    "greachable demo_gate_env demo_gate_config demo_gate \<lparr>box = [demo_message], fibers = [], shared = demo_gate\<rparr>" .
  from gmore [OF this consume [of _ demo_message "[]"]] have
    "greachable demo_gate_env demo_gate_config demo_gate \<lparr>box = [], fibers = [Received demo_message], shared = demo_gate\<rparr>"
    by simp
  from run_single [OF run_single [OF run_single [OF run_single [OF this]]]]
  show ?thesis unfolding demo_served_def Let_def .
qed

lemma route_result_script: "script (geoip_route_dns_result G n r s) = script s"
  by (simp add: geoip_route_dns_result_def add_routes_def log_event_def Let_def split: prod.splits upstream.splits option.splits)

lemma demo_served_events:
  "\<exists>u. events (shared demo_served) =
     [Query ''query'', Route_request ''127.0.0.1:8088'' u] @ Dns_reply ''10.1.1.1|5353'' ''reply'' # []"
proof -
  let ?s1 = "demo_gate\<lparr>events := [Query ''query'']\<rparr>"
  let ?s3 = "geoip_route_dns_result demo_gate_env (Some ''Home'') demo_response ?s1"
  have f1: "fiber_step demo_gate_env demo_gate_config (Received demo_message) demo_gate =
      (Waiting demo_message 7 ''Home'' ''reply'', ?s1)"
    by (simp add: ask_def send_query_def log_event_def next_io_def demo_gate_env_def demo_message_def demo_gate_run
        demo_gate_idle_def)
  have f2: "fiber_step demo_gate_env demo_gate_config (Waiting demo_message 7 ''Home'' ''reply'') ?s1 =
      (Answered demo_message ''Home'' demo_response ''reply'', ?s1)"
    by (simp add: hear_def read_reply_def next_io_def demo_gate_env_def demo_gate_run demo_gate_idle_def
        demo_response_def)
  have r: "\<exists>u. route_requests demo_gate_env ?s1 ''Home'' demo_response = [Route_request ''127.0.0.1:8088'' u]"
  proof -
    have "matched_from demo_gate_env ?s1 [] (addrs4a demo_response) = [''10.0.0.1'']" by code_simp
    then show ?thesis
      by (simp add: route_requests_def demo_gate_run c_str_def)
  qed
  have f3: "fiber_step demo_gate_env demo_gate_config (Answered demo_message ''Home'' demo_response ''reply'') ?s1 =
      (Routed demo_message ''Home'' demo_response ''reply'', ?s3)"
    by simp
  have sc: "script ?s3 = []" by (simp add: route_result_script demo_gate_run demo_gate_idle_def)
  have f4: "fiber_step demo_gate_env demo_gate_config (Routed demo_message ''Home'' demo_response ''reply'') ?s3 =
      (Finished demo_message True, log_event (Dns_reply ''10.1.1.1|5353'' ''reply'') ?s3)"
    by (simp add: answer_def next_io_def sc demo_message_def)
  have "events (shared demo_served) = events ?s3 @ [Dns_reply ''10.1.1.1|5353'' ''reply'']"
    by (simp add: demo_served_def Let_def f1 f2 f3 f4 log_event_def del: fiber_step.simps)
  then show ?thesis
    using r route_dns_result_gate [of ?s1 demo_gate_env "''Home''" demo_response] by auto
qed

theorem replies_are_justified_witness:
  "\<exists>m\<in>set (arrived demo_served). peer_addr m = ''10.1.1.1|5353''"
proof -
  obtain u where u: "events (shared demo_served) =
      [Query ''query'', Route_request ''127.0.0.1:8088'' u] @ Dns_reply ''10.1.1.1|5353'' ''reply'' # []"
    using demo_served_events by blast
  have e: "events demo_gate = []" by (simp add: demo_gate_run demo_gate_idle_def)
  show ?thesis using replies_are_justified [OF demo_served_reachable e u] by blast
qed

text \<open>
  Nobody is answered more often than they asked: in every reachable state the number of replies sent to
  an address is at most the number of messages that arrived from it.
\<close>

theorem at_most_one_reply_each:
  assumes "greachable G cf s0 S" and "events s0 = []"
  shows "length (filter (replied p) (events (shared S))) \<le> length (filter (\<lambda>m. peer_addr m = p) (arrived S))"
  using greachable_inv [OF assms] repliers_bound [of p "fibers S" "box S"] by (simp add: gsys_inv_def arrived_def)

theorem at_most_one_reply_each_witness:
  "length (filter (replied ''10.1.1.1|5353'') (events (shared demo_served))) \<le> 1"
proof -
  have e: "events demo_gate = []" by (simp add: demo_gate_run demo_gate_idle_def)
  have "length (arrived demo_served) = 1" by (simp add: demo_served_def Let_def arrived_def)
  then have "length (filter (\<lambda>m. peer_addr m = ''10.1.1.1|5353'') (arrived demo_served)) \<le> 1"
    by (metis length_filter_le)
  then show ?thesis
    using at_most_one_reply_each [OF demo_served_reachable e, of "''10.1.1.1|5353''"] by simp
qed

subsection \<open>The identifiers of the lookups\<close>

text \<open>
  The identifiers of the HTTP lookups, taken from a 32-bit counter that wraps, have 16 bits and do not
  repeat within 65536 lookups, across the wrap as well.
\<close>

theorem query_ids_distinct:
  fixes s :: "('a, 'b) gate_s"
  assumes "n < m" and "m - n < 65536"
  shows "fst (next_query (((\<lambda>t. snd (next_query t)) ^^ n) s)) \<noteq> fst (next_query (((\<lambda>t. snd (next_query t)) ^^ m) s)) \<and>
    unat (fst (next_query (((\<lambda>t. snd (next_query t)) ^^ n) s))) < 65536"
proof -
  have it: "query_sequence (((\<lambda>t. snd (next_query t)) ^^ k) s) = query_sequence s + of_nat k" for k
    by (induction k) (simp_all add: next_query_def)
  have fst_next: "fst (next_query t) = take_bit 16 (query_sequence t)" for t :: "('a, 'b) gate_s"
    by (simp add: next_query_def)
  have v: "unat (fst (next_query (((\<lambda>t. snd (next_query t)) ^^ k) s))) = (unat (query_sequence s) + k) mod 65536" for k
    by (simp add: fst_next it unsigned_take_bit_eq take_bit_eq_mod unat_word_ariths unat_of_nat mod_mod_cancel
        mod_simps)
  have "(a + n) mod 65536 \<noteq> (a + m) mod (65536 :: nat)" for a
  proof
    assume "(a + n) mod 65536 = (a + m) mod (65536 :: nat)"
    then have "65536 dvd (a + m) - (a + n)" using assms(1) mod_eq_dvd_iff_nat [of "a + n" "a + m" 65536] by simp
    then show False using assms by (auto dest: dvd_imp_le)
  qed
  then show ?thesis by (metis v mod_less_divisor zero_less_numeral)
qed

theorem query_ids_distinct_witness:
  "fst (next_query demo_gate) \<noteq> fst (next_query (snd (next_query demo_gate)))"
  using query_ids_distinct [of 0 1 demo_gate] by simp

text \<open>
  C34: the diagnostic service only reads, as the manual says. Whatever requests a connection brings, whatever
  fails, and however the library goes on after each, all that leaves the process for the world is DNS
  queries: no route request and no DNS reply; and the settings of the filter stay as they are.
\<close>

theorem diagnostics_never_route:
  assumes "serve_http_client G cf base goes_on qs s = (rs, s')"
  shows "same_filter s s' \<and> (\<exists>queries. events s' = events s @ map Query queries)"
  using serve_http_client_diagnostic [OF assms] unfolding diagnostic_def .

definition demo_lookup :: http_request where
  "demo_lookup = \<lparr>rq_path = Some ''/lookup'', rq_keep_alive = False, rq_expect = None,
     rq_parameters = [(''domain'', ''home.lan'')]\<rparr>"

definition demo_diagnosis :: "reply option list \<times> (unit rm) gate" where
  "demo_diagnosis = serve_http_client demo_gate_env demo_gate_config (\<lambda>call rq. (False, None)) (\<lambda>rq ok. ok)
     [(Do_get, demo_lookup), (Do_post, demo_lookup)] (demo_gate\<lparr>script := [Done, Done, Fault 4]\<rparr>)"

lemma demo_diagnosis_sent:
  "map (\<lambda>e. case e of Query q \<Rightarrow> q | _ \<Rightarrow> []) (events (snd demo_diagnosis)) = [''home.lan'']"
  by code_simp

theorem diagnostics_never_route_witness:
  "events (snd demo_diagnosis) = [Query ''home.lan'']"
proof -
  obtain rs s' where run: "demo_diagnosis = (rs, s')" by fastforce
  obtain queries where q: "events s' = events (demo_gate\<lparr>script := [Done, Done, Fault 4]\<rparr>) @ map Query queries"
    using diagnostics_never_route [OF run [unfolded demo_diagnosis_def]] by (elim conjE exE)
  have "events (demo_gate\<lparr>script := [Done, Done, Fault 4]\<rparr>) = []" by (simp add: demo_gate_run demo_gate_idle_def)
  then have e: "events s' = map Query queries" using q by simp
  have "map (\<lambda>e. case e of Query q \<Rightarrow> q | _ \<Rightarrow> []) (map Query queries) = [''home.lan'']"
    using demo_diagnosis_sent by (simp only: run snd_conv e)
  then have "queries = [''home.lan'']" by (simp add: comp_def)
  then show ?thesis using e by (simp add: run)
qed

subsection \<open>Both programs together\<close>



end
