(* ===== verification/Spec2Isabelle.thy ===== *)
theory Spec2Isabelle
  imports Route_Properties Service_Properties Master_Properties Kernel_Properties Netlink_Properties
    Gate_Properties
begin

text \<open>
  A verification library for the router services of this repository: \<open>ip-router\<close>, an HTTP service that
  keeps a table of host routes and installs them in the kernel (\<open>src/ip-router\<close>), and \<open>dns-gate\<close>, a DNS
  proxy that asks \<open>ip-router\<close> for routes to the addresses of the countries it is configured for
  (\<open>src/dns-gate\<close>). This theory imports all others; it holds no definitions.

  \<^bold>\<open>The program.\<close> A request reaches \<open>http_servlet::doService\<close>, which hands it to the dispatch table of
  \<open>http_service\<close>; the handlers of \<open>route_service.cpp\<close> check the parameters and call \<open>route_manager\<close> or
  \<open>domain_manager\<close>. \<open>route_manager\<close> keeps a two-level map from KEY and destination to metadata, saves it in a
  text file through a temporary file, and changes the kernel over \<open>NETLINK_ROUTE\<close> (Linux) or \<open>PF_ROUTE\<close>
  (BSD, macOS). A worker thread deletes what has expired. \<open>domain_manager\<close> keeps one resolver file per
  domain. \<open>dns-gate\<close> forwards each DNS datagram in a fiber of its own, looks the addresses of the answer up
  in a country database, sends one \<open>POST /route\<close> for those that match, and only then answers the client.

  \<^bold>\<open>Foundations.\<close>
  \<^item> \<open>Prelude\<close>, \<open>Std_Lib\<close>, \<open>Std_Map\<close>: the collections of hints, C strings and numbers, and \<open>std::map\<close> as
    association lists. Interfaces \<open>keyed_store\<close> and \<open>nested_store\<close>, interpreted on the map operations.
  \<^item> \<open>Environment\<close>: the record \<open>os\<close> (files, clock, kernel state, open descriptors, and the \<open>script\<close> of outcomes
    of fallible calls) and the record \<open>env\<close> of the code outside the repository. Each call that can fail takes
    the next outcome of the script, so a theorem about every state covers every pattern of failures.

  \<^bold>\<open>Models of \<open>ip-router\<close>.\<close>
  \<^item> \<open>Netlink\<close>, \<open>System_Routes\<close>: lines 201-690 of \<open>route_manager.cpp\<close>, the requests built byte by byte, the
    acknowledgement and dump parsers, the \<open>PF_ROUTE\<close> write and dump, and the switch between the platforms.
  \<^item> \<open>Route_Table\<close>, \<open>Route_Store\<close>, \<open>Route_Manager\<close>: the map in memory, the two files with their loaders
    (\<open>save_routes_locked\<close>, \<open>load_routes_locked\<close> and the same for the global gateway), and the operations of
    the class, \<open>add\<close> to \<open>start\<close>, with the body of the worker's loop (\<open>expire_once\<close>).
  \<^item> \<open>Route_Worker\<close>: request threads, the controller and the worker as the step relation \<open>rstep\<close>; each
    critical section of \<open>routes_mutex\<close> is a step, \<open>stop\<close> is two with the join between.
  \<^item> \<open>Domain_Manager\<close>: \<open>domain_manager.cpp\<close> over the file system. \<open>Http_Service\<close>: \<open>http_service\<close> and
    \<open>http_servlet\<close>. \<open>Route_Service\<close>: every handler and the registration table.
  \<^item> \<open>Master_Service\<close>: \<open>main.cpp\<close> and \<open>master_service.cpp\<close>, the settings, \<open>proc_on_init\<close> with TLS, a connection
    from \<open>on_accept\<close> through its requests to its end, \<open>proc_on_exit\<close>. \<open>Websocket\<close>: the echo of \<open>websocket.cpp\<close>
    over a list of frames.

  \<^bold>\<open>Models of \<open>dns-gate\<close>.\<close>
  \<^item> \<open>Geoip_Router\<close>: \<open>geoip_router.cpp\<close>. \<open>Dgate_Service\<close>: \<open>dgate_service.cpp\<close>, once as a function and once cut
    into the steps of a fiber, with the step relation \<open>gstep\<close>, in which the HTTP thread looks names up too.
    \<open>Dns_Http\<close>, \<open>Gate_Master\<close>: \<open>dns_http_service.cpp\<close>, its handlers and its listener, and the process
    (\<open>main.cpp\<close>, \<open>master_service.cpp\<close>).

  \<^bold>\<open>Lemmas.\<close>
  \<^item> \<open>Route_Effects\<close>, \<open>Route_Invariant\<close>, \<open>Route_Recovery\<close>, \<open>Route_Deletion\<close>: what each operation does to memory
    and files on every branch, the invariant, restart after a save, the deletion of many routes.
    \<open>routes_operation\<close> is the interface of the operations, \<open>line_codec\<close> that of the two file formats.
  \<^item> \<open>Domain_Names\<close>, \<open>Domain_Effects\<close>, \<open>Service_Effects\<close>: the grammar of names, files, handlers.
    \<open>Service_Replies\<close>: the shape of every reply and what a request may change, handler by handler and then
    for the dispatch (\<open>request_outcome\<close>). \<open>Master_Effects\<close>: start, exit and connections; \<open>Websocket\<close> has
    its own: what is echoed, in full without failures and a prefix of it with them.
  \<^item> \<open>Route_Kernel\<close>, \<open>Kernel_Providers\<close>, \<open>Netlink_Kernel\<close>: the table against the kernel. \<open>host_table\<close> and
    \<open>routed_system\<close> are what the manager needs of a system route operation; \<open>bsd_kernel\<close> and \<open>linux_kernel\<close>
    state what the manuals promise of the two sockets, and the code of each branch gives the contract
    (\<open>sublocale\<close>). \<open>Example_Kernel\<close> interprets both on kernels that parse what they are sent.
  \<^item> \<open>Netlink_Messages\<close>, \<open>Netlink_Dump\<close>, \<open>Netlink_Ack\<close>: the parsers against an encoding of whole messages.
  \<^item> \<open>Geoip_Effects\<close>, \<open>Gate_Fibers\<close>, \<open>Gate_Diagnostics\<close>, \<open>Gate_Router\<close>: the filter, the interleaving of
    fibers, the connections of the diagnostic service, and the request of \<open>dns-gate\<close> served by the dispatch
    of \<open>ip-router\<close>.
  \<^item> \<open>Example_Env\<close>, \<open>Gate_Example\<close>: concrete instances. \<open>Route_Properties\<close>, \<open>Service_Properties\<close>,
    \<open>Master_Properties\<close>, \<open>Kernel_Properties\<close>, \<open>Netlink_Properties\<close>, \<open>Gate_Properties\<close>: the properties, each
    with an instance.

  \<^bold>\<open>Termination and bounds.\<close> No fuel is used. The scans of buffers terminate because every message or
  attribute moves the offset by at least its header within the buffer; the loop of \<open>PF_ROUTE\<close> retries at most
  once; \<open>waitpid\<close> is retried while the script says \<open>EINTR\<close>. Request numbers are 32-bit words and wrap;
  \<open>time_t\<close> and \<open>long long\<close> are integers with the tests for their bounds written out. Reading past a received
  datagram has no meaning in C++; the scans return \<open>Overrun\<close> there.

  \<^bold>\<open>Assumptions.\<close> Little-endian machine; one controller thread calls \<open>start\<close>, \<open>stop\<close> and
  \<open>set_storage_path\<close>, as \<open>master_service\<close> does; the order of \<open>acl::string\<close> is a strict total order; an address
  that ACL accepts has no NUL, tab or newline. Theorems that need more say so in their hypotheses.

  \<^bold>\<open>Not modelled.\<close> The ACL library: reading the configuration file, accepting connections, TLS, fibers,
  parsing and printing of HTTP, JSON and DNS, the client side of HTTP; what the code relies on are arguments
  of the definitions that call it. The country database (\<open>src/vendor\<close>). Logging. The Windows branches of the
  two \<open>main\<close> functions. The callbacks of \<open>master_service\<close> that only log. Web pages, packaging and scripts.
\<close>

end
